(* ===== verification/Prelude.thy ===== *)
theory Prelude
  imports Main "HOL-Library.AList"
begin

text \<open>
  Shared vocabulary of the TeenPattiPool development: the names of the identifier types,
  the JavaScript built-ins that \<^verbatim>\<open>src/server.js\<close> calls (\<open>Array.prototype.findIndex\<close>,
  \<open>splice(i, 1)\<close>, \<open>slice(-n)\<close>, \<open>String.prototype.toLowerCase\<close> and \<open>trim\<close>),
  given their ECMAScript meaning on the values the server handles, and the generic lemmas
  about them and about lists that the component theories share.
  The collection \<open>js_simps\<close> holds the evaluation rules of the built-ins, so that a
  concrete run of a handler evaluates by \<open>simp add: js_simps\<close>.
\<close>

type_synonym socket_id = string
type_synonym player_id = string
type_synonym room_code = string

named_theorems js_simps "evaluation rules of the JavaScript built-ins used by the server"

section \<open>JavaScript built-ins\<close>

text \<open>
  \<open>find_idx P xs\<close> is the index of the first element satisfying \<open>P\<close>;
  \<open>findIndex\<close> returns it as a JavaScript number, \<open>-1\<close> when there is none.
  \<open>Array.prototype.find\<close> is the library's \<^const>\<open>List.find\<close>.
\<close>

primrec find_idx :: "('a \<Rightarrow> bool) \<Rightarrow> 'a list \<Rightarrow> nat option" where
  "find_idx P [] = None"
| "find_idx P (x # xs) = (if P x then Some 0 else map_option Suc (find_idx P xs))"

definition findIndex :: "('a \<Rightarrow> bool) \<Rightarrow> 'a list \<Rightarrow> int" where
  "findIndex P xs = (case find_idx P xs of None \<Rightarrow> -1 | Some i \<Rightarrow> int i)"

text \<open>\<open>xs.splice(i, 1)\<close> for an index in range, and \<open>xs.slice(-n)\<close>.\<close>

definition splice1 :: "nat \<Rightarrow> 'a list \<Rightarrow> 'a list" where
  "splice1 i xs = take i xs @ drop (Suc i) xs"

definition slice_last :: "nat \<Rightarrow> 'a list \<Rightarrow> 'a list" where
  "slice_last n xs = drop (length xs - n) xs"

text \<open>
  Case folding and white space on the ASCII range; the server compares player names with
  \<open>toLowerCase\<close> and rejects names whose \<open>trim()\<close> is empty.
\<close>

definition lower_char :: "char \<Rightarrow> char" where
  "lower_char c =
     (case map_of (zip ''ABCDEFGHIJKLMNOPQRSTUVWXYZ'' ''abcdefghijklmnopqrstuvwxyz'') c of
        Some l \<Rightarrow> l
      | None \<Rightarrow> c)"

definition toLowerCase :: "string \<Rightarrow> string" where
  "toLowerCase s = map lower_char s"

definition js_space :: "char \<Rightarrow> bool" where
  "js_space c \<longleftrightarrow> c \<in> set [CHR '' '', CHR 0x09, CHR 0x0A, CHR 0x0B, CHR 0x0C, CHR 0x0D]"

definition trim_empty :: "string \<Rightarrow> bool" where
  "trim_empty s \<longleftrightarrow> list_all js_space s"

text \<open>\<open>String.prototype.trim\<close>: white space dropped at both ends.\<close>

definition js_trim :: "string \<Rightarrow> string" where
  "js_trim s = rev (dropWhile js_space (rev (dropWhile js_space s)))"

declare findIndex_def [js_simps] splice1_def [js_simps] slice_last_def [js_simps]
  toLowerCase_def [js_simps] lower_char_def [js_simps] js_space_def [js_simps]
  trim_empty_def [js_simps] js_trim_def [js_simps]

section \<open>Lemmas on the built-ins\<close>

lemma find_idx_Some_iff:
  "find_idx P xs = Some i \<longleftrightarrow> i < length xs \<and> P (xs ! i) \<and> (\<forall>j<i. \<not> P (xs ! j))"
proof (induction xs arbitrary: i)
  case Nil
  then show ?case by simp
next
  case (Cons x xs)
  show ?case
  proof (cases i)
    case 0
    then show ?thesis by auto
  next
    case (Suc k)
    have "(\<forall>j<Suc k. \<not> P ((x # xs) ! j)) \<longleftrightarrow> \<not> P x \<and> (\<forall>j<k. \<not> P (xs ! j))"
      by (auto simp: less_Suc_eq_0_disj)
    with Suc Cons.IH show ?thesis by auto
  qed
qed

lemma find_idx_None_iff [simp]: "find_idx P xs = None \<longleftrightarrow> (\<forall>x\<in>set xs. \<not> P x)"
  by (induction xs) auto

lemma find_idx_SomeD:
  "find_idx P xs = Some i \<Longrightarrow> i < length xs \<and> P (xs ! i)"
  by (simp add: find_idx_Some_iff)

lemma find_idx_Some_exists: "(\<exists>x\<in>set xs. P x) \<Longrightarrow> \<exists>i. find_idx P xs = Some i"
  by (cases "find_idx P xs") auto

lemma find_conv_find_idx: "List.find P xs = map_option ((!) xs) (find_idx P xs)"
  by (induction xs) (auto simp: option.map_comp comp_def)

lemma find_idx_map: "find_idx P (map f xs) = find_idx (P \<circ> f) xs"
  by (induction xs) auto

lemma find_idx_cong:
  "length ys = length xs \<Longrightarrow> (\<And>j. j < length xs \<Longrightarrow> P (ys ! j) = Q (xs ! j)) \<Longrightarrow>
   find_idx P ys = find_idx Q xs"
proof (induction xs arbitrary: ys)
  case Nil
  then show ?case by simp
next
  case (Cons x xs)
  then obtain y ys' where ys: "ys = y # ys'" by (cases ys) auto
  from Cons.prems ys have "P y = Q x" by force
  moreover from Cons.prems ys have "find_idx P ys' = find_idx Q xs"
    by (intro Cons.IH) force+
  ultimately show ?case using ys by simp
qed

lemma find_idx_update_same:
  "P x = P (xs ! i) \<Longrightarrow> find_idx P (xs[i := x]) = find_idx P xs"
  by (cases "i < length xs")
     (auto intro!: find_idx_cong simp: nth_list_update list_update_beyond split: if_splits)

lemma find_idx_distinct_key:
  "distinct (map f xs) \<Longrightarrow> i < length xs \<Longrightarrow> find_idx (\<lambda>y. f y = f (xs ! i)) xs = Some i"
  unfolding find_idx_Some_iff
  by (metis distinct_conv_nth length_map nth_map order.strict_trans less_irrefl)

lemma findIndex_Some: "find_idx P xs = Some i \<Longrightarrow> findIndex P xs = int i"
  by (simp add: findIndex_def)

lemma findIndex_None: "find_idx P xs = None \<Longrightarrow> findIndex P xs = -1"
  by (simp add: findIndex_def del: find_idx_None_iff)

lemma findIndex_bound: "0 \<le> findIndex P xs \<Longrightarrow> nat (findIndex P xs) < length xs"
  by (auto simp: findIndex_def find_idx_Some_iff split: option.splits)

lemma length_splice1 [simp]: "i < length xs \<Longrightarrow> length (splice1 i xs) = length xs - 1"
  by (simp add: splice1_def)

lemma nth_splice1:
  "i < length xs \<Longrightarrow> j < length xs - 1 \<Longrightarrow>
   splice1 i xs ! j = (if j < i then xs ! j else xs ! Suc j)"
  by (auto simp: splice1_def nth_append min_def)

lemma map_splice1: "map f (splice1 i xs) = splice1 i (map f xs)"
  by (simp add: splice1_def take_map drop_map)

lemma splice1_split:
  "i < length xs \<Longrightarrow> take i xs @ xs ! i # drop (Suc i) xs = xs"
  by (simp add: Cons_nth_drop_Suc)

lemma set_splice1_subset: "set (splice1 i xs) \<subseteq> set xs"
  by (auto simp: splice1_def dest: in_set_takeD in_set_dropD)

lemma distinct_splice1: "distinct xs \<Longrightarrow> distinct (splice1 i xs)"
  by (simp add: splice1_def set_take_disj_set_drop_if_distinct)

lemma filter_length_splice1:
  "i < length xs \<Longrightarrow>
   length (filter P (splice1 i xs)) + (if P (xs ! i) then 1 else 0) = length (filter P xs)"
proof -
  assume i: "i < length xs"
  have "length (filter P (take i xs @ xs ! i # drop (Suc i) xs)) = length (filter P xs)"
    by (simp only: splice1_split [OF i])
  then show ?thesis by (cases "P (xs ! i)") (simp_all add: splice1_def)
qed

lemma sum_list_splice1:
  "i < length xs \<Longrightarrow> sum_list (splice1 i xs) + xs ! i = sum_list xs"
  for xs :: "int list"
proof -
  assume i: "i < length xs"
  have "sum_list (take i xs @ xs ! i # drop (Suc i) xs) = sum_list xs"
    by (simp only: splice1_split [OF i])
  then show ?thesis by (simp add: splice1_def)
qed

lemma length_slice_last [simp]: "length (slice_last n xs) = min n (length xs)"
  by (simp add: slice_last_def)

section \<open>Lists\<close>

lemma sum_list_map_update:
  "i < length xs \<Longrightarrow>
   sum_list (map f (xs[i := x])) = sum_list (map f xs) - f (xs ! i) + f x"
  for f :: "'a \<Rightarrow> int"
proof (induction xs arbitrary: i)
  case Nil
  then show ?case by simp
next
  case (Cons y ys)
  then show ?case by (cases i) auto
qed

lemma find_SomeD: "List.find P xs = Some x \<Longrightarrow> P x \<and> x \<in> set xs"
  by (induction xs) (auto split: if_splits)

lemma find_map: "List.find P (map f xs) = map_option f (List.find (P \<circ> f) xs)"
  by (induction xs) auto

lemma find_upt_0_Suc:
  "List.find P [0..<Suc m] =
     (if P 0 then Some 0 else map_option Suc (List.find (P \<circ> Suc) [0..<m]))"
proof -
  have "[0..<Suc m] = 0 # map Suc [0..<m]"
    by (simp add: upt_conv_Cons map_Suc_upt del: upt_Suc)
  then show ?thesis by (simp add: find_map)
qed

lemma find_Some_upt_bound: "List.find P [0..<m] = Some k \<Longrightarrow> k < m \<and> P k"
  by (auto simp: find_Some_iff)

lemma mod_rotate_cover: "c < n \<Longrightarrow> j < n \<Longrightarrow> \<exists>k<n. (c + k) mod n = (j::nat)"
proof -
  assume c: "c < n" and j: "j < n"
  let ?k = "(j + n - c) mod n"
  have "(c + ?k) mod n = (c + (j + n - c)) mod n" by (simp add: mod_add_right_eq)
  also have "c + (j + n - c) = j + n" using c by simp
  finally have "(c + ?k) mod n = j" using j by simp
  moreover have "?k < n" using c by simp
  ultimately show ?thesis by blast
qed

lemma filter_length_update_same:
  "P x = P (xs ! i) \<Longrightarrow> length (filter P (xs[i := x])) = length (filter P xs)"
proof (induction xs arbitrary: i)
  case Nil
  then show ?case by simp
next
  case (Cons y ys)
  then show ?case by (cases i) auto
qed

lemma map_update_same: "f x = f (xs ! i) \<Longrightarrow> map f (xs[i := x]) = map f xs"
  by (cases "i < length xs") (simp_all add: map_update list_update_beyond list_update_same_conv)

lemma list_all_update: "list_all P xs \<Longrightarrow> P x \<Longrightarrow> list_all P (xs[i := x])"
  by (cases "i < length xs") (auto simp: list_all_iff list_update_beyond dest: set_update_subset_insert [THEN subsetD])

lemma filter_length_update_true:
  "\<forall>y\<in>set xs. \<not> P y \<Longrightarrow> i < length xs \<Longrightarrow> P x \<Longrightarrow> length (filter P (xs[i := x])) = 1"
proof (induction xs arbitrary: i)
  case Nil
  then show ?case by simp
next
  case (Cons y ys)
  then show ?case
    by (cases i) (auto simp: filter_empty_conv)
qed

lemma filter_length_update_false:
  "i < length xs \<Longrightarrow> P (xs ! i) \<Longrightarrow> \<not> P x \<Longrightarrow>
   Suc (length (filter P (xs[i := x]))) = length (filter P xs)"
proof (induction xs arbitrary: i)
  case Nil
  then show ?case by simp
next
  case (Cons y ys)
  then show ?case by (cases i) auto
qed

lemma all_dropWhile_iff: "(\<forall>x\<in>set (dropWhile P xs). P x) \<longleftrightarrow> (\<forall>x\<in>set xs. P x)"
proof -
  have "\<forall>x\<in>set (takeWhile P xs). P x" by (auto dest: set_takeWhileD)
  then show ?thesis
    by (metis Un_iff set_append takeWhile_dropWhile_id set_dropWhileD)
qed

lemma js_trim_Nil_iff: "js_trim s = [] \<longleftrightarrow> trim_empty s"
  by (simp add: js_trim_def trim_empty_def dropWhile_eq_Nil_conv list_all_iff all_dropWhile_iff)

lemma trim_empty_js_trim [simp]: "trim_empty (js_trim s) = trim_empty s"
proof -
  have "trim_empty (js_trim s) \<longleftrightarrow> js_trim s = []"
  proof
    assume "trim_empty (js_trim s)"
    moreover have "js_trim s = [] \<or> \<not> js_space (last (js_trim s))"
      by (cases "js_trim s = []")
         (auto simp: js_trim_def last_rev hd_dropWhile)
    ultimately show "js_trim s = []" by (auto simp: trim_empty_def list_all_iff dest: last_in_set)
  qed (simp add: trim_empty_def)
  then show ?thesis by (simp add: js_trim_Nil_iff)
qed

lemma list_all_splice1: "list_all P xs \<Longrightarrow> list_all P (splice1 i xs)"
  using set_splice1_subset by (fastforce simp: list_all_iff)

end
