(* ===== verification/Room.thy ===== *)
theory Room
  imports Prelude
begin

text \<open>
  The data model of \<^verbatim>\<open>src/server.js\<close>: a player object (created in the
  \<open>createRoom\<close> and \<open>joinRoom\<close> handlers), a room object (created in \<open>createRoom\<close>,
  lines 58--75), the bounded game log (\<open>addToGameLog\<close>, lines 32--40) and the two
  identifier generators (\<open>generateRoomCode\<close>, \<open>generatePlayerId\<close>, lines 24--30).
  A log entry is the message the code formats; the \<open>toLocaleTimeString\<close> prefix is
  wall-clock time and is not modelled. The random draws and the clock are parameters.
  The theory ends with the room invariant \<open>wf_room\<close> and the turn invariant \<open>turn_ok\<close>
  that the operations of theory \<open>Actions\<close> are proved to keep.
\<close>

section \<open>Players and rooms\<close>

text \<open>A player object; the JavaScript field \<open>id\<close> is \<open>pid\<close> here.\<close>

record player =
  pid :: player_id
  socketId :: socket_id
  name :: string
  balance :: int
  isCreator :: bool
  packed :: bool

text \<open>The messages \<open>addToGameLog\<close> is called with, one constructor per template.\<close>

datatype log_msg =
    LogCreated string
  | LogReconnected string
  | LogJoined string
  | LogBid string int
  | LogPacked string
  | LogAutoWon string int
  | LogReset string int int
  | LogWon string int string
  | LogRemoved string string
  | LogTurnChanged string string
  | LogLeft string
  | LogLeftTimeout string

text \<open>A room object; \<open>round\<close> is \<open>roundNo\<close> here (\<open>round\<close> is a HOL constant).\<close>

record room =
  code :: room_code
  creator :: string
  startingBalance :: int
  players :: "player list"
  pool :: int
  currentTurn :: nat
  roundNo :: int
  gameLog :: "log_msg list"
  totalBids :: nat

section \<open>The game log\<close>

definition addToGameLog :: "room \<Rightarrow> log_msg \<Rightarrow> room" where
  "addToGameLog r m =
     (let l = gameLog r @ [m]
      in r\<lparr>gameLog := (if length l > 50 then slice_last 50 l else l)\<rparr>)"

section \<open>Identifier generators\<close>

text \<open>
  \<open>generateRoomCode\<close> renders \<open>Math.floor(1000 + Math.random() * 9000)\<close>; the draw
  \<open>k = Math.floor(Math.random() * 9000)\<close> is the parameter, \<open>k < 9000\<close>.
\<close>

definition digit_char :: "nat \<Rightarrow> char" where
  "digit_char d = ''0123456789'' ! d"

definition generateRoomCode :: "nat \<Rightarrow> room_code" where
  "generateRoomCode k =
     (let n = 1000 + k
      in map digit_char [n div 1000 mod 10, n div 100 mod 10, n div 10 mod 10, n mod 10])"

text \<open>
  \<open>generatePlayerId\<close> concatenates the clock reading and a random base-36 string, both
  given as strings.
\<close>

definition generatePlayerId :: "string \<Rightarrow> string \<Rightarrow> player_id" where
  "generatePlayerId now rnd = ''player_'' @ now @ ''_'' @ rnd"

section \<open>Room invariants\<close>

text \<open>
  What every live room satisfies: it has players, the turn index is in range, player
  ids are unique, exactly one player is the creator, names are unique up to
  \<open>toLowerCase\<close>, the pool is not negative, rounds count from 1, the log holds at most
  50 entries, and no balance is below \<open>min 0 startingBalance\<close>.
\<close>

definition wf_room :: "room \<Rightarrow> bool" where
  "wf_room r \<longleftrightarrow>
     players r \<noteq> [] \<and>
     currentTurn r < length (players r) \<and>
     distinct (map pid (players r)) \<and>
     length (filter isCreator (players r)) = 1 \<and>
     distinct (map (\<lambda>p. toLowerCase (name p)) (players r)) \<and>
     0 \<le> pool r \<and>
     1 \<le> roundNo r \<and>
     length (gameLog r) \<le> 50 \<and>
     list_all (\<lambda>p. min 0 (startingBalance r) \<le> balance p) (players r)"

text \<open>
  The turn invariant of the specification: the turn index designates a player who has
  not packed, unless every player has packed.
\<close>

definition turn_ok :: "room \<Rightarrow> bool" where
  "turn_ok r \<longleftrightarrow>
     list_ex (\<lambda>p. \<not> packed p) (players r) \<longrightarrow> \<not> packed (players r ! currentTurn r)"

definition active_count :: "room \<Rightarrow> nat" where
  "active_count r = length (filter (\<lambda>p. \<not> packed p) (players r))"

text \<open>The money in a room: the balances of its players and the pool.\<close>

definition total_money :: "room \<Rightarrow> int" where
  "total_money r = sum_list (map balance (players r)) + pool r"

section \<open>Lemmas\<close>

lemma addToGameLog_eq: "addToGameLog r m = r\<lparr>gameLog := slice_last 50 (gameLog r @ [m])\<rparr>"
  by (simp add: addToGameLog_def Let_def slice_last_def)

lemma addToGameLog_length: "length (gameLog (addToGameLog r m)) \<le> 50"
  by (simp add: addToGameLog_eq)

lemma addToGameLog_last: "last (gameLog (addToGameLog r m)) = m"
  by (simp add: addToGameLog_eq slice_last_def)

lemma generateRoomCode_length [simp]: "length (generateRoomCode k) = 4"
  by (simp add: generateRoomCode_def Let_def)

lemma wf_room_addToGameLog [simp]: "wf_room (addToGameLog r m) = wf_room (r\<lparr>gameLog := []\<rparr>)"
  by (simp add: wf_room_def addToGameLog_eq)

lemma wf_room_log_irrelevant: "length (gameLog r) \<le> 50 \<Longrightarrow> wf_room (r\<lparr>gameLog := []\<rparr>) = wf_room r"
  by (simp add: wf_room_def)

lemma turn_ok_addToGameLog [simp]: "turn_ok (addToGameLog r m) = turn_ok r"
  by (simp add: turn_ok_def addToGameLog_eq)

lemma total_money_addToGameLog [simp]: "total_money (addToGameLog r m) = total_money r"
  by (simp add: total_money_def addToGameLog_eq)

end
