(* ===== verification/Examples.thy ===== *)
theory Examples
  imports Room
begin

text \<open>
  Concrete players and rooms on which the witnesses of the development evaluate the
  operations: \<open>mkp n c pk b\<close> is the player named \<open>n\<close> with id \<open>''id_'' @ n\<close> and
  socket \<open>''sock_'' @ n\<close>, creator flag \<open>c\<close>, packed flag \<open>pk\<close> and balance
  \<open>b\<close>; \<open>mkroom ps ct pl\<close> is room \<open>''4321''\<close> with starting balance 1000, players
  \<open>ps\<close>, turn index \<open>ct\<close> and pool \<open>pl\<close>, in round 1 with an empty log.
\<close>

definition mkp :: "string \<Rightarrow> bool \<Rightarrow> bool \<Rightarrow> int \<Rightarrow> player" where
  "mkp n c pk b =
     \<lparr>pid = ''id_'' @ n, socketId = ''sock_'' @ n, name = n, balance = b,
      isCreator = c, packed = pk\<rparr>"

definition mkroom :: "player list \<Rightarrow> nat \<Rightarrow> int \<Rightarrow> room" where
  "mkroom ps ct pl =
     \<lparr>code = ''4321'', creator = ''A'', startingBalance = 1000, players = ps, pool = pl,
      currentTurn = ct, roundNo = 1, gameLog = [], totalBids = 0\<rparr>"

end
