(* ===== verification/Turn.thy ===== *)
theory Turn
  imports Room Examples
begin

text \<open>
  The turn scheduler of \<^verbatim>\<open>src/server.js\<close>: \<open>moveToNextActivePlayer\<close> (lines
  708--732), used after a bid and after a pack, and \<open>ensureActiveTurn\<close> (lines
  735--759), used after a join and after a pack. Both run the same \<open>while\<close> loop, which
  advances the turn index modulo the number of players while it designates a packed
  player and fewer than \<open>n\<close> steps were taken, then fall back to the first unpacked
  player when the loop ran out. The loop is \<open>scanActive\<close>, a \<^theory_text>\<open>function\<close>
  terminating by the measure \<open>n - attempts\<close>.

  The reference is \<open>next_active ps c\<close>: the first unpacked player met when walking
  circularly from \<open>c + 1\<close> for \<open>n\<close> steps. The main results are that
  \<open>moveToNextActivePlayer\<close> computes it exactly (\<open>moveToNextActivePlayer_turn\<close>),
  that the player chosen is unpacked and the nearest one, and what the code does when every
  player has packed.
\<close>

section \<open>The scan loop\<close>

function scanActive :: "player list \<Rightarrow> nat \<Rightarrow> nat \<Rightarrow> nat \<times> nat" where
  "scanActive ps ct attempts =
     (if packed (ps ! ct) \<and> attempts < length ps
      then scanActive ps (Suc ct mod length ps) (Suc attempts)
      else (ct, attempts))"
  by pat_completeness auto
termination
  by (relation "measure (\<lambda>(ps, ct, attempts). length ps - attempts)") auto

declare scanActive.simps [simp del]

text \<open>
  The loop followed by the fallback \<open>for\<close> loop that picks the first unpacked player
  when every step was used.
\<close>

definition scanFrom :: "player list \<Rightarrow> nat \<Rightarrow> nat" where
  "scanFrom ps c =
     (let (ct, attempts) = scanActive ps c 0
      in if length ps \<le> attempts
         then (case find_idx (\<lambda>p. \<not> packed p) ps of Some i \<Rightarrow> i | None \<Rightarrow> ct)
         else ct)"

definition moveToNextActivePlayer :: "room \<Rightarrow> room" where
  "moveToNextActivePlayer r =
     (if players r = [] then r
      else r\<lparr>currentTurn := scanFrom (players r) (Suc (currentTurn r) mod length (players r))\<rparr>)"

definition ensureActiveTurn :: "room \<Rightarrow> room" where
  "ensureActiveTurn r =
     (if players r = [] then r
      else if currentTurn r < length (players r) \<and> packed (players r ! currentTurn r)
      then r\<lparr>currentTurn := scanFrom (players r) (currentTurn r)\<rparr>
      else r)"

section \<open>Reference: the next active player\<close>

definition next_active :: "player list \<Rightarrow> nat \<Rightarrow> nat option" where
  "next_active ps c =
     List.find (\<lambda>j. \<not> packed (ps ! j)) (map (\<lambda>k. (c + k) mod length ps) [1..<Suc (length ps)])"

section \<open>What the loop computes\<close>

text \<open>
  From position \<open>c\<close> with \<open>a\<close> attempts used, the loop stops at the first offset
  \<open>k\<close> below \<open>n - a\<close> whose position is unpacked, or after \<open>n - a\<close> steps.
\<close>

lemma scanActive_find:
  "c < length ps \<Longrightarrow> a \<le> length ps \<Longrightarrow>
   scanActive ps c a =
     (case List.find (\<lambda>k. \<not> packed (ps ! ((c + k) mod length ps))) [0..<length ps - a] of
        Some k \<Rightarrow> ((c + k) mod length ps, a + k)
      | None \<Rightarrow> ((c + (length ps - a)) mod length ps, length ps))"
proof (induction ps c a rule: scanActive.induct)
  case (1 ps c a)
  let ?n = "length ps"
  let ?Q = "\<lambda>c k. \<not> packed (ps ! ((c + k) mod ?n))"
  show ?case
  proof (cases "packed (ps ! c) \<and> a < ?n")
    case True
    have c': "Suc c mod ?n < ?n" using "1.prems" by (intro mod_less_divisor) linarith
    have IH: "scanActive ps (Suc c mod ?n) (Suc a) =
       (case List.find (?Q (Suc c mod ?n)) [0..<?n - Suc a] of
          Some k \<Rightarrow> ((Suc c mod ?n + k) mod ?n, Suc a + k)
        | None \<Rightarrow> ((Suc c mod ?n + (?n - Suc a)) mod ?n, ?n))"
      using True c' by (intro "1.IH") auto
    have shift: "(Suc c mod ?n + k) mod ?n = (c + Suc k) mod ?n" for k
      by (simp add: mod_add_left_eq)
    have len: "?n - a = Suc (?n - Suc a)" using True by (auto simp: Suc_diff_Suc)
    have "List.find (?Q c) [0..<?n - a] =
          map_option Suc (List.find (?Q (Suc c mod ?n)) [0..<?n - Suc a])"
      using True "1.prems" by (simp only: len find_upt_0_Suc) (simp add: comp_def shift)
    moreover have "scanActive ps c a = scanActive ps (Suc c mod ?n) (Suc a)"
      using True by (simp add: scanActive.simps [of ps c a])
    moreover have "(Suc c mod ?n + (?n - Suc a)) mod ?n = (c + (?n - a)) mod ?n"
      by (simp only: shift len)
    ultimately show ?thesis
      using IH True by (auto simp: shift split: option.split)
  next
    case False
    then have stop: "scanActive ps c a = (c, a)"
      by (subst scanActive.simps) (simp only: if_False)
    show ?thesis
    proof (cases "a < ?n")
      case True
      with False have np: "\<not> packed (ps ! c)" by simp
      have len: "?n - a = Suc (?n - Suc a)" using True by (auto simp: Suc_diff_Suc)
      have "List.find (?Q c) [0..<?n - a] = Some 0"
        using np "1.prems" by (simp only: len find_upt_0_Suc) simp
      then show ?thesis using stop "1.prems" by simp
    next
      case False
      with "1.prems" show ?thesis using stop by simp
    qed
  qed
qed

lemma scanActive_bounds:
  assumes "c < length ps" and "a \<le> length ps"
  shows "fst (scanActive ps c a) < length ps \<and> snd (scanActive ps c a) \<le> length ps"
proof -
  have "0 < length ps" using assms(1) by linarith
  then show ?thesis
    using assms by (auto simp: scanActive_find dest!: find_Some_upt_bound split: option.split)
qed

text \<open>Every position is met when walking \<open>n\<close> steps from any position.\<close>

lemma all_packed_of_find_None:
  "c < length ps \<Longrightarrow>
   List.find (\<lambda>k. \<not> packed (ps ! ((c + k) mod length ps))) [0..<length ps] = None \<Longrightarrow>
   find_idx (\<lambda>p. \<not> packed p) ps = None"
proof -
  assume c: "c < length ps"
    and none: "List.find (\<lambda>k. \<not> packed (ps ! ((c + k) mod length ps))) [0..<length ps] = None"
  have "packed (ps ! j)" if j: "j < length ps" for j
  proof -
    obtain k where "k < length ps" and "(c + k) mod length ps = j"
      using mod_rotate_cover [OF c j] by blast
    with none show ?thesis by (auto simp: find_None_iff)
  qed
  then show ?thesis by (auto simp: in_set_conv_nth)
qed

lemma scanFrom_find:
  "c < length ps \<Longrightarrow>
   scanFrom ps c =
     (case List.find (\<lambda>k. \<not> packed (ps ! ((c + k) mod length ps))) [0..<length ps] of
        Some k \<Rightarrow> (c + k) mod length ps
      | None \<Rightarrow> c)"
  by (auto simp: scanFrom_def scanActive_find dest: find_Some_upt_bound all_packed_of_find_None
      split: option.split)

lemma next_active_find:
  "ps \<noteq> [] \<Longrightarrow>
   next_active ps c =
     map_option (\<lambda>k. (Suc c mod length ps + k) mod length ps)
       (List.find (\<lambda>k. \<not> packed (ps ! ((Suc c mod length ps + k) mod length ps))) [0..<length ps])"
proof -
  have up: "[1..<Suc (length ps)] = map Suc [0..<length ps]"
    by (simp add: map_Suc_upt)
  have shift: "(Suc c mod length ps + k) mod length ps = Suc (c + k) mod length ps" for k
    by (simp add: mod_add_left_eq)
  show ?thesis
    unfolding next_active_def up by (simp add: find_map comp_def shift del: upt_Suc)
qed

lemma next_active_Some:
  assumes "next_active ps c = Some j"
  shows "j < length ps \<and> \<not> packed (ps ! j) \<and>
    (\<exists>d. 1 \<le> d \<and> d \<le> length ps \<and> j = (c + d) mod length ps \<and>
         (\<forall>e. 1 \<le> e \<and> e < d \<longrightarrow> packed (ps ! ((c + e) mod length ps))))"
proof -
  let ?xs = "map (\<lambda>k. (c + k) mod length ps) [1..<Suc (length ps)]"
  from assms obtain i where i: "i < length ?xs" "?xs ! i = j" "\<not> packed (ps ! j)"
    and before: "\<forall>k<i. packed (ps ! (?xs ! k))"
    by (auto simp: next_active_def find_Some_iff)
  have n: "0 < length ps" using i(1) by (cases ps) (auto simp del: upt_Suc)
  have "j = (c + Suc i) mod length ps" using i(1,2) by (simp del: upt_Suc)
  moreover have "packed (ps ! ((c + e) mod length ps))" if "1 \<le> e" "e < Suc i" for e
    using before [rule_format, of "e - 1"] that i(1) by (simp del: upt_Suc)
  ultimately show ?thesis
    using i n by (intro conjI exI [of _ "Suc i"]) auto
qed

lemma next_active_None_iff:
  "ps \<noteq> [] \<Longrightarrow> next_active ps c = None \<longleftrightarrow> \<not> list_ex (\<lambda>p. \<not> packed p) ps"
proof -
  assume ne: "ps \<noteq> []"
  let ?c = "Suc c mod length ps"
  have c: "?c < length ps" using ne by simp
  show ?thesis
  proof
    assume "next_active ps c = None"
    then have "List.find (\<lambda>k. \<not> packed (ps ! ((?c + k) mod length ps))) [0..<length ps] = None"
      using ne by (simp add: next_active_find)
    then have "find_idx (\<lambda>p. \<not> packed p) ps = None"
      by (rule all_packed_of_find_None [OF c])
    then show "\<not> list_ex (\<lambda>p. \<not> packed p) ps" by (simp add: list_ex_iff)
  next
    assume "\<not> list_ex (\<lambda>p. \<not> packed p) ps"
    then have "\<forall>j<length ps. packed (ps ! j)" by (auto simp: list_ex_iff)
    then show "next_active ps c = None"
      using ne by (auto simp: next_active_def find_None_iff del: upt_Suc)
  qed
qed

section \<open>The scheduler's operations\<close>

lemma moveToNextActivePlayer_sel [simp]:
  "players (moveToNextActivePlayer r) = players r"
  "pool (moveToNextActivePlayer r) = pool r"
  "roundNo (moveToNextActivePlayer r) = roundNo r"
  "totalBids (moveToNextActivePlayer r) = totalBids r"
  "gameLog (moveToNextActivePlayer r) = gameLog r"
  "startingBalance (moveToNextActivePlayer r) = startingBalance r"
  "code (moveToNextActivePlayer r) = code r"
  "creator (moveToNextActivePlayer r) = creator r"
  by (simp_all add: moveToNextActivePlayer_def)

lemma ensureActiveTurn_sel [simp]:
  "players (ensureActiveTurn r) = players r"
  "pool (ensureActiveTurn r) = pool r"
  "roundNo (ensureActiveTurn r) = roundNo r"
  "totalBids (ensureActiveTurn r) = totalBids r"
  "gameLog (ensureActiveTurn r) = gameLog r"
  "startingBalance (ensureActiveTurn r) = startingBalance r"
  "code (ensureActiveTurn r) = code r"
  "creator (ensureActiveTurn r) = creator r"
  by (simp_all add: ensureActiveTurn_def)

lemma moveToNextActivePlayer_frame:
  "moveToNextActivePlayer r = r\<lparr>currentTurn := currentTurn (moveToNextActivePlayer r)\<rparr>"
  by (simp add: moveToNextActivePlayer_def)

lemma ensureActiveTurn_frame:
  "ensureActiveTurn r = r\<lparr>currentTurn := currentTurn (ensureActiveTurn r)\<rparr>"
  by (simp add: ensureActiveTurn_def)

text \<open>The turn after \<open>moveToNextActivePlayer\<close>, in terms of the reference.\<close>

lemma moveToNext_currentTurn:
  assumes "players r \<noteq> []"
  shows "currentTurn (moveToNextActivePlayer r) =
    (case next_active (players r) (currentTurn r) of
       Some j \<Rightarrow> j
     | None \<Rightarrow> Suc (currentTurn r) mod length (players r))"
proof -
  let ?ps = "players r"
  let ?c = "Suc (currentTurn r) mod length ?ps"
  have c: "?c < length ?ps" using assms by simp
  show ?thesis
    using assms
    by (auto simp: moveToNextActivePlayer_def scanFrom_find [OF c] next_active_find
        split: option.split)
qed

lemma moveToNext_turn_bound:
  "players r \<noteq> [] \<Longrightarrow> currentTurn (moveToNextActivePlayer r) < length (players r)"
  by (auto simp: moveToNext_currentTurn dest: next_active_Some split: option.split)

lemma moveToNext_turn_active:
  "players r \<noteq> [] \<Longrightarrow> list_ex (\<lambda>p. \<not> packed p) (players r) \<Longrightarrow>
   \<not> packed (players r ! currentTurn (moveToNextActivePlayer r))"
  by (auto simp: moveToNext_currentTurn next_active_None_iff dest: next_active_Some
      split: option.split)

lemma next_active_alt:
  "next_active ps c =
     map_option (\<lambda>k. (c + Suc k) mod length ps)
       (List.find (\<lambda>k. \<not> packed (ps ! ((c + Suc k) mod length ps))) [0..<length ps])"
proof -
  have up: "[1..<Suc (length ps)] = map Suc [0..<length ps]"
    by (simp add: map_Suc_upt)
  show ?thesis
    unfolding next_active_def up by (simp add: find_map comp_def del: upt_Suc)
qed

lemma find_snoc_fail: "\<not> P x \<Longrightarrow> List.find P (xs @ [x]) = List.find P xs"
  by (induction xs) auto

lemma ensure_scan_packed:
  assumes c: "c < length ps" and p: "packed (ps ! c)"
  shows "scanFrom ps c = (case next_active ps c of Some j \<Rightarrow> j | None \<Rightarrow> c)"
proof -
  let ?n = "length ps"
  let ?R = "\<lambda>k. \<not> packed (ps ! ((c + Suc k) mod ?n))"
  obtain m where m: "?n = Suc m" using c by (cases "length ps") auto
  have wrap: "(c + Suc m) mod ?n = c" using c by (simp add: m [symmetric])
  have "List.find (\<lambda>k. \<not> packed (ps ! ((c + k) mod ?n))) [0..<?n] =
        map_option Suc (List.find ?R [0..<m])"
    using p c by (simp only: m find_upt_0_Suc) (simp add: comp_def)
  moreover have "List.find ?R [0..<?n] = List.find ?R [0..<m]"
    using p wrap by (simp only: m upt_Suc_append [OF le0]) (rule find_snoc_fail, simp)
  ultimately show ?thesis
    using c by (auto simp: scanFrom_find next_active_alt split: option.split)
qed

lemma ensureActiveTurn_currentTurn:
  assumes "currentTurn r < length (players r)"
  shows "currentTurn (ensureActiveTurn r) =
    (if packed (players r ! currentTurn r)
     then (case next_active (players r) (currentTurn r) of Some j \<Rightarrow> j | None \<Rightarrow> currentTurn r)
     else currentTurn r)"
  using assms by (auto simp: ensureActiveTurn_def ensure_scan_packed)

lemma ensureActiveTurn_turn_bound:
  "currentTurn r < length (players r) \<Longrightarrow> currentTurn (ensureActiveTurn r) < length (players r)"
  by (auto simp: ensureActiveTurn_currentTurn dest: next_active_Some split: option.split)

lemma ensureActiveTurn_turn_active:
  assumes "currentTurn r < length (players r)" and "list_ex (\<lambda>p. \<not> packed p) (players r)"
  shows "\<not> packed (players r ! currentTurn (ensureActiveTurn r))"
proof -
  have "players r \<noteq> []" using assms(1) by auto
  then show ?thesis
    using assms by (auto simp: ensureActiveTurn_currentTurn next_active_None_iff
        dest: next_active_Some split: option.split)
qed

lemma next_active_cong:
  assumes len: "length ps' = length ps"
    and pk: "\<And>j. j < length ps \<Longrightarrow> packed (ps' ! j) = packed (ps ! j)"
  shows "next_active ps' c = next_active ps c"
proof (cases "ps = []")
  case True
  with len show ?thesis by simp
next
  case False
  then have "\<And>k. packed (ps' ! ((c + k) mod length ps)) = packed (ps ! ((c + k) mod length ps))"
    by (intro pk) simp
  with len show ?thesis
    unfolding next_active_def by (simp add: find_map comp_def del: upt_Suc)
qed

lemma next_active_update_same:
  "packed x = packed (ps ! i) \<Longrightarrow> next_active (ps[i := x]) c = next_active ps c"
proof (rule next_active_cong)
  fix j assume "packed x = packed (ps ! i)" "j < length ps"
  then show "packed (ps[i := x] ! j) = packed (ps ! j)"
    by (cases "i < length ps") (auto simp: nth_list_update list_update_beyond not_less)
qed simp

section \<open>Properties of the scheduler\<close>

text \<open>
  C1: Turn advance refines its reference. On a room with players,
  \<open>moveToNextActivePlayer\<close> changes only the turn index, and sets it to the first
  unpacked player met walking circularly from the player after the current one; when
  every player has packed it sets it to the next index, \<open>(currentTurn + 1) mod n\<close>.
\<close>

theorem moveToNextActivePlayer_refines:
  "players r \<noteq> [] \<Longrightarrow>
   moveToNextActivePlayer r =
     r\<lparr>currentTurn := (case next_active (players r) (currentTurn r) of
                         Some j \<Rightarrow> j
                       | None \<Rightarrow> Suc (currentTurn r) mod length (players r))\<rparr>"
  by (subst moveToNextActivePlayer_frame) (simp add: moveToNext_currentTurn)

theorem moveToNextActivePlayer_refines_witness:
  "players (mkroom [mkp ''A'' True True 0, mkp ''B'' False False 0, mkp ''C'' False True 0] 2 0) \<noteq> [] \<and>
   moveToNextActivePlayer (mkroom [mkp ''A'' True True 0, mkp ''B'' False False 0, mkp ''C'' False True 0] 2 0) =
     mkroom [mkp ''A'' True True 0, mkp ''B'' False False 0, mkp ''C'' False True 0] 1 0"
  using moveToNextActivePlayer_refines
    [of "mkroom [mkp ''A'' True True 0, mkp ''B'' False False 0, mkp ''C'' False True 0] 2 0"]
  by (simp add: mkroom_def mkp_def next_active_def)

text \<open>
  C2: The turn advance skips exactly the packed players. When some player has not
  packed, the new turn index is \<open>d\<close> steps after the current one for some
  \<open>1 \<le> d \<le> n\<close>, designates an unpacked player, and every player strictly between
  is packed.
\<close>

theorem moveToNextActivePlayer_nearest_active:
  assumes "players r \<noteq> []" and "list_ex (\<lambda>p. \<not> packed p) (players r)"
  shows "\<exists>d. 1 \<le> d \<and> d \<le> length (players r) \<and>
    currentTurn (moveToNextActivePlayer r) = (currentTurn r + d) mod length (players r) \<and>
    \<not> packed (players r ! currentTurn (moveToNextActivePlayer r)) \<and>
    (\<forall>e. 1 \<le> e \<and> e < d \<longrightarrow> packed (players r ! ((currentTurn r + e) mod length (players r))))"
proof -
  have "next_active (players r) (currentTurn r) \<noteq> None"
    using next_active_None_iff [OF assms(1)] assms(2) by blast
  then obtain j where j: "next_active (players r) (currentTurn r) = Some j" by blast
  have "currentTurn (moveToNextActivePlayer r) = j"
    using j assms(1) by (simp add: moveToNext_currentTurn)
  with next_active_Some [OF j] show ?thesis by auto
qed

theorem moveToNextActivePlayer_nearest_active_witness:
  "players (mkroom [mkp ''A'' True True 0, mkp ''B'' False False 0, mkp ''C'' False True 0] 2 0) \<noteq> [] \<and> list_ex (\<lambda>p. \<not> packed p) (players (mkroom [mkp ''A'' True True 0, mkp ''B'' False False 0, mkp ''C'' False True 0] 2 0)) \<and>
   currentTurn (moveToNextActivePlayer (mkroom [mkp ''A'' True True 0, mkp ''B'' False False 0, mkp ''C'' False True 0] 2 0)) = 1 \<and>
   (\<exists>d. 1 \<le> d \<and> d \<le> length (players (mkroom [mkp ''A'' True True 0, mkp ''B'' False False 0, mkp ''C'' False True 0] 2 0)) \<and>
    currentTurn (moveToNextActivePlayer (mkroom [mkp ''A'' True True 0, mkp ''B'' False False 0, mkp ''C'' False True 0] 2 0)) =
      (currentTurn (mkroom [mkp ''A'' True True 0, mkp ''B'' False False 0, mkp ''C'' False True 0] 2 0) + d) mod length (players (mkroom [mkp ''A'' True True 0, mkp ''B'' False False 0, mkp ''C'' False True 0] 2 0)) \<and>
    \<not> packed (players (mkroom [mkp ''A'' True True 0, mkp ''B'' False False 0, mkp ''C'' False True 0] 2 0) ! currentTurn (moveToNextActivePlayer (mkroom [mkp ''A'' True True 0, mkp ''B'' False False 0, mkp ''C'' False True 0] 2 0))) \<and>
    (\<forall>e. 1 \<le> e \<and> e < d \<longrightarrow>
       packed (players (mkroom [mkp ''A'' True True 0, mkp ''B'' False False 0, mkp ''C'' False True 0] 2 0) !
         ((currentTurn (mkroom [mkp ''A'' True True 0, mkp ''B'' False False 0, mkp ''C'' False True 0] 2 0) + e) mod length (players (mkroom [mkp ''A'' True True 0, mkp ''B'' False False 0, mkp ''C'' False True 0] 2 0))))))"
proof -
  have h1: "players (mkroom [mkp ''A'' True True 0, mkp ''B'' False False 0, mkp ''C'' False True 0] 2 0) \<noteq> []" and h2: "list_ex (\<lambda>p. \<not> packed p) (players (mkroom [mkp ''A'' True True 0, mkp ''B'' False False 0, mkp ''C'' False True 0] 2 0))"
    by (simp_all add: mkroom_def mkp_def)
  have t: "currentTurn (moveToNextActivePlayer (mkroom [mkp ''A'' True True 0, mkp ''B'' False False 0, mkp ''C'' False True 0] 2 0)) = 1"
    by (simp add: moveToNextActivePlayer_def scanFrom_def scanActive.simps mkroom_def mkp_def)
  show ?thesis
    by (intro conjI h1 h2 t moveToNextActivePlayer_nearest_active [OF h1 h2])
qed

text \<open>
  C3: When every player has packed, \<open>moveToNextActivePlayer\<close> does not leave the turn
  where it was (as the specification's turn-advance algorithm says) but moves it to the
  next index, \<open>(currentTurn + 1) mod n\<close>: the loop runs out and the fallback finds no
  unpacked player.
\<close>

theorem moveToNextActivePlayer_all_packed:
  "players r \<noteq> [] \<Longrightarrow> list_all packed (players r) \<Longrightarrow>
   currentTurn (moveToNextActivePlayer r) = Suc (currentTurn r) mod length (players r)"
proof -
  assume ne: "players r \<noteq> []" and all: "list_all packed (players r)"
  then have "next_active (players r) (currentTurn r) = None"
    using next_active_None_iff [OF ne] by (simp add: list_all_iff list_ex_iff)
  with ne show ?thesis by (simp add: moveToNext_currentTurn)
qed

theorem moveToNextActivePlayer_all_packed_witness:
  "players (mkroom [mkp ''A'' True True 0, mkp ''B'' False True 0] 0 0) \<noteq> [] \<and>
   list_all packed (players (mkroom [mkp ''A'' True True 0, mkp ''B'' False True 0] 0 0)) \<and>
   currentTurn (moveToNextActivePlayer (mkroom [mkp ''A'' True True 0, mkp ''B'' False True 0] 0 0)) = 1"
  using moveToNextActivePlayer_all_packed [of "mkroom [mkp ''A'' True True 0, mkp ''B'' False True 0] 0 0"]
  by (simp add: mkroom_def mkp_def)

text \<open>
  C4: \<open>ensureActiveTurn\<close> changes only the turn index; it keeps a turn index that
  designates an unpacked player, moves a turn index that designates a packed player to the
  next unpacked player after it, and leaves it when every player has packed.
\<close>

theorem ensureActiveTurn_spec:
  "currentTurn r < length (players r) \<Longrightarrow>
   ensureActiveTurn r =
     r\<lparr>currentTurn := (if packed (players r ! currentTurn r)
                       then (case next_active (players r) (currentTurn r) of
                               Some j \<Rightarrow> j | None \<Rightarrow> currentTurn r)
                       else currentTurn r)\<rparr>"
  by (subst ensureActiveTurn_frame) (simp add: ensureActiveTurn_currentTurn)

theorem ensureActiveTurn_spec_witness:
  "currentTurn (mkroom [mkp ''A'' True True 0, mkp ''B'' False False 0, mkp ''C'' False True 0] 0 0) < length (players (mkroom [mkp ''A'' True True 0, mkp ''B'' False False 0, mkp ''C'' False True 0] 0 0)) \<and>
   ensureActiveTurn (mkroom [mkp ''A'' True True 0, mkp ''B'' False False 0, mkp ''C'' False True 0] 0 0) = mkroom [mkp ''A'' True True 0, mkp ''B'' False False 0, mkp ''C'' False True 0] 1 0"
  using ensureActiveTurn_spec [of "mkroom [mkp ''A'' True True 0, mkp ''B'' False False 0, mkp ''C'' False True 0] 0 0"]
  by (simp add: mkroom_def mkp_def next_active_def)

text \<open>
  C5: The scan loop of the scheduler terminates within the players it has left to visit:
  started at a valid index with \<open>a \<le> n\<close> attempts used, it returns after
  \<open>k \<le> n - a\<close> iterations, at index \<open>(c + k) mod n\<close> with \<open>a + k\<close> attempts.
\<close>

theorem scanActive_terminates:
  "c < length ps \<Longrightarrow> a \<le> length ps \<Longrightarrow>
   \<exists>k \<le> length ps - a. scanActive ps c a = ((c + k) mod length ps, a + k)"
  by (auto simp: scanActive_find dest!: find_Some_upt_bound split: option.split)

theorem scanActive_terminates_witness:
  "(0::nat) < length [mkp ''A'' True True 0, mkp ''B'' False True 0, mkp ''C'' False False 0] \<and>
   (0::nat) \<le> length [mkp ''A'' True True 0, mkp ''B'' False True 0, mkp ''C'' False False 0] \<and>
   scanActive [mkp ''A'' True True 0, mkp ''B'' False True 0, mkp ''C'' False False 0] 0 0 = (2, 2)"
proof -
  have "scanActive [mkp ''A'' True True 0, mkp ''B'' False True 0, mkp ''C'' False False 0] 0 0 = (2, 2)"
    by (simp add: scanActive.simps mkp_def)
  moreover note scanActive_terminates
    [of 0 "[mkp ''A'' True True 0, mkp ''B'' False True 0, mkp ''C'' False False 0]" 0]
  ultimately show ?thesis by simp
qed

end
