(* ===== verification/Events.thy ===== *)
theory Events
  imports Room
begin

text \<open>
  The outbound side of \<^verbatim>\<open>src/server.js\<close>: the error classes the handlers report with
  \<open>socket.emit('error', {message})\<close> (one constructor per message; \<open>TypeError\<close> is the
  exception JavaScript raises when a handler reads a field of \<open>undefined\<close>), the payloads
  of the named events the server emits, and their addressing: \<open>socket.emit\<close> and
  \<open>io.to(socketId)\<close> reach one socket, \<open>io.to(roomCode)\<close> every socket subscribed to
  the room, \<open>socket.to(roomCode)\<close> every subscribed socket but the sender.
  An event carrying a room carries the snapshot at the time of the \<open>emit\<close>: socket.io
  serialises the payload when \<open>emit\<close> is called.
\<close>

datatype err =
    EnterName
  | InvalidRoomCode
  | RoomNotFound
  | DuplicateName
  | NotInRoom
  | PlayerNotFound
  | NotYourTurn
  | InvalidAmount
  | InsufficientBalance
  | AlreadyPacked
  | PackNotYourTurn
  | Forbidden
  | WinnerNotFound
  | EmptyPool
  | CannotRemoveOwner
  | TargetPacked
  | TypeError

datatype rejoin_fail = InvalidRejoinData | RejoinRoomNotFound | RejoinPlayerNotFound

datatype event =
    RoomCreated room_code player room
  | RoomRejoined room
  | RoomRejoinFailed rejoin_fail
  | RoomJoined player room
  | RoomUpdate room
  | BidPlaced string int room
  | PlayerPacked string room
  | PoolReset int room
  | WinnerDeclared "player_id option" string int string room
  | PlayerLeft string "string option" room
  | PlayerRemoved string
  | TurnChanged string string room
  | Error err

datatype target = ToSocket socket_id | ToRoom room_code | ToRoomExcept room_code socket_id

type_synonym outbox = "(target \<times> event) list"

text \<open>The room snapshots an outbox carries, in emission order.\<close>

fun event_room :: "event \<Rightarrow> room option" where
  "event_room (RoomCreated c p r) = Some r"
| "event_room (RoomRejoined r) = Some r"
| "event_room (RoomJoined p r) = Some r"
| "event_room (RoomUpdate r) = Some r"
| "event_room (BidPlaced n a r) = Some r"
| "event_room (PlayerPacked n r) = Some r"
| "event_room (PoolReset a r) = Some r"
| "event_room (WinnerDeclared w n a d r) = Some r"
| "event_room (PlayerLeft n b r) = Some r"
| "event_room (TurnChanged n b r) = Some r"
| "event_room _ = None"

text \<open>Whether a message addressed to \<open>t\<close> reaches socket \<open>s\<close>, given the rooms \<open>s\<close> is in.\<close>

fun reaches :: "target \<Rightarrow> socket_id \<Rightarrow> room_code set \<Rightarrow> bool" where
  "reaches (ToSocket s') s joined \<longleftrightarrow> s' = s"
| "reaches (ToRoom c) s joined \<longleftrightarrow> c \<in> joined"
| "reaches (ToRoomExcept c s') s joined \<longleftrightarrow> c \<in> joined \<and> s \<noteq> s'"

end
