(* ===== verification/Actions.thy ===== *)
theory Actions
  imports Turn Events
begin

text \<open>
  The room state machine of \<^verbatim>\<open>src/server.js\<close>: for each socket handler, the part
  that runs once the room object has been found, that is its checks in the code's order
  (each early \<open>return\<close> after \<open>socket.emit('error', ...)\<close> is an \<open>Inl\<close>), its
  mutations of the room object in the code's order, and the messages it emits. The room
  is passed in and returned; the emitted messages are the outbox. The handlers' lookups
  of the socket's session and of the room in the registry are in theory \<open>Server\<close>.

  \<^item> \<open>joinRoom\<close>: lines 153--187 of the \<open>joinRoom\<close> handler;
  \<^item> \<open>rejoinRoom\<close>: lines 110--132 of the \<open>rejoinRoom\<close> handler;
  \<^item> \<open>placeBid\<close>: lines 209--249; \<open>packCards\<close>: lines 270--338, whose
    last-player-standing settlement (lines 300--325) is \<open>autoSettle\<close>;
  \<^item> \<open>resetPool\<close>: lines 359--387; \<open>declareWinner\<close>: lines 409--456;
  \<^item> \<open>removePlayer\<close>: lines 478--529; \<open>changeTurn\<close>: lines 549--582;
  \<^item> \<open>leaveRoom\<close>: lines 601--635 and \<open>timeoutRemove\<close>: lines 657--697, the
    removal the disconnect timer runs; both return \<open>None\<close> when the room must be
    deleted.
  The owner-only and turn-taking actions are also collected in the datatype
  \<open>room_action\<close> with the dispatcher \<open>game_step\<close>, which the server's handlers call.
\<close>

section \<open>Joining and rejoining\<close>

definition joinRoom ::
  "room_code \<Rightarrow> socket_id \<Rightarrow> player_id \<Rightarrow> string \<Rightarrow> room \<Rightarrow> err + room \<times> outbox" where
  "joinRoom roomCode sid playerId playerName r =
     (if list_ex (\<lambda>p. toLowerCase (name p) = toLowerCase playerName) (players r)
      then Inl DuplicateName
      else
        let newPlayer = \<lparr>pid = playerId, socketId = sid, name = playerName,
                         balance = startingBalance r, isCreator = False, packed = False\<rparr>;
            r1 = addToGameLog (r\<lparr>players := players r @ [newPlayer]\<rparr>) (LogJoined playerName);
            r2 = ensureActiveTurn r1
        in Inr (r2, [(ToSocket sid, RoomJoined newPlayer r1), (ToRoom roomCode, RoomUpdate r2)]))"

definition rejoinRoom ::
  "room_code \<Rightarrow> socket_id \<Rightarrow> player_id \<Rightarrow> string \<Rightarrow> room \<Rightarrow> room option \<times> outbox" where
  "rejoinRoom roomCode sid playerId playerName r =
     (case find_idx (\<lambda>p. pid p = playerId) (players r) of
        None \<Rightarrow> (None, [(ToSocket sid, RoomRejoinFailed RejoinPlayerNotFound)])
      | Some i \<Rightarrow>
          let r1 = addToGameLog (r\<lparr>players := (players r)[i := (players r ! i)\<lparr>socketId := sid\<rparr>]\<rparr>)
                     (LogReconnected playerName)
          in (Some r1, [(ToSocket sid, RoomRejoined r1), (ToRoomExcept roomCode sid, RoomUpdate r1)]))"

section \<open>Bidding and packing\<close>

definition placeBid :: "room_code \<Rightarrow> player_id \<Rightarrow> int \<Rightarrow> room \<Rightarrow> err + room \<times> outbox" where
  "placeBid roomCode playerId amount r =
     (case find_idx (\<lambda>p. pid p = playerId) (players r) of
        None \<Rightarrow> Inl PlayerNotFound
      | Some i \<Rightarrow>
          if \<not> currentTurn r < length (players r) then Inl TypeError
          else if pid (players r ! currentTurn r) \<noteq> playerId then Inl NotYourTurn
          else if amount \<le> 0 then Inl InvalidAmount
          else if balance (players r ! i) < amount then Inl InsufficientBalance
          else
            let p = players r ! i;
                r1 = r\<lparr>players := (players r)[i := p\<lparr>balance := balance p - amount\<rparr>],
                       pool := pool r + amount, totalBids := Suc (totalBids r)\<rparr>;
                r2 = moveToNextActivePlayer (addToGameLog r1 (LogBid (name p) amount))
            in Inr (r2, [(ToRoom roomCode, BidPlaced (name p) amount r2),
                         (ToRoom roomCode, RoomUpdate r2)]))"

text \<open>The settlement when one unpacked player is left; \<open>w\<close> is that player's index.\<close>

definition autoSettle :: "nat \<Rightarrow> room \<Rightarrow> room" where
  "autoSettle w r =
     (let winner = players r ! w;
          winAmount = pool r;
          r1 = r\<lparr>players := (players r)[w := winner\<lparr>balance := balance winner + winAmount\<rparr>]\<rparr>;
          r2 = addToGameLog r1 (LogAutoWon (name winner) winAmount);
          r3 = r2\<lparr>pool := 0, roundNo := roundNo r2 + 1, totalBids := 0\<rparr>;
          winnerIndex = findIndex (\<lambda>p. pid p = pid winner) (players r3);
          r4 = r3\<lparr>currentTurn := (if 0 \<le> winnerIndex then nat winnerIndex else 0)\<rparr>
      in r4\<lparr>players := map (\<lambda>p. p\<lparr>packed := False\<rparr>) (players r4)\<rparr>)"

definition packCards :: "room_code \<Rightarrow> player_id \<Rightarrow> room \<Rightarrow> err + room \<times> outbox" where
  "packCards roomCode playerId r =
     (case find_idx (\<lambda>p. pid p = playerId) (players r) of
        None \<Rightarrow> Inl PlayerNotFound
      | Some i \<Rightarrow>
          if packed (players r ! i) then Inl AlreadyPacked
          else if currentTurn r \<noteq> i then Inl PackNotYourTurn
          else
            let p = players r ! i;
                r1 = addToGameLog (r\<lparr>players := (players r)[i := p\<lparr>packed := True\<rparr>]\<rparr>)
                       (LogPacked (name p));
                r2 = moveToNextActivePlayer r1;
                activePlayers = filter (\<lambda>q. \<not> packed q) (players r2);
                (r3, won) =
                  (if length activePlayers = 1
                   then (case find_idx (\<lambda>q. \<not> packed q) (players r2) of
                           Some w \<Rightarrow>
                             let r' = autoSettle w r2
                             in (r', [(ToRoom roomCode,
                                       WinnerDeclared None (name (players r2 ! w)) (pool r2)
                                         ''System (Auto)'' r')])
                         | None \<Rightarrow> (r2, []))
                   else (r2, []));
                r4 = ensureActiveTurn r3
            in Inr (r4, won @ [(ToRoom roomCode, PlayerPacked (name p) r3),
                               (ToRoom roomCode, RoomUpdate r4)]))"

section \<open>Owner actions\<close>

definition resetPool :: "room_code \<Rightarrow> player_id \<Rightarrow> room \<Rightarrow> err + room \<times> outbox" where
  "resetPool roomCode playerId r =
     (case List.find (\<lambda>p. pid p = playerId) (players r) of
        None \<Rightarrow> Inl Forbidden
      | Some host \<Rightarrow>
          if \<not> isCreator host then Inl Forbidden
          else
            let finalPoolAmount = pool r;
                r1 = r\<lparr>pool := 0, roundNo := 1, totalBids := 0, currentTurn := 0\<rparr>;
                r2 = r1\<lparr>players := map (\<lambda>q. q\<lparr>balance := startingBalance r1, packed := False\<rparr>)
                                      (players r1)\<rparr>;
                r3 = addToGameLog r2 (LogReset (name host) (roundNo r2) (startingBalance r2))
            in Inr (r3, [(ToRoom roomCode, PoolReset finalPoolAmount r3),
                         (ToRoom roomCode, RoomUpdate r3)]))"

definition declareWinner ::
  "room_code \<Rightarrow> player_id \<Rightarrow> player_id \<Rightarrow> room \<Rightarrow> err + room \<times> outbox" where
  "declareWinner roomCode playerId winnerId r =
     (case List.find (\<lambda>p. pid p = playerId) (players r) of
        None \<Rightarrow> Inl Forbidden
      | Some host \<Rightarrow>
          if \<not> isCreator host then Inl Forbidden
          else case find_idx (\<lambda>p. pid p = winnerId) (players r) of
            None \<Rightarrow> Inl WinnerNotFound
          | Some w \<Rightarrow>
              if pool r \<le> 0 then Inl EmptyPool
              else
                let winner = players r ! w;
                    winAmount = pool r;
                    r1 = r\<lparr>players := (players r)[w := winner\<lparr>balance := balance winner + winAmount\<rparr>]\<rparr>;
                    r2 = addToGameLog r1 (LogWon (name winner) winAmount (name host));
                    r3 = r2\<lparr>pool := 0, roundNo := roundNo r2 + 1, totalBids := 0\<rparr>;
                    winnerIndex = findIndex (\<lambda>p. pid p = pid winner) (players r3);
                    r4 = r3\<lparr>currentTurn := (if 0 \<le> winnerIndex then nat winnerIndex else 0)\<rparr>;
                    r5 = r4\<lparr>players := map (\<lambda>p. p\<lparr>packed := False\<rparr>) (players r4)\<rparr>
                in Inr (r5, [(ToRoom roomCode,
                              WinnerDeclared (Some (pid winner)) (name winner) winAmount (name host) r5),
                             (ToRoom roomCode, RoomUpdate r5)]))"

definition removePlayer ::
  "room_code \<Rightarrow> player_id \<Rightarrow> player_id \<Rightarrow> room \<Rightarrow> err + room \<times> outbox" where
  "removePlayer roomCode playerId playerIdToRemove r =
     (case List.find (\<lambda>p. pid p = playerId) (players r) of
        None \<Rightarrow> Inl Forbidden
      | Some host \<Rightarrow>
          if \<not> isCreator host then Inl Forbidden
          else case List.find (\<lambda>p. pid p = playerIdToRemove) (players r) of
            None \<Rightarrow> Inl PlayerNotFound
          | Some target \<Rightarrow>
              if isCreator target then Inl CannotRemoveOwner
              else case find_idx (\<lambda>p. pid p = playerIdToRemove) (players r) of
                None \<Rightarrow> Inr (r, [])
              | Some i \<Rightarrow>
                  let removedPlayerName = name (players r ! i);
                      removedPlayerSocketId = socketId (players r ! i);
                      r1 = addToGameLog (r\<lparr>players := splice1 i (players r)\<rparr>)
                             (LogRemoved removedPlayerName (name host));
                      r2 = (if length (players r1) \<le> currentTurn r1 then r1\<lparr>currentTurn := 0\<rparr>
                            else if i < currentTurn r1 then r1\<lparr>currentTurn := currentTurn r1 - 1\<rparr>
                            else r1)
                  in Inr (r2, (if removedPlayerSocketId \<noteq> []
                               then [(ToSocket removedPlayerSocketId, PlayerRemoved (name host))]
                               else []) @
                              [(ToRoom roomCode, PlayerLeft removedPlayerName (Some (name host)) r2),
                               (ToRoom roomCode, RoomUpdate r2)]))"

definition changeTurn ::
  "room_code \<Rightarrow> player_id \<Rightarrow> player_id \<Rightarrow> room \<Rightarrow> err + room \<times> outbox" where
  "changeTurn roomCode playerId newTurnPlayerId r =
     (case List.find (\<lambda>p. pid p = playerId) (players r) of
        None \<Rightarrow> Inl Forbidden
      | Some host \<Rightarrow>
          if \<not> isCreator host then Inl Forbidden
          else case find_idx (\<lambda>p. pid p = newTurnPlayerId) (players r) of
            None \<Rightarrow> Inl PlayerNotFound
          | Some i \<Rightarrow>
              if packed (players r ! i) then Inl TargetPacked
              else
                let r1 = addToGameLog (r\<lparr>currentTurn := i\<rparr>)
                           (LogTurnChanged (name (players r ! i)) (name host))
                in Inr (r1, [(ToRoom roomCode, TurnChanged (name (players r ! i)) (name host) r1),
                             (ToRoom roomCode, RoomUpdate r1)]))"

section \<open>Leaving\<close>

definition leaveRoom :: "room_code \<Rightarrow> player_id \<Rightarrow> room \<Rightarrow> room option \<times> outbox" where
  "leaveRoom roomCode playerId r =
     (case find_idx (\<lambda>p. pid p = playerId) (players r) of
        None \<Rightarrow> (Some r, [])
      | Some i \<Rightarrow>
          let playerName = name (players r ! i);
              wasCreator = isCreator (players r ! i);
              r1 = addToGameLog (r\<lparr>players := splice1 i (players r)\<rparr>) (LogLeft playerName);
              r2 = (if wasCreator \<and> players r1 \<noteq> []
                    then r1\<lparr>players := (players r1)[0 := (players r1 ! 0)\<lparr>isCreator := True\<rparr>],
                            creator := name (players r1 ! 0)\<rparr>
                    else r1)
          in if players r2 = [] then (None, [])
             else
               let r3 = (if length (players r2) \<le> currentTurn r2 then r2\<lparr>currentTurn := 0\<rparr> else r2)
               in (Some r3, [(ToRoom roomCode, PlayerLeft playerName None r3),
                             (ToRoom roomCode, RoomUpdate r3)]))"

definition timeoutRemove :: "room_code \<Rightarrow> player_id \<Rightarrow> room \<Rightarrow> room option \<times> outbox" where
  "timeoutRemove roomCode playerId r =
     (case find_idx (\<lambda>p. pid p = playerId) (players r) of
        None \<Rightarrow> (Some r, [])
      | Some finalPlayerIndex \<Rightarrow>
          let playerName = name (players r ! finalPlayerIndex);
              wasCreator = isCreator (players r ! finalPlayerIndex);
              r1 = addToGameLog (r\<lparr>players := splice1 finalPlayerIndex (players r)\<rparr>)
                     (LogLeftTimeout playerName);
              r2 = (if wasCreator \<and> players r1 \<noteq> []
                    then r1\<lparr>players := (players r1)[0 := (players r1 ! 0)\<lparr>isCreator := True\<rparr>],
                            creator := name (players r1 ! 0)\<rparr>
                    else r1)
          in if players r2 = [] then (None, [])
             else
               let r3 = (if length (players r2) \<le> currentTurn r2 then r2\<lparr>currentTurn := 0\<rparr> else r2)
               in (Some r3, [(ToRoom roomCode, PlayerLeft playerName None r3),
                             (ToRoom roomCode, RoomUpdate r3)]))"

section \<open>The game actions as one step function\<close>

datatype room_action =
    ActBid player_id int
  | ActPack player_id
  | ActReset player_id
  | ActDeclare player_id player_id
  | ActRemove player_id player_id
  | ActChangeTurn player_id player_id

fun game_step :: "room_code \<Rightarrow> room_action \<Rightarrow> room \<Rightarrow> err + room \<times> outbox" where
  "game_step c (ActBid p a) r = placeBid c p a r"
| "game_step c (ActPack p) r = packCards c p r"
| "game_step c (ActReset p) r = resetPool c p r"
| "game_step c (ActDeclare p w) r = declareWinner c p w r"
| "game_step c (ActRemove p t) r = removePlayer c p t r"
| "game_step c (ActChangeTurn p t) r = changeTurn c p t r"

section \<open>Reference: the settlement of a round\<close>

text \<open>
  The specification's settlement (spec section 4.2): the pool is credited to the winner
  at index \<open>w\<close>, the pool and the bid count are reset, the round advances, every player is
  unpacked and the winner has the turn. The log is not part of it.
\<close>

definition settle :: "nat \<Rightarrow> room \<Rightarrow> room" where
  "settle w r =
     r\<lparr>players := map (\<lambda>p. p\<lparr>packed := False\<rparr>)
                     ((players r)[w := (players r ! w)\<lparr>balance := balance (players r ! w) + pool r\<rparr>]),
       pool := 0, roundNo := roundNo r + 1, totalBids := 0, currentTurn := w\<rparr>"

section \<open>Successful runs of the operations\<close>

text \<open>What each operation checked and what it computed, when it returns \<open>Inr\<close>.\<close>

lemma placeBid_InrD:
  assumes "placeBid c p a r = Inr (r', outs)"
  shows "\<exists>i. find_idx (\<lambda>q. pid q = p) (players r) = Some i \<and> currentTurn r < length (players r) \<and>
     pid (players r ! currentTurn r) = p \<and> 0 < a \<and> a \<le> balance (players r ! i) \<and>
     r' = moveToNextActivePlayer
            (addToGameLog
              (r\<lparr>players := (players r)[i := (players r ! i)\<lparr>balance := balance (players r ! i) - a\<rparr>],
                 pool := pool r + a, totalBids := Suc (totalBids r)\<rparr>)
              (LogBid (name (players r ! i)) a)) \<and>
     outs = [(ToRoom c, BidPlaced (name (players r ! i)) a r'), (ToRoom c, RoomUpdate r')]"
  using assms by (auto simp: placeBid_def Let_def split: option.splits if_splits)

lemma packCards_InrD:
  assumes "packCards c p r = Inr (r', outs)"
  shows "\<exists>i r2 r3. find_idx (\<lambda>q. pid q = p) (players r) = Some i \<and> \<not> packed (players r ! i) \<and>
     currentTurn r = i \<and>
     r2 = moveToNextActivePlayer
            (addToGameLog (r\<lparr>players := (players r)[i := (players r ! i)\<lparr>packed := True\<rparr>]\<rparr>)
              (LogPacked (name (players r ! i)))) \<and>
     r3 = (if length (filter (\<lambda>q. \<not> packed q) (players r2)) = 1
           then (case find_idx (\<lambda>q. \<not> packed q) (players r2) of
                   Some w \<Rightarrow> autoSettle w r2
                 | None \<Rightarrow> r2)
           else r2) \<and>
     r' = ensureActiveTurn r3"
  using assms by (auto simp: packCards_def Let_def split: option.splits if_splits prod.splits)

lemma resetPool_InrD:
  assumes "resetPool c p r = Inr (r', outs)"
  shows "\<exists>host. List.find (\<lambda>q. pid q = p) (players r) = Some host \<and> isCreator host \<and>
     r' = addToGameLog
            (r\<lparr>pool := 0, roundNo := 1, totalBids := 0, currentTurn := 0,
               players := map (\<lambda>q. q\<lparr>balance := startingBalance r, packed := False\<rparr>) (players r)\<rparr>)
            (LogReset (name host) 1 (startingBalance r)) \<and>
     outs = [(ToRoom c, PoolReset (pool r) r'), (ToRoom c, RoomUpdate r')]"
  using assms by (auto simp: resetPool_def Let_def split: option.splits if_splits)

lemma declareWinner_InrD:
  assumes "declareWinner c p wid r = Inr (r', outs)"
  shows "\<exists>host w. List.find (\<lambda>q. pid q = p) (players r) = Some host \<and> isCreator host \<and>
     find_idx (\<lambda>q. pid q = wid) (players r) = Some w \<and> 0 < pool r \<and>
     r' = (settle w r)\<lparr>gameLog := slice_last 50
              (gameLog r @ [LogWon (name (players r ! w)) (pool r) (name host)])\<rparr> \<and>
     outs = [(ToRoom c, WinnerDeclared (Some wid) (name (players r ! w)) (pool r) (name host) r'),
             (ToRoom c, RoomUpdate r')]"
proof -
  from assms obtain host w where
    h: "List.find (\<lambda>q. pid q = p) (players r) = Some host" "isCreator host" and
    w: "find_idx (\<lambda>q. pid q = wid) (players r) = Some w" and pl: "0 < pool r"
    by (auto simp: declareWinner_def split: option.splits if_splits)
  let ?x = "(players r ! w)\<lparr>balance := balance (players r ! w) + pool r\<rparr>"
  have wl: "w < length (players r)" and wp: "pid (players r ! w) = wid"
    using w by (simp_all add: find_idx_Some_iff)
  have "find_idx (\<lambda>q. pid q = pid (players r ! w)) ((players r)[w := ?x]) = Some w"
    using w wp by (simp add: find_idx_update_same)
  then have fi: "findIndex (\<lambda>q. pid q = pid (players r ! w)) ((players r)[w := ?x]) = int w"
    by (rule findIndex_Some)
  show ?thesis
    using assms h w pl fi wp
    by (auto simp: declareWinner_def settle_def addToGameLog_eq Let_def)
qed

lemma autoSettle_eq:
  assumes "w < length (players r)" and "\<forall>j<w. pid (players r ! j) \<noteq> pid (players r ! w)"
  shows "autoSettle w r =
    (settle w r)\<lparr>gameLog := slice_last 50
        (gameLog r @ [LogAutoWon (name (players r ! w)) (pool r)])\<rparr>"
proof -
  let ?x = "(players r ! w)\<lparr>balance := balance (players r ! w) + pool r\<rparr>"
  have "find_idx (\<lambda>q. pid q = pid (players r ! w)) (players r) = Some w"
    using assms by (auto simp: find_idx_Some_iff)
  then have "find_idx (\<lambda>q. pid q = pid (players r ! w)) ((players r)[w := ?x]) = Some w"
    by (simp add: find_idx_update_same)
  then have "findIndex (\<lambda>q. pid q = pid (players r ! w)) ((players r)[w := ?x]) = int w"
    by (rule findIndex_Some)
  then show ?thesis
    by (simp add: autoSettle_def settle_def addToGameLog_eq Let_def)
qed

lemma removePlayer_InrD:
  assumes "removePlayer c p t r = Inr (r', outs)"
  shows "\<exists>host target i r1. List.find (\<lambda>q. pid q = p) (players r) = Some host \<and> isCreator host \<and>
     List.find (\<lambda>q. pid q = t) (players r) = Some target \<and> \<not> isCreator target \<and>
     find_idx (\<lambda>q. pid q = t) (players r) = Some i \<and>
     r1 = addToGameLog (r\<lparr>players := splice1 i (players r)\<rparr>)
            (LogRemoved (name (players r ! i)) (name host)) \<and>
     r' = (if length (players r1) \<le> currentTurn r1 then r1\<lparr>currentTurn := 0\<rparr>
           else if i < currentTurn r1 then r1\<lparr>currentTurn := currentTurn r1 - 1\<rparr>
           else r1) \<and>
     outs = (if socketId (players r ! i) \<noteq> []
             then [(ToSocket (socketId (players r ! i)), PlayerRemoved (name host))]
             else []) @
            [(ToRoom c, PlayerLeft (name (players r ! i)) (Some (name host)) r'),
             (ToRoom c, RoomUpdate r')]"
  using assms
  by (auto simp: removePlayer_def Let_def find_conv_find_idx split: option.splits if_splits)

lemma changeTurn_InrD:
  assumes "changeTurn c p t r = Inr (r', outs)"
  shows "\<exists>host i. List.find (\<lambda>q. pid q = p) (players r) = Some host \<and> isCreator host \<and>
     find_idx (\<lambda>q. pid q = t) (players r) = Some i \<and> \<not> packed (players r ! i) \<and>
     r' = addToGameLog (r\<lparr>currentTurn := i\<rparr>) (LogTurnChanged (name (players r ! i)) (name host)) \<and>
     outs = [(ToRoom c, TurnChanged (name (players r ! i)) (name host) r'), (ToRoom c, RoomUpdate r')]"
  using assms by (auto simp: changeTurn_def Let_def split: option.splits if_splits)

lemma joinRoom_InrD:
  assumes "joinRoom c s newId n r = Inr (r', outs)"
  shows "\<not> list_ex (\<lambda>q. toLowerCase (name q) = toLowerCase n) (players r) \<and>
     r' = ensureActiveTurn
            (addToGameLog
              (r\<lparr>players := players r @ [\<lparr>pid = newId, socketId = s, name = n,
                  balance = startingBalance r, isCreator = False, packed = False\<rparr>]\<rparr>)
              (LogJoined n))"
  using assms by (auto simp: joinRoom_def Let_def split: if_splits)

end
