(* ===== verification/Invariants.thy ===== *)
theory Invariants
  imports Actions
begin

text \<open>
  The room invariants of theory \<open>Room\<close> against the operations of theory \<open>Actions\<close>:
  the building blocks of the operations (updating one player, unpacking everybody,
  moving the turn, logging, the scheduler) keep \<open>wf_room\<close>, hence every successful
  operation does; \<open>turn_ok\<close> is kept by every operation but the two removals; and the
  money in a room (\<open>total_money\<close>) is moved, never created, by bids and settlements.
  The building blocks are collected in \<open>wf_room_intros\<close> and used by the
  registry invariant of theory \<open>Server\<close>.
\<close>

named_theorems wf_room_intros "the building blocks of the room operations keep wf_room"

text \<open>
  The common shape of \<open>leaveRoom\<close> and \<open>timeoutRemove\<close> once the leaving player's
  index \<open>i\<close> is known; \<open>m\<close> is the log message. \<open>None\<close>: the room is deleted.
\<close>

definition depart :: "log_msg \<Rightarrow> nat \<Rightarrow> room \<Rightarrow> room option" where
  "depart m i r =
     (let r1 = addToGameLog (r\<lparr>players := splice1 i (players r)\<rparr>) m;
          r2 = (if isCreator (players r ! i) \<and> players r1 \<noteq> []
                then r1\<lparr>players := (players r1)[0 := (players r1 ! 0)\<lparr>isCreator := True\<rparr>],
                        creator := name (players r1 ! 0)\<rparr>
                else r1)
      in if players r2 = [] then None
         else Some (if length (players r2) \<le> currentTurn r2 then r2\<lparr>currentTurn := 0\<rparr> else r2))"

section \<open>Building blocks\<close>

lemma wf_room_update_player [wf_room_intros]:
  assumes "wf_room r" and "i < length (players r)"
    and "pid x = pid (players r ! i)" and "name x = name (players r ! i)"
    and "isCreator x = isCreator (players r ! i)"
    and "min 0 (startingBalance r) \<le> balance x"
  shows "wf_room (r\<lparr>players := (players r)[i := x]\<rparr>)"
  using assms
  by (simp add: wf_room_def map_update_same filter_length_update_same list_all_update)

lemma wf_room_unpack_all [wf_room_intros]:
  "wf_room r \<Longrightarrow> wf_room (r\<lparr>players := map (\<lambda>p. p\<lparr>packed := False\<rparr>) (players r)\<rparr>)"
  by (simp add: wf_room_def comp_def filter_map list_all_iff)

lemma wf_room_turn [wf_room_intros]:
  "wf_room r \<Longrightarrow> c < length (players r) \<Longrightarrow> wf_room (r\<lparr>currentTurn := c\<rparr>)"
  by (simp add: wf_room_def)

lemma wf_room_pool [wf_room_intros]:
  "wf_room r \<Longrightarrow> 0 \<le> v \<Longrightarrow> wf_room (r\<lparr>pool := v\<rparr>)"
  by (simp add: wf_room_def)

lemma wf_room_round [wf_room_intros]:
  "wf_room r \<Longrightarrow> 1 \<le> v \<Longrightarrow> wf_room (r\<lparr>roundNo := v\<rparr>)"
  by (simp add: wf_room_def)

lemma wf_room_totalBids [wf_room_intros]:
  "wf_room r \<Longrightarrow> wf_room (r\<lparr>totalBids := v\<rparr>)"
  by (simp add: wf_room_def)

lemma wf_room_log [wf_room_intros]:
  "wf_room r \<Longrightarrow> wf_room (addToGameLog r m)"
  by (simp add: wf_room_def addToGameLog_eq)

lemma wf_room_moveToNext [wf_room_intros]:
  "wf_room r \<Longrightarrow> wf_room (moveToNextActivePlayer r)"
proof -
  assume wf: "wf_room r"
  then have "players r \<noteq> []" by (simp add: wf_room_def)
  then have "currentTurn (moveToNextActivePlayer r) < length (players r)"
    by (rule moveToNext_turn_bound)
  with wf show ?thesis
    by (subst moveToNextActivePlayer_frame) (rule wf_room_turn)
qed

lemma wf_room_ensureActiveTurn [wf_room_intros]:
  "wf_room r \<Longrightarrow> wf_room (ensureActiveTurn r)"
proof -
  assume wf: "wf_room r"
  then have "currentTurn (ensureActiveTurn r) < length (players r)"
    by (intro ensureActiveTurn_turn_bound) (simp add: wf_room_def)
  with wf show ?thesis
    by (subst ensureActiveTurn_frame) (rule wf_room_turn)
qed

lemma wf_room_credit:
  assumes wf: "wf_room r" and w: "w < length (players r)" and v: "0 \<le> v"
  shows "wf_room (r\<lparr>players := (players r)[w := (players r ! w)\<lparr>balance := balance (players r ! w) + v\<rparr>]\<rparr>)"
proof -
  have "min 0 (startingBalance r) \<le> balance (players r ! w)"
    using wf w by (auto simp: wf_room_def list_all_iff)
  with v have "min 0 (startingBalance r) \<le> balance (players r ! w) + v" by linarith
  with wf w show ?thesis by (intro wf_room_update_player) simp_all
qed

lemma wf_room_settle [wf_room_intros]:
  assumes wf: "wf_room r" and w: "w < length (players r)"
  shows "wf_room (settle w r)"
proof -
  let ?r1 = "r\<lparr>players := (players r)[w := (players r ! w)\<lparr>balance := balance (players r ! w) + pool r\<rparr>]\<rparr>"
  have "wf_room ?r1" using wf w by (intro wf_room_credit) (simp_all add: wf_room_def)
  then have "wf_room (?r1\<lparr>players := map (\<lambda>p. p\<lparr>packed := False\<rparr>) (players ?r1)\<rparr>)"
    by (rule wf_room_unpack_all)
  then show ?thesis using w by (simp add: settle_def wf_room_def)
qed

lemma wf_room_autoSettle [wf_room_intros]:
  assumes wf: "wf_room r" and w: "w < length (players r)"
  shows "wf_room (autoSettle w r)"
proof -
  let ?x = "(players r ! w)\<lparr>balance := balance (players r ! w) + pool r\<rparr>"
  let ?fi = "findIndex (\<lambda>q. pid q = pid (players r ! w)) ((players r)[w := ?x])"
  have "0 \<le> ?fi \<Longrightarrow> nat ?fi < length (players r)"
    using findIndex_bound [of "\<lambda>q. pid q = pid (players r ! w)" "(players r)[w := ?x]"] by simp
  moreover have "wf_room (r\<lparr>players := (players r)[w := ?x]\<rparr>)"
    using wf w by (intro wf_room_credit) (simp_all add: wf_room_def)
  ultimately show ?thesis
    unfolding autoSettle_def Let_def
    by (simp add: wf_room_def addToGameLog_eq comp_def filter_map list_all_iff)
qed

section \<open>Every operation keeps the room invariant\<close>

lemma placeBid_wf:
  assumes "placeBid c p a r = Inr (r', outs)" and wf: "wf_room r"
  shows "wf_room r'"
proof -
  from placeBid_InrD [OF assms(1)] obtain i where
    i: "find_idx (\<lambda>q. pid q = p) (players r) = Some i"
    and a: "0 < a" "a \<le> balance (players r ! i)"
    and r': "r' = moveToNextActivePlayer (addToGameLog
        (r\<lparr>players := (players r)[i := (players r ! i)\<lparr>balance := balance (players r ! i) - a\<rparr>],
           pool := pool r + a, totalBids := Suc (totalBids r)\<rparr>) (LogBid (name (players r ! i)) a))"
    by blast
  from i have il: "i < length (players r)" by (simp add: find_idx_Some_iff)
  from wf have "0 \<le> pool r" by (simp add: wf_room_def)
  show ?thesis unfolding r'
    using wf il a \<open>0 \<le> pool r\<close> by (intro wf_room_intros) simp_all
qed

lemma packCards_wf:
  assumes "packCards c p r = Inr (r', outs)" and wf: "wf_room r"
  shows "wf_room r'"
proof -
  from packCards_InrD [OF assms(1)] obtain i r2 r3 where
    i: "find_idx (\<lambda>q. pid q = p) (players r) = Some i"
    and r2: "r2 = moveToNextActivePlayer (addToGameLog
        (r\<lparr>players := (players r)[i := (players r ! i)\<lparr>packed := True\<rparr>]\<rparr>) (LogPacked (name (players r ! i))))"
    and r3: "r3 = (if length (filter (\<lambda>q. \<not> packed q) (players r2)) = 1
           then (case find_idx (\<lambda>q. \<not> packed q) (players r2) of
                   Some w \<Rightarrow> autoSettle w r2 | None \<Rightarrow> r2)
           else r2)"
    and r': "r' = ensureActiveTurn r3"
    by blast
  from i have il: "i < length (players r)" by (simp add: find_idx_Some_iff)
  have "min 0 (startingBalance r) \<le> balance (players r ! i)"
    using wf il by (auto simp: wf_room_def list_all_iff)
  then have w2: "wf_room r2" unfolding r2
    using wf il by (intro wf_room_intros) simp_all
  have "wf_room r3"
    using w2 unfolding r3
    by (auto intro: wf_room_autoSettle dest: find_idx_SomeD split: option.split)
  then show ?thesis unfolding r' by (rule wf_room_ensureActiveTurn)
qed

lemma resetPool_wf:
  assumes "resetPool c p r = Inr (r', outs)" and wf: "wf_room r"
  shows "wf_room r'"
proof -
  from resetPool_InrD [OF assms(1)] obtain host :: player where
    r': "r' = addToGameLog
            (r\<lparr>pool := 0, roundNo := 1, totalBids := 0, currentTurn := 0,
               players := map (\<lambda>q. q\<lparr>balance := startingBalance r, packed := False\<rparr>) (players r)\<rparr>)
            (LogReset (name host) 1 (startingBalance r))"
    by blast
  show ?thesis
    using wf unfolding r'
    by (simp add: wf_room_def addToGameLog_eq comp_def filter_map list_all_iff)
qed

lemma declareWinner_wf:
  assumes "declareWinner c p wid r = Inr (r', outs)" and wf: "wf_room r"
  shows "wf_room r'"
proof -
  from declareWinner_InrD [OF assms(1)] obtain host :: player and w where
    w: "find_idx (\<lambda>q. pid q = wid) (players r) = Some w"
    and r': "r' = (settle w r)\<lparr>gameLog := slice_last 50
              (gameLog r @ [LogWon (name (players r ! w)) (pool r) (name host)])\<rparr>"
    by blast
  from w have "w < length (players r)" by (simp add: find_idx_Some_iff)
  with wf have "wf_room (settle w r)" by (rule wf_room_settle)
  then show ?thesis unfolding r' by (simp add: wf_room_def)
qed

lemma changeTurn_wf:
  assumes "changeTurn c p t r = Inr (r', outs)" and wf: "wf_room r"
  shows "wf_room r'"
proof -
  from changeTurn_InrD [OF assms(1)] obtain host :: player and i where
    i: "find_idx (\<lambda>q. pid q = t) (players r) = Some i"
    and r': "r' = addToGameLog (r\<lparr>currentTurn := i\<rparr>) (LogTurnChanged (name (players r ! i)) (name host))"
    by blast
  from i have "i < length (players r)" by (simp add: find_idx_Some_iff)
  then show ?thesis unfolding r' using wf by (intro wf_room_intros)
qed

section \<open>Removals\<close>

lemma splice1_facts:
  assumes wf: "wf_room r" and i: "i < length (players r)"
  shows "distinct (map pid (splice1 i (players r)))"
    and "distinct (map (\<lambda>p. toLowerCase (name p)) (splice1 i (players r)))"
    and "list_all (\<lambda>p. min 0 (startingBalance r) \<le> balance p) (splice1 i (players r))"
    and "length (filter isCreator (splice1 i (players r))) =
           (if isCreator (players r ! i) then 0 else 1)"
proof -
  from wf have d: "distinct (map pid (players r))"
    and dn: "distinct (map (\<lambda>p. toLowerCase (name p)) (players r))"
    and b: "list_all (\<lambda>p. min 0 (startingBalance r) \<le> balance p) (players r)"
    and c: "length (filter isCreator (players r)) = 1"
    by (simp_all add: wf_room_def)
  show "distinct (map pid (splice1 i (players r)))"
    using d by (simp add: map_splice1 distinct_splice1)
  show "distinct (map (\<lambda>p. toLowerCase (name p)) (splice1 i (players r)))"
    using dn by (simp add: map_splice1 distinct_splice1)
  show "list_all (\<lambda>p. min 0 (startingBalance r) \<le> balance p) (splice1 i (players r))"
    using b by (rule list_all_splice1)
  show "length (filter isCreator (splice1 i (players r))) =
           (if isCreator (players r ! i) then 0 else 1)"
    using filter_length_splice1 [OF i, of isCreator] c by (simp split: if_splits)
qed

lemma removePlayer_wf:
  assumes "removePlayer c p t r = Inr (r', outs)" and wf: "wf_room r"
  shows "wf_room r'"
proof -
  from removePlayer_InrD [OF assms(1)] obtain host :: player and target :: player and i r1 where
    tg: "List.find (\<lambda>q. pid q = t) (players r) = Some target" "\<not> isCreator target"
    and i: "find_idx (\<lambda>q. pid q = t) (players r) = Some i"
    and r1: "r1 = addToGameLog (r\<lparr>players := splice1 i (players r)\<rparr>)
            (LogRemoved (name (players r ! i)) (name host))"
    and r': "r' = (if length (players r1) \<le> currentTurn r1 then r1\<lparr>currentTurn := 0\<rparr>
           else if i < currentTurn r1 then r1\<lparr>currentTurn := currentTurn r1 - 1\<rparr>
           else r1)"
    by blast
  from i have il: "i < length (players r)" by (simp add: find_idx_Some_iff)
  from tg i have nc: "\<not> isCreator (players r ! i)" by (simp add: find_conv_find_idx)
  note f = splice1_facts [OF wf il]
  have ne: "splice1 i (players r) \<noteq> []"
    using f(4) nc by auto
  have "length (gameLog r') \<le> 50" unfolding r' r1 by (simp add: addToGameLog_eq)
  moreover have "currentTurn r' < length (players r')"
    unfolding r' r1 using ne by (auto simp: addToGameLog_eq)
  ultimately show ?thesis
    using wf f nc ne unfolding r' r1 by (auto simp: wf_room_def addToGameLog_eq)
qed

lemma depart_wf:
  assumes wf: "wf_room r" and i: "i < length (players r)" and d: "depart m i r = Some r'"
  shows "wf_room r'"
proof -
  let ?xs = "splice1 i (players r)"
  note f = splice1_facts [OF wf i]
  have log: "length (gameLog r') \<le> 50"
    using d by (auto simp: depart_def Let_def addToGameLog_eq split: if_splits)
  show ?thesis
  proof (cases "isCreator (players r ! i)")
    case True
    have ne: "?xs \<noteq> []" using d True by (auto simp: depart_def Let_def addToGameLog_eq)
    let ?ys = "?xs[0 := (?xs ! 0)\<lparr>isCreator := True\<rparr>]"
    have r': "r' = (if length ?ys \<le> currentTurn r
                    then (addToGameLog (r\<lparr>players := ?xs\<rparr>) m)\<lparr>players := ?ys, creator := name (?xs ! 0), currentTurn := 0\<rparr>
                    else (addToGameLog (r\<lparr>players := ?xs\<rparr>) m)\<lparr>players := ?ys, creator := name (?xs ! 0)\<rparr>)"
      using d True ne by (auto simp: depart_def Let_def addToGameLog_eq)
    have "length (filter isCreator ?ys) = 1"
      using f(4) True ne by (intro filter_length_update_true) (auto simp: filter_empty_conv)
    moreover have "distinct (map pid ?ys)" using f(1) by (simp add: map_update_same)
    moreover have "distinct (map (\<lambda>p. toLowerCase (name p)) ?ys)"
      using f(2) by (simp add: map_update_same)
    moreover have "list_all (\<lambda>p. min 0 (startingBalance r) \<le> balance p) ?ys"
      using f(3) ne by (intro list_all_update) (auto simp: list_all_iff)
    ultimately show ?thesis
      using wf ne log unfolding r' by (auto simp: wf_room_def addToGameLog_eq)
  next
    case False
    have ne: "?xs \<noteq> []" using f(4) False by auto
    have r': "r' = (if length ?xs \<le> currentTurn r
                    then (addToGameLog (r\<lparr>players := ?xs\<rparr>) m)\<lparr>currentTurn := 0\<rparr>
                    else addToGameLog (r\<lparr>players := ?xs\<rparr>) m)"
      using d False ne by (auto simp: depart_def Let_def addToGameLog_eq)
    show ?thesis
      using wf f False ne log unfolding r' by (auto simp: wf_room_def addToGameLog_eq)
  qed
qed

lemma leaveRoom_depart:
  "find_idx (\<lambda>q. pid q = p) (players r) = Some i \<Longrightarrow>
   fst (leaveRoom c p r) = depart (LogLeft (name (players r ! i))) i r"
  by (simp add: leaveRoom_def depart_def Let_def)

lemma timeoutRemove_depart:
  "find_idx (\<lambda>q. pid q = p) (players r) = Some i \<Longrightarrow>
   fst (timeoutRemove c p r) = depart (LogLeftTimeout (name (players r ! i))) i r"
  by (simp add: timeoutRemove_def depart_def Let_def)

lemma leaveRoom_wf:
  assumes "fst (leaveRoom c p r) = Some r'" and wf: "wf_room r"
  shows "wf_room r'"
proof (cases "find_idx (\<lambda>q. pid q = p) (players r)")
  case None
  then show ?thesis using assms by (simp add: leaveRoom_def del: find_idx_None_iff)
next
  case (Some i)
  then have "i < length (players r)" by (simp add: find_idx_Some_iff)
  moreover have "depart (LogLeft (name (players r ! i))) i r = Some r'"
    using assms(1) leaveRoom_depart [OF Some, of c] by simp
  ultimately show ?thesis by (rule depart_wf [OF wf])
qed

lemma timeoutRemove_wf:
  assumes "fst (timeoutRemove c p r) = Some r'" and wf: "wf_room r"
  shows "wf_room r'"
proof (cases "find_idx (\<lambda>q. pid q = p) (players r)")
  case None
  then show ?thesis using assms by (simp add: timeoutRemove_def del: find_idx_None_iff)
next
  case (Some i)
  then have "i < length (players r)" by (simp add: find_idx_Some_iff)
  moreover have "depart (LogLeftTimeout (name (players r ! i))) i r = Some r'"
    using assms(1) timeoutRemove_depart [OF Some, of c] by simp
  ultimately show ?thesis by (rule depart_wf [OF wf])
qed

section \<open>Joining and rejoining\<close>

lemma joinRoom_wf:
  assumes "joinRoom c s newId n r = Inr (r', outs)" and wf: "wf_room r"
    and fresh: "newId \<notin> pid ` set (players r)"
  shows "wf_room r'"
proof -
  let ?np = "\<lparr>pid = newId, socketId = s, name = n, balance = startingBalance r,
             isCreator = False, packed = False\<rparr>"
  from joinRoom_InrD [OF assms(1)] have
    dup: "\<not> list_ex (\<lambda>q. toLowerCase (name q) = toLowerCase n) (players r)" and
    r': "r' = ensureActiveTurn (addToGameLog (r\<lparr>players := players r @ [?np]\<rparr>) (LogJoined n))"
    by blast+
  have "wf_room (r\<lparr>players := players r @ [?np]\<rparr>)"
    using wf dup fresh by (auto simp: wf_room_def list_ex_iff)
  then show ?thesis unfolding r' by (intro wf_room_intros)
qed

lemma rejoinRoom_wf:
  assumes "fst (rejoinRoom c s p n r) = Some r'" and wf: "wf_room r"
  shows "wf_room r'"
proof -
  obtain i where i: "find_idx (\<lambda>q. pid q = p) (players r) = Some i"
    and r': "r' = addToGameLog (r\<lparr>players := (players r)[i := (players r ! i)\<lparr>socketId := s\<rparr>]\<rparr>)
                 (LogReconnected n)"
    using assms(1) by (auto simp: rejoinRoom_def Let_def split: option.splits)
  from i have "i < length (players r)" by (simp add: find_idx_Some_iff)
  moreover have "min 0 (startingBalance r) \<le> balance (players r ! i)"
    using wf calculation by (auto simp: wf_room_def list_all_iff)
  ultimately show ?thesis unfolding r' using wf by (intro wf_room_intros) simp_all
qed

section \<open>The turn invariant\<close>

lemma turn_ok_ensureActiveTurn:
  "currentTurn r < length (players r) \<Longrightarrow> turn_ok (ensureActiveTurn r)"
  using ensureActiveTurn_turn_active by (simp add: turn_ok_def)

lemma turn_ok_moveToNext:
  "players r \<noteq> [] \<Longrightarrow> turn_ok (moveToNextActivePlayer r)"
  using moveToNext_turn_active by (simp add: turn_ok_def)

lemma turn_ok_all_unpacked:
  "list_all (\<lambda>p. \<not> packed p) (players r) \<Longrightarrow> currentTurn r < length (players r) \<Longrightarrow> turn_ok r"
  by (simp add: turn_ok_def list_all_length)

lemma packCards_shape:
  assumes "packCards c p r = Inr (r', outs)" and wf: "wf_room r"
  shows "\<exists>r3. wf_room r3 \<and> r' = ensureActiveTurn r3"
proof -
  from packCards_InrD [OF assms(1)] obtain i r2 r3 where
    i: "find_idx (\<lambda>q. pid q = p) (players r) = Some i"
    and r2: "r2 = moveToNextActivePlayer (addToGameLog
        (r\<lparr>players := (players r)[i := (players r ! i)\<lparr>packed := True\<rparr>]\<rparr>) (LogPacked (name (players r ! i))))"
    and r3: "r3 = (if length (filter (\<lambda>q. \<not> packed q) (players r2)) = 1
           then (case find_idx (\<lambda>q. \<not> packed q) (players r2) of
                   Some w \<Rightarrow> autoSettle w r2 | None \<Rightarrow> r2)
           else r2)"
    and r': "r' = ensureActiveTurn r3"
    by blast
  from i have il: "i < length (players r)" by (simp add: find_idx_Some_iff)
  have "min 0 (startingBalance r) \<le> balance (players r ! i)"
    using wf il by (auto simp: wf_room_def list_all_iff)
  then have w2: "wf_room r2" unfolding r2
    using wf il by (intro wf_room_intros) simp_all
  have "wf_room r3"
    using w2 unfolding r3
    by (auto intro: wf_room_autoSettle dest: find_idx_SomeD split: option.split)
  with r' show ?thesis by blast
qed

section \<open>Money\<close>

lemma total_money_settle:
  "w < length (players r) \<Longrightarrow> total_money (settle w r) = total_money r"
  by (simp add: total_money_def settle_def comp_def sum_list_map_update)

lemma total_money_autoSettle:
  assumes "w < length (players r)"
  shows "total_money (autoSettle w r) = total_money r"
proof -
  let ?x = "(players r ! w)\<lparr>balance := balance (players r ! w) + pool r\<rparr>"
  have "sum_list (map balance ((players r)[w := ?x])) = sum_list (map balance (players r)) + pool r"
    using assms by (simp add: sum_list_map_update)
  then show ?thesis
    by (simp add: autoSettle_def total_money_def addToGameLog_eq Let_def comp_def)
qed

end
