(* ===== verification/Behaviour.thy ===== *)
theory Behaviour
  imports Invariants
begin

text \<open>
  The functional behaviour of the room operations of theory \<open>Actions\<close> on every
  branch, for rooms that satisfy \<open>wf_room\<close>: which error each guard of a handler
  reports, in the code's order, and what a successful run computes, stated against the
  specification's terms (the turn scheduler's reference \<open>next_active\<close>, the settlement
  \<open>settle\<close>).
\<close>

section \<open>Lookups in a well-formed room\<close>

lemma wf_find_idx_pid:
  "wf_room r \<Longrightarrow> i < length (players r) \<Longrightarrow>
   find_idx (\<lambda>q. pid q = pid (players r ! i)) (players r) = Some i"
  by (rule find_idx_distinct_key) (simp_all add: wf_room_def)

lemma wf_find_idx_turn:
  "wf_room r \<Longrightarrow> find_idx (\<lambda>q. pid q = pid (players r ! currentTurn r)) (players r) = Some (currentTurn r)"
  by (rule wf_find_idx_pid) (simp_all add: wf_room_def)

lemma find_idx_pid_None:
  "p \<notin> pid ` set ps \<Longrightarrow> find_idx (\<lambda>q. pid q = p) ps = None"
  by (auto simp: list_ex_iff)

lemma find_idx_pid_Some:
  "p \<in> pid ` set ps \<Longrightarrow> \<exists>i. find_idx (\<lambda>q. pid q = p) ps = Some i \<and> i < length ps \<and> pid (ps ! i) = p"
  by (cases "find_idx (\<lambda>q. pid q = p) ps") (auto simp: list_ex_iff find_idx_Some_iff)

lemma ensureActiveTurn_unpacked:
  "\<not> packed (players r ! currentTurn r) \<Longrightarrow> ensureActiveTurn r = r"
  by (simp add: ensureActiveTurn_def)

lemma settle_pack_other:
  assumes "w \<noteq> i"
  shows "settle w (r\<lparr>players := (players r)[i := (players r ! i)\<lparr>packed := b\<rparr>],
                     currentTurn := x, gameLog := l\<rparr>) = (settle w r)\<lparr>gameLog := l\<rparr>"
proof -
  let ?u = "\<lambda>p::player. p\<lparr>packed := False\<rparr>"
  let ?cr = "(players r ! w)\<lparr>balance := balance (players r ! w) + pool r\<rparr>"
  have "map ?u ((players r)[i := (players r ! i)\<lparr>packed := b\<rparr>, w := ?cr]) = map ?u ((players r)[w := ?cr])"
    using assms by (simp add: list_update_swap [of i w] map_update_same nth_list_update)
  with assms show ?thesis by (simp add: settle_def nth_list_update)
qed

section \<open>Bidding\<close>

text \<open>
  C6: a bid by the player who has the turn, of a positive amount within that player's
  balance, succeeds: the amount moves from the bidder's balance to the pool, the bid is
  counted, the turn moves to the next unpacked player (the reference \<open>next_active\<close>),
  and the room receives \<open>bidPlaced\<close> and \<open>roomUpdate\<close> with the new room.
\<close>

theorem placeBid_success:
  assumes wf: "wf_room r" and turn: "pid (players r ! currentTurn r) = p"
    and amt: "0 < a" "a \<le> balance (players r ! currentTurn r)"
  shows "\<exists>r' outs. placeBid c p a r = Inr (r', outs) \<and>
     players r' = (players r)[currentTurn r := (players r ! currentTurn r)\<lparr>balance := balance (players r ! currentTurn r) - a\<rparr>] \<and>
     pool r' = pool r + a \<and> totalBids r' = Suc (totalBids r) \<and>
     currentTurn r' = (case next_active (players r) (currentTurn r) of
                         Some j \<Rightarrow> j | None \<Rightarrow> Suc (currentTurn r) mod length (players r)) \<and>
     outs = [(ToRoom c, BidPlaced (name (players r ! currentTurn r)) a r'), (ToRoom c, RoomUpdate r')]"
proof -
  let ?ct = "currentTurn r"
  let ?ps' = "(players r)[?ct := (players r ! ?ct)\<lparr>balance := balance (players r ! ?ct) - a\<rparr>]"
  let ?r1 = "addToGameLog (r\<lparr>players := ?ps', pool := pool r + a, totalBids := Suc (totalBids r)\<rparr>)
               (LogBid (name (players r ! ?ct)) a)"
  have ct: "?ct < length (players r)" and ne: "players r \<noteq> []" using wf by (simp_all add: wf_room_def)
  have i: "find_idx (\<lambda>q. pid q = p) (players r) = Some ?ct"
    using wf_find_idx_turn [OF wf] turn by simp
  have run: "placeBid c p a r = Inr (moveToNextActivePlayer ?r1,
      [(ToRoom c, BidPlaced (name (players r ! ?ct)) a (moveToNextActivePlayer ?r1)),
       (ToRoom c, RoomUpdate (moveToNextActivePlayer ?r1))])"
    using i ct turn amt by (simp add: placeBid_def Let_def)
  have "currentTurn (moveToNextActivePlayer ?r1) =
      (case next_active ?ps' ?ct of Some j \<Rightarrow> j | None \<Rightarrow> Suc ?ct mod length (players r))"
    using ne by (subst moveToNext_currentTurn) (simp_all add: addToGameLog_eq split: option.split)
  also have "next_active ?ps' ?ct = next_active (players r) ?ct"
    by (rule next_active_update_same) simp
  finally have "currentTurn (moveToNextActivePlayer ?r1) =
      (case next_active (players r) ?ct of Some j \<Rightarrow> j | None \<Rightarrow> Suc ?ct mod length (players r))" .
  with run show ?thesis by (simp add: addToGameLog_eq)
qed

theorem placeBid_success_witness:
  "wf_room (mkroom [mkp ''A'' True False 1000, mkp ''B'' False False 1000] 0 0) \<and>
   (\<exists>r' outs. placeBid ''4321'' ''id_A'' 100 (mkroom [mkp ''A'' True False 1000, mkp ''B'' False False 1000] 0 0) =
      Inr (r', outs) \<and> map balance (players r') = [900, 1000] \<and> pool r' = 100 \<and> currentTurn r' = 1)"
proof -
  let ?r = "mkroom [mkp ''A'' True False 1000, mkp ''B'' False False 1000] 0 0"
  have wf: "wf_room ?r" by (simp add: wf_room_def mkroom_def mkp_def js_simps)
  have hyp: "pid (players ?r ! currentTurn ?r) = ''id_A''" "0 < (100::int)"
    "100 \<le> balance (players ?r ! currentTurn ?r)"
    by (simp_all add: mkroom_def mkp_def)
  have na: "next_active (players ?r) (currentTurn ?r) = Some 1"
    by (simp add: mkroom_def mkp_def next_active_def)
  from placeBid_success [OF wf hyp, of "''4321''"] na obtain r' outs where
    "placeBid ''4321'' ''id_A'' 100 ?r = Inr (r', outs)"
    "players r' = (players ?r)[currentTurn ?r := (players ?r ! currentTurn ?r)\<lparr>balance := balance (players ?r ! currentTurn ?r) - 100\<rparr>]"
    "pool r' = pool ?r + 100" "currentTurn r' = 1"
    by auto
  with wf show ?thesis by (auto simp: mkroom_def mkp_def)
qed

text \<open>
  C7: the guards of \<open>placeBid\<close> in a well-formed room, in the code's order: an unknown
  player id is \<open>Player not found\<close>; a known player who does not have the turn gets
  \<open>Not your turn\<close>; a non-positive amount from the turn holder is \<open>Invalid bid
  amount\<close>; an amount above the turn holder's balance is \<open>Insufficient balance\<close>.
  The \<open>TypeError\<close> branch (turn index out of range) is unreachable.
\<close>

theorem placeBid_errors:
  assumes wf: "wf_room r"
  shows "(p \<notin> pid ` set (players r) \<longrightarrow> placeBid c p a r = Inl PlayerNotFound) \<and>
    (p \<in> pid ` set (players r) \<and> pid (players r ! currentTurn r) \<noteq> p \<longrightarrow>
       placeBid c p a r = Inl NotYourTurn) \<and>
    (pid (players r ! currentTurn r) = p \<and> a \<le> 0 \<longrightarrow> placeBid c p a r = Inl InvalidAmount) \<and>
    (pid (players r ! currentTurn r) = p \<and> 0 < a \<and> balance (players r ! currentTurn r) < a \<longrightarrow>
       placeBid c p a r = Inl InsufficientBalance)"
proof (intro conjI impI)
  have ct: "currentTurn r < length (players r)" using wf by (simp add: wf_room_def)
  show "placeBid c p a r = Inl PlayerNotFound" if "p \<notin> pid ` set (players r)"
    unfolding placeBid_def find_idx_pid_None [OF that] by simp
  show "placeBid c p a r = Inl NotYourTurn"
    if "p \<in> pid ` set (players r) \<and> pid (players r ! currentTurn r) \<noteq> p"
    using find_idx_pid_Some [of p "players r"] that ct by (auto simp: placeBid_def)
  show "placeBid c p a r = Inl InvalidAmount" if "pid (players r ! currentTurn r) = p \<and> a \<le> 0"
    using wf_find_idx_turn [OF wf] that ct by (auto simp: placeBid_def)
  show "placeBid c p a r = Inl InsufficientBalance"
    if "pid (players r ! currentTurn r) = p \<and> 0 < a \<and> balance (players r ! currentTurn r) < a"
    using wf_find_idx_turn [OF wf] that ct by (auto simp: placeBid_def)
qed

theorem placeBid_errors_witness:
  "wf_room (mkroom [mkp ''A'' True False 1000, mkp ''B'' False False 1000] 0 0) \<and>
   placeBid ''4321'' ''id_Z'' 5 (mkroom [mkp ''A'' True False 1000, mkp ''B'' False False 1000] 0 0) = Inl PlayerNotFound \<and>
   placeBid ''4321'' ''id_B'' 5 (mkroom [mkp ''A'' True False 1000, mkp ''B'' False False 1000] 0 0) = Inl NotYourTurn \<and>
   placeBid ''4321'' ''id_A'' 0 (mkroom [mkp ''A'' True False 1000, mkp ''B'' False False 1000] 0 0) = Inl InvalidAmount \<and>
   placeBid ''4321'' ''id_A'' 5000 (mkroom [mkp ''A'' True False 1000, mkp ''B'' False False 1000] 0 0) = Inl InsufficientBalance"
proof -
  let ?r = "mkroom [mkp ''A'' True False 1000, mkp ''B'' False False 1000] 0 0"
  have wf: "wf_room ?r" by (simp add: wf_room_def mkroom_def mkp_def js_simps)
  have "placeBid ''4321'' ''id_Z'' 5 ?r = Inl PlayerNotFound"
    using placeBid_errors [OF wf, of "''id_Z''" "''4321''" 5] by (simp add: mkroom_def mkp_def)
  moreover have "placeBid ''4321'' ''id_B'' 5 ?r = Inl NotYourTurn"
    using placeBid_errors [OF wf, of "''id_B''" "''4321''" 5] by (simp add: mkroom_def mkp_def)
  moreover have "placeBid ''4321'' ''id_A'' 0 ?r = Inl InvalidAmount"
    using placeBid_errors [OF wf, of "''id_A''" "''4321''" 0] by (simp add: mkroom_def mkp_def)
  moreover have "placeBid ''4321'' ''id_A'' 5000 ?r = Inl InsufficientBalance"
    using placeBid_errors [OF wf, of "''id_A''" "''4321''" 5000] by (simp add: mkroom_def mkp_def)
  ultimately show ?thesis using wf by blast
qed

section \<open>Packing\<close>

text \<open>When the turn holder packs and two players were unpacked, exactly one other player
  is left unpacked; it is found first by \<open>findIndex\<close>, and its id comes first too.\<close>

lemma pack_survivor:
  assumes wf: "wf_room r" and act: "\<not> packed (players r ! currentTurn r)" and two: "active_count r = 2"
  defines "ps' \<equiv> (players r)[currentTurn r := (players r ! currentTurn r)\<lparr>packed := True\<rparr>]"
  shows "\<exists>w. length (filter (\<lambda>q. \<not> packed q) ps') = 1 \<and> find_idx (\<lambda>q. \<not> packed q) ps' = Some w \<and>
     w < length (players r) \<and> w \<noteq> currentTurn r \<and> \<not> packed (players r ! w) \<and>
     (\<forall>j<w. pid (ps' ! j) \<noteq> pid (ps' ! w))"
proof -
  have ct: "currentTurn r < length (players r)" using wf by (simp add: wf_room_def)
  have one: "length (filter (\<lambda>q. \<not> packed q) ps') = 1"
    using filter_length_update_false [OF ct, of "\<lambda>q. \<not> packed q"] act two
    by (simp add: active_count_def ps'_def)
  then obtain w where w: "find_idx (\<lambda>q. \<not> packed q) ps' = Some w"
    by (cases "find_idx (\<lambda>q. \<not> packed q) ps'") (auto simp: list_ex_iff filter_empty_conv)
  then have wl: "w < length (players r)" and wu: "\<not> packed (ps' ! w)"
    by (simp_all add: find_idx_Some_iff ps'_def)
  have wct: "w \<noteq> currentTurn r" using wu ct by (auto simp: ps'_def)
  have "map pid ps' = map pid (players r)" unfolding ps'_def by (rule map_update_same) simp
  then have "distinct (map pid ps')" using wf by (simp add: wf_room_def)
  then have "\<forall>j<w. pid (ps' ! j) \<noteq> pid (ps' ! w)"
    using wl by (auto simp: distinct_conv_nth ps'_def)
  then show ?thesis using one w wl wu wct by (auto simp: ps'_def)
qed

text \<open>
  C8: when the turn holder packs and exactly one other player is still in, the pack
  settles the round automatically: the result is the specification's settlement
  \<open>settle\<close> for that last player (pool credited to them, pool and bid count reset,
  round advanced, everybody unpacked, turn to the winner) with only the log differing,
  and the room receives \<open>winnerDeclared\<close> from \<open>System (Auto)\<close>, then
  \<open>playerPacked\<close> and \<open>roomUpdate\<close>.
\<close>

theorem packCards_last_active_wins:
  assumes wf: "wf_room r" and turn: "pid (players r ! currentTurn r) = p"
    and act: "\<not> packed (players r ! currentTurn r)" and two: "active_count r = 2"
  shows "\<exists>w L r'. packCards c p r =
      Inr (r', [(ToRoom c, WinnerDeclared None (name (players r ! w)) (pool r) ''System (Auto)'' r'),
                (ToRoom c, PlayerPacked (name (players r ! currentTurn r)) r'),
                (ToRoom c, RoomUpdate r')]) \<and>
     r' = (settle w r)\<lparr>gameLog := L\<rparr> \<and>
     w < length (players r) \<and> w \<noteq> currentTurn r \<and> \<not> packed (players r ! w)"
proof -
  let ?ct = "currentTurn r"
  let ?ps' = "(players r)[?ct := (players r ! ?ct)\<lparr>packed := True\<rparr>]"
  let ?r1 = "addToGameLog (r\<lparr>players := ?ps'\<rparr>) (LogPacked (name (players r ! ?ct)))"
  let ?r2 = "moveToNextActivePlayer ?r1"
  have i: "find_idx (\<lambda>q. pid q = p) (players r) = Some ?ct"
    using wf_find_idx_turn [OF wf] turn by simp
  have p2: "players ?r2 = ?ps'" by (simp add: addToGameLog_eq)
  obtain w where one: "length (filter (\<lambda>q. \<not> packed q) ?ps') = 1"
    and w: "find_idx (\<lambda>q. \<not> packed q) ?ps' = Some w" and wl: "w < length (players r)"
    and wct: "w \<noteq> ?ct" and wu0: "\<not> packed (players r ! w)"
    and first: "\<forall>j<w. pid (?ps' ! j) \<noteq> pid (?ps' ! w)"
    using pack_survivor [OF wf act two] by blast
  define x where "x = currentTurn ?r2"
  have "?r2 = ?r1\<lparr>currentTurn := x\<rparr>" unfolding x_def by (rule moveToNextActivePlayer_frame)
  then have r2: "?r2 = r\<lparr>players := ?ps', currentTurn := x, gameLog := gameLog ?r1\<rparr>"
    by (simp add: addToGameLog_eq)
  have "autoSettle w ?r2 = (settle w ?r2)\<lparr>gameLog := slice_last 50
      (gameLog ?r2 @ [LogAutoWon (name (players ?r2 ! w)) (pool ?r2)])\<rparr>"
    using wl first by (intro autoSettle_eq) (simp_all only: p2 length_list_update)
  also have "settle w ?r2 = (settle w r)\<lparr>gameLog := gameLog ?r1\<rparr>"
    unfolding r2 using wct by (rule settle_pack_other)
  finally have settled: "autoSettle w ?r2 = (settle w r)\<lparr>gameLog := slice_last 50
      (gameLog ?r1 @ [LogAutoWon (name (players r ! w)) (pool r)])\<rparr>"
    using wct by (simp add: addToGameLog_eq)
  have stable: "ensureActiveTurn (autoSettle w ?r2) = autoSettle w ?r2"
    using wl by (intro ensureActiveTurn_unpacked) (simp add: settled settle_def)
  have "packCards c p r =
      Inr (autoSettle w ?r2,
           [(ToRoom c, WinnerDeclared None (name (players r ! w)) (pool r) ''System (Auto)'' (autoSettle w ?r2)),
            (ToRoom c, PlayerPacked (name (players r ! ?ct)) (autoSettle w ?r2)),
            (ToRoom c, RoomUpdate (autoSettle w ?r2))])"
    using i act one w wct stable by (simp add: packCards_def Let_def p2 del: find_idx_None_iff) (simp add: addToGameLog_eq Let_def)
  then show ?thesis using settled wl wct wu0 by blast
qed

theorem packCards_last_active_wins_witness:
  "wf_room (mkroom [mkp ''A'' True False 900, mkp ''B'' False False 1000, mkp ''C'' False True 1000] 0 100) \<and>
   (\<exists>r' outs. packCards ''4321'' ''id_A''
        (mkroom [mkp ''A'' True False 900, mkp ''B'' False False 1000, mkp ''C'' False True 1000] 0 100) =
      Inr (r', outs) \<and> map balance (players r') = [900, 1100, 1000] \<and> pool r' = 0 \<and>
      currentTurn r' = 1 \<and> roundNo r' = 2 \<and> list_all (\<lambda>q. \<not> packed q) (players r'))"
proof -
  let ?r = "mkroom [mkp ''A'' True False 900, mkp ''B'' False False 1000, mkp ''C'' False True 1000] 0 100"
  have wf: "wf_room ?r" by (simp add: wf_room_def mkroom_def mkp_def js_simps)
  have hyp: "pid (players ?r ! currentTurn ?r) = ''id_A''" "\<not> packed (players ?r ! currentTurn ?r)"
    "active_count ?r = 2"
    by (simp_all add: mkroom_def mkp_def active_count_def)
  from packCards_last_active_wins [OF wf hyp, of "''4321''"] obtain w L r' outs where
    run: "packCards ''4321'' ''id_A'' ?r = Inr (r', outs)" and r': "r' = (settle w ?r)\<lparr>gameLog := L\<rparr>"
    and w: "w < length (players ?r)" "w \<noteq> currentTurn ?r" "\<not> packed (players ?r ! w)"
    by blast
  from w have "w = 1" by (auto simp: mkroom_def mkp_def less_Suc_eq)
  with run r' wf show ?thesis by (auto simp: settle_def mkroom_def mkp_def)
qed

section \<open>Owner actions\<close>

lemma wf_first_pid:
  "wf_room r \<Longrightarrow> w < length (players r) \<Longrightarrow> \<forall>j<w. pid (players r ! j) \<noteq> pid (players r ! w)"
  by (auto simp: wf_room_def distinct_conv_nth)

text \<open>
  C9: the two settlement paths agree. When the owner declares the player at index
  \<open>w\<close> the winner, the room afterwards is, apart from the log, the room the automatic
  settlement of \<open>packCards\<close> produces for \<open>w\<close>, and both are the specification's
  settlement \<open>settle\<close>.
\<close>

theorem declareWinner_settlement_shared:
  assumes wf: "wf_room r" and w: "w < length (players r)"
    and run: "declareWinner c h (pid (players r ! w)) r = Inr (r', outs)"
  shows "r'\<lparr>gameLog := []\<rparr> = (autoSettle w r)\<lparr>gameLog := []\<rparr> \<and>
         r'\<lparr>gameLog := []\<rparr> = (settle w r)\<lparr>gameLog := []\<rparr>"
proof -
  from declareWinner_InrD [OF run] obtain host :: player and w' where
    w': "find_idx (\<lambda>q. pid q = pid (players r ! w)) (players r) = Some w'"
    and r': "r' = (settle w' r)\<lparr>gameLog := slice_last 50
              (gameLog r @ [LogWon (name (players r ! w')) (pool r) (name host)])\<rparr>"
    by (elim exE conjE) blast
  have "w' = w" using w' wf_find_idx_pid [OF wf w] by simp
  then show ?thesis
    using r' autoSettle_eq [OF w wf_first_pid [OF wf w]] by simp
qed

theorem declareWinner_settlement_shared_witness:
  "wf_room (mkroom [mkp ''A'' True False 900, mkp ''B'' False True 950] 1 150) \<and>
   1 < length (players (mkroom [mkp ''A'' True False 900, mkp ''B'' False True 950] 1 150)) \<and>
   (\<exists>r' outs. declareWinner ''4321'' ''id_A'' ''id_B'' (mkroom [mkp ''A'' True False 900, mkp ''B'' False True 950] 1 150) =
      Inr (r', outs) \<and>
      r'\<lparr>gameLog := []\<rparr> = (autoSettle 1 (mkroom [mkp ''A'' True False 900, mkp ''B'' False True 950] 1 150))\<lparr>gameLog := []\<rparr> \<and>
      r'\<lparr>gameLog := []\<rparr> = (settle 1 (mkroom [mkp ''A'' True False 900, mkp ''B'' False True 950] 1 150))\<lparr>gameLog := []\<rparr>)"
proof -
  let ?r = "mkroom [mkp ''A'' True False 900, mkp ''B'' False True 950] 1 150"
  have wf: "wf_room ?r" by (simp add: wf_room_def mkroom_def mkp_def js_simps)
  have w: "1 < length (players ?r)" by (simp add: mkroom_def)
  obtain r' outs where run: "declareWinner ''4321'' ''id_A'' (pid (players ?r ! 1)) ?r = Inr (r', outs)"
    by (simp add: declareWinner_def mkroom_def mkp_def Let_def)
  from declareWinner_settlement_shared [OF wf w run] run wf w show ?thesis
    by (auto simp: mkroom_def mkp_def)
qed

text \<open>
  C10: \<open>resetPool\<close> succeeds exactly when the requester is found and is the owner (else
  \<open>Forbidden\<close>); it then zeroes the pool and the bid count, sets the round to 1 and the
  turn to 0, restores every balance to the starting balance and unpacks everybody,
  keeps the players and their order, and announces the pre-reset pool.
\<close>

theorem resetPool_spec:
  "((\<exists>h. List.find (\<lambda>q. pid q = p) (players r) = Some h \<and> isCreator h) \<longrightarrow>
      (\<exists>r' outs. resetPool c p r = Inr (r', outs))) \<and>
   (\<not> (\<exists>h. List.find (\<lambda>q. pid q = p) (players r) = Some h \<and> isCreator h) \<longrightarrow>
      resetPool c p r = Inl Forbidden) \<and>
   (resetPool c p r = Inr (r', outs) \<longrightarrow>
      pool r' = 0 \<and> roundNo r' = 1 \<and> totalBids r' = 0 \<and> currentTurn r' = 0 \<and>
      map pid (players r') = map pid (players r) \<and>
      list_all (\<lambda>q. balance q = startingBalance r \<and> \<not> packed q) (players r') \<and>
      outs = [(ToRoom c, PoolReset (pool r) r'), (ToRoom c, RoomUpdate r')])"
proof (intro conjI impI)
  show "\<exists>r' outs. resetPool c p r = Inr (r', outs)"
    if "\<exists>h. List.find (\<lambda>q. pid q = p) (players r) = Some h \<and> isCreator h"
    using that by (auto simp: resetPool_def Let_def)
  show "resetPool c p r = Inl Forbidden"
    if "\<not> (\<exists>h. List.find (\<lambda>q. pid q = p) (players r) = Some h \<and> isCreator h)"
    using that by (auto simp: resetPool_def split: option.split)
  assume run: "resetPool c p r = Inr (r', outs)"
  from resetPool_InrD [OF run] obtain host :: player where
    r': "r' = addToGameLog
            (r\<lparr>pool := 0, roundNo := 1, totalBids := 0, currentTurn := 0,
               players := map (\<lambda>q. q\<lparr>balance := startingBalance r, packed := False\<rparr>) (players r)\<rparr>)
            (LogReset (name host) 1 (startingBalance r))"
    and outs: "outs = [(ToRoom c, PoolReset (pool r) r'), (ToRoom c, RoomUpdate r')]"
    by blast
  show "pool r' = 0" "roundNo r' = 1" "totalBids r' = 0" "currentTurn r' = 0"
    "map pid (players r') = map pid (players r)"
    "list_all (\<lambda>q. balance q = startingBalance r \<and> \<not> packed q) (players r')"
    "outs = [(ToRoom c, PoolReset (pool r) r'), (ToRoom c, RoomUpdate r')]"
    using outs by (simp_all add: r' addToGameLog_eq list_all_iff)
qed

theorem resetPool_spec_witness:
  "resetPool ''4321'' ''id_B'' (mkroom [mkp ''A'' True True 700, mkp ''B'' False False 1300] 1 80) = Inl Forbidden \<and>
   (\<exists>r' outs. resetPool ''4321'' ''id_A'' (mkroom [mkp ''A'' True True 700, mkp ''B'' False False 1300] 1 80) =
      Inr (r', outs) \<and> map balance (players r') = [1000, 1000] \<and> pool r' = 0 \<and> roundNo r' = 1 \<and>
      currentTurn r' = 0 \<and> list_all (\<lambda>q. \<not> packed q) (players r'))"
proof -
  let ?r = "mkroom [mkp ''A'' True True 700, mkp ''B'' False False 1300] 1 80"
  have owner: "\<exists>h. List.find (\<lambda>q. pid q = ''id_A'') (players ?r) = Some h \<and> isCreator h"
    and guest: "\<not> (\<exists>h. List.find (\<lambda>q. pid q = ''id_B'') (players ?r) = Some h \<and> isCreator h)"
    by (simp_all add: mkroom_def mkp_def)
  from resetPool_spec [of "''id_A''" ?r "''4321''"] owner obtain r' outs where
    run: "resetPool ''4321'' ''id_A'' ?r = Inr (r', outs)" by blast
  from resetPool_spec [of "''id_A''" ?r "''4321''" r' outs] run
  have "pool r' = 0 \<and> roundNo r' = 1 \<and> currentTurn r' = 0 \<and>
      list_all (\<lambda>q. balance q = startingBalance ?r \<and> \<not> packed q) (players r') \<and>
      map pid (players r') = map pid (players ?r)" by blast
  then have "map balance (players r') = [1000, 1000] \<and> pool r' = 0 \<and> roundNo r' = 1 \<and>
      currentTurn r' = 0 \<and> list_all (\<lambda>q. \<not> packed q) (players r')"
    by (cases "players r'" rule: list.exhaust; cases "tl (players r')" rule: list.exhaust)
       (auto simp: mkroom_def mkp_def)
  moreover have "resetPool ''4321'' ''id_B'' ?r = Inl Forbidden"
    using resetPool_spec [of "''id_B''" ?r "''4321''"] guest by blast
  ultimately show ?thesis using run by auto
qed

text \<open>
  C11: the guards of \<open>packCards\<close> in the code's order. An unknown id is
  \<open>Player not found\<close>; a packed player gets \<open>Already packed\<close> whether or not they
  have the turn; only an unpacked player off turn gets \<open>Not your turn\<close>. The
  specification lists \<open>NotYourTurn\<close> first, so a packed player off turn is answered
  differently from the specification.
\<close>

theorem packCards_errors:
  assumes wf: "wf_room r"
  shows "(p \<notin> pid ` set (players r) \<longrightarrow> packCards c p r = Inl PlayerNotFound) \<and>
    (i < length (players r) \<and> pid (players r ! i) = p \<and> packed (players r ! i) \<longrightarrow>
       packCards c p r = Inl AlreadyPacked) \<and>
    (i < length (players r) \<and> pid (players r ! i) = p \<and> \<not> packed (players r ! i) \<and>
       i \<noteq> currentTurn r \<longrightarrow> packCards c p r = Inl PackNotYourTurn)"
proof (intro conjI impI)
  show "packCards c p r = Inl PlayerNotFound" if "p \<notin> pid ` set (players r)"
    unfolding packCards_def find_idx_pid_None [OF that] by simp
  show "packCards c p r = Inl AlreadyPacked"
    if "i < length (players r) \<and> pid (players r ! i) = p \<and> packed (players r ! i)"
    using that wf_find_idx_pid [OF wf, of i] by (auto simp: packCards_def)
  show "packCards c p r = Inl PackNotYourTurn"
    if "i < length (players r) \<and> pid (players r ! i) = p \<and> \<not> packed (players r ! i) \<and> i \<noteq> currentTurn r"
    using that wf_find_idx_pid [OF wf, of i] by (auto simp: packCards_def)
qed

theorem packCards_errors_witness:
  "wf_room (mkroom [mkp ''A'' True False 1000, mkp ''B'' False True 1000, mkp ''C'' False False 1000] 0 0) \<and>
   packCards ''4321'' ''id_Z'' (mkroom [mkp ''A'' True False 1000, mkp ''B'' False True 1000, mkp ''C'' False False 1000] 0 0) = Inl PlayerNotFound \<and>
   packCards ''4321'' ''id_B'' (mkroom [mkp ''A'' True False 1000, mkp ''B'' False True 1000, mkp ''C'' False False 1000] 0 0) = Inl AlreadyPacked \<and>
   packCards ''4321'' ''id_C'' (mkroom [mkp ''A'' True False 1000, mkp ''B'' False True 1000, mkp ''C'' False False 1000] 0 0) = Inl PackNotYourTurn"
proof -
  let ?r = "mkroom [mkp ''A'' True False 1000, mkp ''B'' False True 1000, mkp ''C'' False False 1000] 0 0"
  have wf: "wf_room ?r" by (simp add: wf_room_def mkroom_def mkp_def js_simps)
  have "packCards ''4321'' ''id_Z'' ?r = Inl PlayerNotFound"
    using packCards_errors [OF wf, of "''id_Z''" "''4321''" 0] by (simp add: mkroom_def mkp_def)
  moreover have "packCards ''4321'' ''id_B'' ?r = Inl AlreadyPacked"
    using packCards_errors [OF wf, of "''id_B''" "''4321''" 1] by (simp add: mkroom_def mkp_def)
  moreover have "packCards ''4321'' ''id_C'' ?r = Inl PackNotYourTurn"
    using packCards_errors [OF wf, of "''id_C''" "''4321''" 2] by (simp add: mkroom_def mkp_def)
  ultimately show ?thesis using wf by blast
qed

text \<open>
  C12: the guards of \<open>declareWinner\<close> in the code's order: a requester who is not
  found or not the owner gets \<open>Forbidden\<close>; an unknown winner id is \<open>Winner not
  found\<close> even when the pool is empty; only a known winner with a pool \<open>\<le> 0\<close> gets
  \<open>Pool is empty\<close>. The specification lists \<open>EmptyPool\<close> before \<open>NotFound\<close>.
\<close>

theorem declareWinner_errors:
  "(\<not> (\<exists>h. List.find (\<lambda>q. pid q = p) (players r) = Some h \<and> isCreator h) \<longrightarrow>
      declareWinner c p wid r = Inl Forbidden) \<and>
   ((\<exists>h. List.find (\<lambda>q. pid q = p) (players r) = Some h \<and> isCreator h) \<and>
      wid \<notin> pid ` set (players r) \<longrightarrow> declareWinner c p wid r = Inl WinnerNotFound) \<and>
   ((\<exists>h. List.find (\<lambda>q. pid q = p) (players r) = Some h \<and> isCreator h) \<and>
      wid \<in> pid ` set (players r) \<and> pool r \<le> 0 \<longrightarrow> declareWinner c p wid r = Inl EmptyPool)"
proof (intro conjI impI)
  show "declareWinner c p wid r = Inl Forbidden"
    if "\<not> (\<exists>h. List.find (\<lambda>q. pid q = p) (players r) = Some h \<and> isCreator h)"
    using that by (auto simp: declareWinner_def split: option.split)
  show "declareWinner c p wid r = Inl WinnerNotFound"
    if "(\<exists>h. List.find (\<lambda>q. pid q = p) (players r) = Some h \<and> isCreator h) \<and> wid \<notin> pid ` set (players r)"
    using that by (auto simp: declareWinner_def find_idx_pid_None del: find_idx_None_iff)
  show "declareWinner c p wid r = Inl EmptyPool"
    if "(\<exists>h. List.find (\<lambda>q. pid q = p) (players r) = Some h \<and> isCreator h) \<and>
        wid \<in> pid ` set (players r) \<and> pool r \<le> 0"
    using that find_idx_pid_Some [of wid "players r"] by (auto simp: declareWinner_def)
qed

theorem declareWinner_errors_witness:
  "declareWinner ''4321'' ''id_B'' ''id_A'' (mkroom [mkp ''A'' True False 1000, mkp ''B'' False False 1000] 0 0) = Inl Forbidden \<and>
   declareWinner ''4321'' ''id_A'' ''id_Z'' (mkroom [mkp ''A'' True False 1000, mkp ''B'' False False 1000] 0 0) = Inl WinnerNotFound \<and>
   declareWinner ''4321'' ''id_A'' ''id_B'' (mkroom [mkp ''A'' True False 1000, mkp ''B'' False False 1000] 0 0) = Inl EmptyPool"
proof -
  let ?r = "mkroom [mkp ''A'' True False 1000, mkp ''B'' False False 1000] 0 0"
  have "declareWinner ''4321'' ''id_B'' ''id_A'' ?r = Inl Forbidden"
    using declareWinner_errors [of "''id_B''" ?r "''4321''" "''id_A''"] by (simp add: mkroom_def mkp_def)
  moreover have "declareWinner ''4321'' ''id_A'' ''id_Z'' ?r = Inl WinnerNotFound"
    using declareWinner_errors [of "''id_A''" ?r "''4321''" "''id_Z''"] by (simp add: mkroom_def mkp_def)
  moreover have "declareWinner ''4321'' ''id_A'' ''id_B'' ?r = Inl EmptyPool"
    using declareWinner_errors [of "''id_A''" ?r "''4321''" "''id_B''"] by (simp add: mkroom_def mkp_def)
  ultimately show ?thesis by blast
qed

section \<open>Removals\<close>

lemma removePlayer_turn:
  assumes wf: "wf_room r" and i: "i < length (players r)"
    and run: "removePlayer c h (pid (players r ! i)) r = Inr (r', outs)"
  shows "players r' = splice1 i (players r) \<and>
    currentTurn r' = (if length (players r) - 1 \<le> currentTurn r then 0
                      else if i < currentTurn r then currentTurn r - 1 else currentTurn r)"
proof -
  from removePlayer_InrD [OF run] obtain host :: player and target :: player and i' r1 where
    i': "find_idx (\<lambda>q. pid q = pid (players r ! i)) (players r) = Some i'"
    and r1: "r1 = addToGameLog (r\<lparr>players := splice1 i' (players r)\<rparr>)
            (LogRemoved (name (players r ! i')) (name host))"
    and r': "r' = (if length (players r1) \<le> currentTurn r1 then r1\<lparr>currentTurn := 0\<rparr>
           else if i' < currentTurn r1 then r1\<lparr>currentTurn := currentTurn r1 - 1\<rparr>
           else r1)"
    by (elim exE conjE) blast
  have "i' = i" using i' wf_find_idx_pid [OF wf i] by simp
  then show ?thesis using r' r1 i by (simp add: addToGameLog_eq)
qed

text \<open>
  C13: removing the player at index \<open>i\<close> deletes exactly that player and keeps the
  turn on the same player when the removed one sat after the turn holder, and moves it
  one index down, onto the same player, when the removed one sat before it and the turn
  holder was not the last player (specification section 8).
\<close>

theorem removePlayer_turn_adjust:
  assumes wf: "wf_room r" and i: "i < length (players r)"
    and run: "removePlayer c h (pid (players r ! i)) r = Inr (r', outs)"
  shows "players r' = splice1 i (players r) \<and>
    (currentTurn r < i \<longrightarrow> currentTurn r' = currentTurn r \<and>
       players r' ! currentTurn r' = players r ! currentTurn r) \<and>
    (i < currentTurn r \<and> Suc (currentTurn r) < length (players r) \<longrightarrow>
       currentTurn r' = currentTurn r - 1 \<and> players r' ! currentTurn r' = players r ! currentTurn r)"
proof (intro conjI impI)
  note t = removePlayer_turn [OF wf i run]
  show pl: "players r' = splice1 i (players r)" using t by (rule conjunct1)
  note tc = conjunct2 [OF t]
  {
    assume a: "currentTurn r < i"
    with i have lt: "currentTurn r < length (players r) - 1" by arith
    then show ct: "currentTurn r' = currentTurn r" using tc a by simp
    show "players r' ! currentTurn r' = players r ! currentTurn r"
      unfolding ct pl using nth_splice1 [OF i lt] a by simp
  next
    assume a: "i < currentTurn r \<and> Suc (currentTurn r) < length (players r)"
    then have lt: "currentTurn r - 1 < length (players r) - 1" by arith
    from a have "\<not> length (players r) - 1 \<le> currentTurn r" by arith
    then show ct: "currentTurn r' = currentTurn r - 1" using tc a by simp
    have "\<not> currentTurn r - 1 < i" and "Suc (currentTurn r - 1) = currentTurn r" using a by arith+
    then show "players r' ! currentTurn r' = players r ! currentTurn r"
      unfolding ct pl using nth_splice1 [OF i lt] by simp
  }
qed

theorem removePlayer_turn_adjust_witness:
  "wf_room (mkroom [mkp ''A'' True False 1000, mkp ''B'' False False 1000, mkp ''C'' False False 1000, mkp ''D'' False False 1000] 2 0) \<and>
   (\<exists>r' outs. removePlayer ''4321'' ''id_A'' ''id_B''
       (mkroom [mkp ''A'' True False 1000, mkp ''B'' False False 1000, mkp ''C'' False False 1000, mkp ''D'' False False 1000] 2 0) =
     Inr (r', outs) \<and> currentTurn r' = 1 \<and> name (players r' ! currentTurn r') = ''C'')"
proof -
  let ?r = "mkroom [mkp ''A'' True False 1000, mkp ''B'' False False 1000, mkp ''C'' False False 1000, mkp ''D'' False False 1000] 2 0"
  have wf: "wf_room ?r" by (simp add: wf_room_def mkroom_def mkp_def js_simps)
  have i: "1 < length (players ?r)" by (simp add: mkroom_def)
  obtain r' outs where run: "removePlayer ''4321'' ''id_A'' (pid (players ?r ! 1)) ?r = Inr (r', outs)"
    by (simp add: removePlayer_def mkroom_def mkp_def Let_def)
  from removePlayer_turn_adjust [OF wf i run] have
    "currentTurn r' = 1 \<and> name (players r' ! currentTurn r') = ''C''"
    by (simp add: mkroom_def mkp_def js_simps)
  with run wf show ?thesis by (auto simp: mkroom_def mkp_def)
qed

text \<open>
  C14: the removal clamps the turn index before it decrements it. When the turn holder
  is the last of three or more players and a player before them is removed, the turn
  goes to index 0, which is another player, where the specification (section 8) says
  the index is decremented by exactly one and so stays on the turn holder.
\<close>

theorem removePlayer_last_turn_reset:
  assumes wf: "wf_room r" and i: "i < currentTurn r"
    and last: "Suc (currentTurn r) = length (players r)" and three: "2 < length (players r)"
    and run: "removePlayer c h (pid (players r ! i)) r = Inr (r', outs)"
  shows "currentTurn r' = 0 \<and> currentTurn r' \<noteq> currentTurn r - 1 \<and>
         pid (players r' ! currentTurn r') \<noteq> pid (players r ! currentTurn r)"
proof -
  have il: "i < length (players r)" using i last by simp
  note t = removePlayer_turn [OF wf il run]
  have "length (players r) - 1 \<le> currentTurn r" using last by arith
  then have ct0: "currentTurn r' = 0" using t by simp
  have d: "distinct (map pid (players r))" using wf by (simp add: wf_room_def)
  define k where "k = (if i = 0 then 1 else (0::nat))"
  have "players r' ! 0 = players r ! k"
    using t three il by (simp add: nth_splice1 k_def)
  moreover have k: "k < length (players r)" "k \<noteq> currentTurn r" "currentTurn r < length (players r)"
    using i last three by (auto simp: k_def)
  moreover have "(map pid (players r) ! k = map pid (players r) ! currentTurn r) = (k = currentTurn r)"
    using k by (intro nth_eq_iff_index_eq [OF d]) simp_all
  ultimately have "pid (players r' ! 0) \<noteq> pid (players r ! currentTurn r)" by simp
  with ct0 i last three show ?thesis by simp
qed

theorem removePlayer_last_turn_reset_witness:
  "wf_room (mkroom [mkp ''A'' True False 1000, mkp ''B'' False False 1000, mkp ''C'' False False 1000] 2 0) \<and>
   (\<exists>r' outs. removePlayer ''4321'' ''id_A'' ''id_B''
       (mkroom [mkp ''A'' True False 1000, mkp ''B'' False False 1000, mkp ''C'' False False 1000] 2 0) =
     Inr (r', outs) \<and> currentTurn r' = 0 \<and> name (players r' ! currentTurn r') = ''A'')"
proof -
  let ?r = "mkroom [mkp ''A'' True False 1000, mkp ''B'' False False 1000, mkp ''C'' False False 1000] 2 0"
  have wf: "wf_room ?r" by (simp add: wf_room_def mkroom_def mkp_def js_simps)
  have h: "1 < currentTurn ?r" "Suc (currentTurn ?r) = length (players ?r)" "2 < length (players ?r)"
    by (simp_all add: mkroom_def)
  obtain r' outs where run: "removePlayer ''4321'' ''id_A'' (pid (players ?r ! 1)) ?r = Inr (r', outs)"
    by (simp add: removePlayer_def mkroom_def mkp_def Let_def)
  from removePlayer_last_turn_reset [OF wf h run] have "currentTurn r' = 0" by simp
  moreover have "players r' = splice1 1 (players ?r)"
    using removePlayer_InrD [OF run] by (auto simp: mkroom_def mkp_def addToGameLog_eq)
  ultimately show ?thesis using run wf by (auto simp: mkroom_def mkp_def js_simps)
qed

lemma depart_owner:
  assumes i: "i < length (players r)" and own: "isCreator (players r ! i)"
    and two: "2 \<le> length (players r)"
  shows "\<exists>r'. depart m i r = Some r' \<and>
     players r' = (splice1 i (players r))[0 := (splice1 i (players r) ! 0)\<lparr>isCreator := True\<rparr>] \<and>
     creator r' = name (splice1 i (players r) ! 0)"
proof -
  have ne: "splice1 i (players r) \<noteq> []" using i two by (auto simp: length_0_conv [symmetric])
  then show ?thesis using own by (simp add: depart_def Let_def addToGameLog_eq)
qed

text \<open>
  C15: when the owner leaves and others remain, the room is kept, the players are the
  others in their order, the first of them (the earliest joined) becomes the owner and
  the room's \<open>creator\<close> name, and the room is again well formed, so nobody else is
  owner (specification section 8).
\<close>

theorem leaveRoom_owner_transfer:
  assumes wf: "wf_room r" and i: "i < length (players r)" and own: "isCreator (players r ! i)"
    and two: "2 \<le> length (players r)"
  shows "\<exists>r'. fst (leaveRoom c (pid (players r ! i)) r) = Some r' \<and>
     map pid (players r') = map pid (splice1 i (players r)) \<and>
     isCreator (players r' ! 0) \<and> creator r' = name (players r' ! 0) \<and> wf_room r'"
proof -
  from depart_owner [OF i own two, of "LogLeft (name (players r ! i))"] obtain r' where
    d: "depart (LogLeft (name (players r ! i))) i r = Some r'"
    and pl: "players r' = (splice1 i (players r))[0 := (splice1 i (players r) ! 0)\<lparr>isCreator := True\<rparr>]"
    and cr: "creator r' = name (splice1 i (players r) ! 0)"
    by blast
  have lv: "fst (leaveRoom c (pid (players r ! i)) r) = Some r'"
    using leaveRoom_depart [OF wf_find_idx_pid [OF wf i], of c] d by simp
  have ne: "splice1 i (players r) \<noteq> []" using i two by (auto simp: length_0_conv [symmetric])
  have "map pid (players r') = map pid (splice1 i (players r))"
    unfolding pl by (rule map_update_same) simp
  moreover have "isCreator (players r' ! 0) \<and> creator r' = name (players r' ! 0)"
    using ne pl cr by simp
  ultimately show ?thesis using lv depart_wf [OF wf i d] by blast
qed

theorem leaveRoom_owner_transfer_witness:
  "wf_room (mkroom [mkp ''A'' True False 1000, mkp ''B'' False False 1000, mkp ''C'' False False 1000] 0 0) \<and>
   (\<exists>r'. fst (leaveRoom ''4321'' ''id_A'' (mkroom [mkp ''A'' True False 1000, mkp ''B'' False False 1000, mkp ''C'' False False 1000] 0 0)) = Some r' \<and>
      map name (players r') = [''B'', ''C''] \<and> isCreator (players r' ! 0) \<and> creator r' = ''B'')"
proof -
  let ?r = "mkroom [mkp ''A'' True False 1000, mkp ''B'' False False 1000, mkp ''C'' False False 1000] 0 0"
  have wf: "wf_room ?r" by (simp add: wf_room_def mkroom_def mkp_def js_simps)
  have h: "0 < length (players ?r)" "isCreator (players ?r ! 0)" "2 \<le> length (players ?r)"
    by (simp_all add: mkroom_def mkp_def)
  from leaveRoom_owner_transfer [OF wf h, of "''4321''"] obtain r' where
    lv: "fst (leaveRoom ''4321'' (pid (players ?r ! 0)) ?r) = Some r'"
    and m: "map pid (players r') = map pid (splice1 0 (players ?r))"
    and c: "isCreator (players r' ! 0)" "creator r' = name (players r' ! 0)" "wf_room r'"
    by blast
  have "players r' = (splice1 0 (players ?r))[0 := (splice1 0 (players ?r) ! 0)\<lparr>isCreator := True\<rparr>]"
    using lv by (auto simp: leaveRoom_def mkroom_def mkp_def Let_def js_simps addToGameLog_eq)
  then show ?thesis using lv c wf by (simp add: mkroom_def mkp_def js_simps)
qed

lemma depart_Some:
  assumes i: "i < length (players r)" and two: "2 \<le> length (players r)"
  shows "depart m i r \<noteq> None"
proof -
  have ne: "splice1 i (players r) \<noteq> []" using i two by (auto simp: length_0_conv [symmetric])
  then show ?thesis by (auto simp: depart_def Let_def addToGameLog_eq)
qed

lemma depart_turn:
  assumes i: "i < length (players r)" and two: "2 \<le> length (players r)"
    and d: "depart m i r = Some r'"
  shows "map pid (players r') = map pid (splice1 i (players r)) \<and>
    currentTurn r' = (if length (players r) - 1 \<le> currentTurn r then 0 else currentTurn r)"
proof -
  have ne: "splice1 i (players r) \<noteq> []" using i two by (auto simp: length_0_conv [symmetric])
  then show ?thesis using d i
    by (auto simp: depart_def Let_def addToGameLog_eq map_update_same split: if_splits)
qed

text \<open>
  C16: a player who leaves does not move the turn index: when they sat before the turn
  holder (and the turn holder was not last), the index now designates the player after
  the turn holder. \<open>removePlayer\<close> decrements the index in the same situation
  (C13), so leaving and being removed hand the turn to different players.
\<close>

theorem leaveRoom_turn_shift:
  assumes wf: "wf_room r" and i: "i < currentTurn r"
    and notlast: "Suc (currentTurn r) < length (players r)"
  shows "\<exists>r'. fst (leaveRoom c (pid (players r ! i)) r) = Some r' \<and>
     currentTurn r' = currentTurn r \<and> pid (players r' ! currentTurn r') = pid (players r ! Suc (currentTurn r))"
proof -
  have il: "i < length (players r)" and two: "2 \<le> length (players r)" using i notlast by simp_all
  have lv: "fst (leaveRoom c (pid (players r ! i)) r) = depart (LogLeft (name (players r ! i))) i r"
    by (rule leaveRoom_depart [OF wf_find_idx_pid [OF wf il]])
  obtain r' where d: "depart (LogLeft (name (players r ! i))) i r = Some r'"
    using depart_Some [OF il two] by blast
  note t = depart_turn [OF il two d]
  have "\<not> length (players r) - 1 \<le> currentTurn r" using notlast by arith
  then have ct: "currentTurn r' = currentTurn r" using t by simp
  have lt: "currentTurn r < length (players r) - 1" using notlast by arith
  have mp: "map pid (players r') = map pid (splice1 i (players r))" using t by simp
  have len: "currentTurn r < length (splice1 i (players r))" using lt il by simp
  then have len': "currentTurn r < length (players r')" using mp by (metis length_map)
  have "pid (players r' ! currentTurn r) = map pid (players r') ! currentTurn r"
    using len' by simp
  also have "\<dots> = pid (splice1 i (players r) ! currentTurn r)" using mp len by simp
  also have "\<dots> = pid (players r ! Suc (currentTurn r))" using nth_splice1 [OF il lt] i by simp
  finally have "pid (players r' ! currentTurn r) = pid (players r ! Suc (currentTurn r))" .
  then show ?thesis using lv d ct by simp
qed

theorem leaveRoom_turn_shift_witness:
  "wf_room (mkroom [mkp ''A'' True False 1000, mkp ''B'' False False 1000, mkp ''C'' False False 1000, mkp ''D'' False False 1000] 2 0) \<and>
   (\<exists>r'. fst (leaveRoom ''4321'' ''id_B'' (mkroom [mkp ''A'' True False 1000, mkp ''B'' False False 1000, mkp ''C'' False False 1000, mkp ''D'' False False 1000] 2 0)) = Some r' \<and>
      currentTurn r' = 2 \<and> pid (players r' ! currentTurn r') = ''id_D'')"
proof -
  let ?r = "mkroom [mkp ''A'' True False 1000, mkp ''B'' False False 1000, mkp ''C'' False False 1000, mkp ''D'' False False 1000] 2 0"
  have wf: "wf_room ?r" by (simp add: wf_room_def mkroom_def mkp_def js_simps)
  have h: "1 < currentTurn ?r" "Suc (currentTurn ?r) < length (players ?r)"
    by (simp_all add: mkroom_def)
  from leaveRoom_turn_shift [OF wf h, of "''4321''"] wf show ?thesis
    by (simp add: mkroom_def mkp_def)
qed

lemma depart_log:
  "map_option (\<lambda>x. x\<lparr>gameLog := []\<rparr>) (depart m i r) = map_option (\<lambda>x. x\<lparr>gameLog := []\<rparr>) (depart m' i r)"
  by (auto simp: depart_def Let_def addToGameLog_eq)

text \<open>
  C17: the removal the disconnect timer performs (\<open>timeoutRemove\<close>, server.js
  657--697) is the \<open>leaveRoom\<close> handler's removal: for every room and player id the
  resulting room (or its deletion) is the same apart from the log message, and the
  same messages go to the same addressees.
\<close>

theorem timeoutRemove_is_leaveRoom:
  "map_option (\<lambda>x. x\<lparr>gameLog := []\<rparr>) (fst (timeoutRemove c p r)) =
     map_option (\<lambda>x. x\<lparr>gameLog := []\<rparr>) (fst (leaveRoom c p r)) \<and>
   map fst (snd (timeoutRemove c p r)) = map fst (snd (leaveRoom c p r))"
proof (cases "find_idx (\<lambda>q. pid q = p) (players r)")
  case None
  then show ?thesis by (simp add: timeoutRemove_def leaveRoom_def del: find_idx_None_iff)
next
  case (Some i)
  have "map_option (\<lambda>x. x\<lparr>gameLog := []\<rparr>) (fst (timeoutRemove c p r)) =
      map_option (\<lambda>x. x\<lparr>gameLog := []\<rparr>) (fst (leaveRoom c p r))"
    unfolding timeoutRemove_depart [OF Some] leaveRoom_depart [OF Some] by (rule depart_log)
  moreover have "map fst (snd (timeoutRemove c p r)) = map fst (snd (leaveRoom c p r))"
    using Some by (simp add: timeoutRemove_def leaveRoom_def Let_def addToGameLog_eq)
  ultimately show ?thesis ..
qed

section \<open>Joining\<close>

text \<open>
  C18: names are compared after \<open>toLowerCase\<close>: a join whose name equals an
  existing player's name up to case is refused with \<open>Name already taken\<close>; any other
  join appends the new player, unpacked, not the owner, with the room's starting
  balance, and changes neither the pool nor the round.
\<close>

theorem joinRoom_duplicate_name:
  "(list_ex (\<lambda>q. toLowerCase (name q) = toLowerCase n) (players r) \<longrightarrow>
      joinRoom c s newId n r = Inl DuplicateName) \<and>
   (\<not> list_ex (\<lambda>q. toLowerCase (name q) = toLowerCase n) (players r) \<longrightarrow>
      (\<exists>r' outs. joinRoom c s newId n r = Inr (r', outs) \<and>
         players r' = players r @ [\<lparr>pid = newId, socketId = s, name = n, balance = startingBalance r,
                                    isCreator = False, packed = False\<rparr>] \<and>
         pool r' = pool r \<and> roundNo r' = roundNo r))"
  by (simp add: joinRoom_def Let_def addToGameLog_eq)

theorem joinRoom_duplicate_name_witness:
  "list_ex (\<lambda>q. toLowerCase (name q) = toLowerCase ''aLiCe'') (players (mkroom [mkp ''Alice'' True False 1000] 0 0)) \<and>
   joinRoom ''4321'' ''sock_x'' ''id_x'' ''aLiCe'' (mkroom [mkp ''Alice'' True False 1000] 0 0) = Inl DuplicateName \<and>
   \<not> list_ex (\<lambda>q. toLowerCase (name q) = toLowerCase ''Bob'') (players (mkroom [mkp ''Alice'' True False 1000] 0 0)) \<and>
   (\<exists>r' outs. joinRoom ''4321'' ''sock_B'' ''id_B'' ''Bob'' (mkroom [mkp ''Alice'' True False 1000] 0 0) = Inr (r', outs) \<and>
      map name (players r') = [''Alice'', ''Bob''] \<and> map balance (players r') = [1000, 1000])"
proof -
  let ?r = "mkroom [mkp ''Alice'' True False 1000] 0 0"
  have d: "list_ex (\<lambda>q. toLowerCase (name q) = toLowerCase ''aLiCe'') (players ?r)"
    and nd: "\<not> list_ex (\<lambda>q. toLowerCase (name q) = toLowerCase ''Bob'') (players ?r)"
    by (simp_all add: mkroom_def mkp_def js_simps)
  have "joinRoom ''4321'' ''sock_x'' ''id_x'' ''aLiCe'' ?r = Inl DuplicateName"
    using joinRoom_duplicate_name [of "''aLiCe''" ?r "''4321''" "''sock_x''" "''id_x''"] d by blast
  moreover obtain r' outs where
    "joinRoom ''4321'' ''sock_B'' ''id_B'' ''Bob'' ?r = Inr (r', outs)"
    "players r' = players ?r @ [\<lparr>pid = ''id_B'', socketId = ''sock_B'', name = ''Bob'',
        balance = startingBalance ?r, isCreator = False, packed = False\<rparr>]"
    using joinRoom_duplicate_name [of "''Bob''" ?r "''4321''" "''sock_B''" "''id_B''"] nd by blast
  ultimately show ?thesis using d nd by (auto simp: mkroom_def mkp_def)
qed

end
