(* ===== verification/Game.thy ===== *)
theory Game
  imports Behaviour
begin

text \<open>
  Properties of the room operations taken together, through the dispatcher
  \<open>game_step\<close> of theory \<open>Actions\<close>: every successful action keeps \<open>wf_room\<close>; every
  action but a removal leaves the turn on an unpacked player; bids, packs, settlements
  and turn changes move money without creating or destroying it; over a run of bids
  the pool grows by exactly the bid amounts (\<open>run_bids\<close> is a sequence of
  \<open>placeBid\<close> handler calls on one room, stopping at the first error); and the log
  keeps the 50 most recent entries.
\<close>

fun run_bids :: "room_code \<Rightarrow> (player_id \<times> int) list \<Rightarrow> room \<Rightarrow> err + room" where
  "run_bids c [] r = Inr r"
| "run_bids c ((p, a) # bs) r =
     (case placeBid c p a r of Inl e \<Rightarrow> Inl e | Inr (r1, outs) \<Rightarrow> run_bids c bs r1)"

section \<open>The turn invariant, operation by operation\<close>

lemma placeBid_turn_ok:
  assumes run: "placeBid c p a r = Inr (r', outs)" and wf: "wf_room r"
  shows "turn_ok r'"
proof -
  from placeBid_InrD [OF run] obtain i where
    r': "r' = moveToNextActivePlayer
            (addToGameLog
              (r\<lparr>players := (players r)[i := (players r ! i)\<lparr>balance := balance (players r ! i) - a\<rparr>],
                 pool := pool r + a, totalBids := Suc (totalBids r)\<rparr>)
              (LogBid (name (players r ! i)) a))"
    by blast
  have "players r \<noteq> []" using wf by (simp add: wf_room_def)
  then show ?thesis unfolding r' by (intro turn_ok_moveToNext) (simp add: addToGameLog_eq)
qed

lemma packCards_turn_ok:
  assumes run: "packCards c p r = Inr (r', outs)" and wf: "wf_room r"
  shows "turn_ok r'"
proof -
  from packCards_shape [OF run wf] obtain r3 where "wf_room r3" and r': "r' = ensureActiveTurn r3"
    by blast
  then show ?thesis by (simp add: turn_ok_ensureActiveTurn wf_room_def)
qed

lemma resetPool_turn_ok:
  assumes run: "resetPool c p r = Inr (r', outs)" and wf: "wf_room r"
  shows "turn_ok r'"
proof -
  have "wf_room r'" by (rule resetPool_wf [OF run wf])
  moreover from resetPool_InrD [OF run] have "list_all (\<lambda>q. \<not> packed q) (players r')"
    by (auto simp: addToGameLog_eq list_all_iff)
  ultimately show ?thesis by (intro turn_ok_all_unpacked) (simp_all add: wf_room_def)
qed

lemma declareWinner_turn_ok:
  assumes run: "declareWinner c p wid r = Inr (r', outs)" and wf: "wf_room r"
  shows "turn_ok r'"
proof -
  have "wf_room r'" by (rule declareWinner_wf [OF run wf])
  moreover from declareWinner_InrD [OF run] have "list_all (\<lambda>q. \<not> packed q) (players r')"
    by (auto simp: settle_def list_all_iff)
  ultimately show ?thesis by (intro turn_ok_all_unpacked) (simp_all add: wf_room_def)
qed

lemma changeTurn_turn_ok:
  assumes run: "changeTurn c p t r = Inr (r', outs)"
  shows "turn_ok r'"
  using changeTurn_InrD [OF run] by (auto simp: turn_ok_def addToGameLog_eq)

section \<open>Money, operation by operation\<close>

lemma placeBid_money:
  assumes run: "placeBid c p a r = Inr (r', outs)"
  shows "total_money r' = total_money r"
proof -
  from placeBid_InrD [OF run] obtain i where
    i: "find_idx (\<lambda>q. pid q = p) (players r) = Some i" and
    r': "r' = moveToNextActivePlayer
            (addToGameLog
              (r\<lparr>players := (players r)[i := (players r ! i)\<lparr>balance := balance (players r ! i) - a\<rparr>],
                 pool := pool r + a, totalBids := Suc (totalBids r)\<rparr>)
              (LogBid (name (players r ! i)) a))"
    by blast
  from i have "i < length (players r)" by (simp add: find_idx_Some_iff)
  then show ?thesis unfolding r' by (simp add: total_money_def addToGameLog_eq sum_list_map_update)
qed

lemma packCards_money:
  assumes run: "packCards c p r = Inr (r', outs)"
  shows "total_money r' = total_money r"
proof -
  from packCards_InrD [OF run] obtain i r2 r3 where
    r2: "r2 = moveToNextActivePlayer
            (addToGameLog (r\<lparr>players := (players r)[i := (players r ! i)\<lparr>packed := True\<rparr>]\<rparr>)
              (LogPacked (name (players r ! i))))"
    and r3: "r3 = (if length (filter (\<lambda>q. \<not> packed q) (players r2)) = 1
           then (case find_idx (\<lambda>q. \<not> packed q) (players r2) of
                   Some w \<Rightarrow> autoSettle w r2
                 | None \<Rightarrow> r2)
           else r2)"
    and r': "r' = ensureActiveTurn r3"
    by blast
  have "total_money r2 = total_money r"
    unfolding r2 by (simp add: total_money_def addToGameLog_eq map_update_same)
  moreover have "total_money r3 = total_money r2"
    unfolding r3
    by (auto simp: total_money_autoSettle dest: find_idx_SomeD split: option.split)
  ultimately show ?thesis unfolding r' by (simp add: total_money_def)
qed

lemma declareWinner_money:
  assumes run: "declareWinner c p wid r = Inr (r', outs)"
  shows "total_money r' = total_money r"
proof -
  from declareWinner_InrD [OF run] obtain host :: player and w where
    w: "find_idx (\<lambda>q. pid q = wid) (players r) = Some w"
    and r': "r' = (settle w r)\<lparr>gameLog := slice_last 50
              (gameLog r @ [LogWon (name (players r ! w)) (pool r) (name host)])\<rparr>"
    by blast
  from w have "w < length (players r)" by (simp add: find_idx_Some_iff)
  then have "total_money (settle w r) = total_money r" by (rule total_money_settle)
  then show ?thesis unfolding r' by (simp add: total_money_def)
qed

lemma changeTurn_money:
  "changeTurn c p t r = Inr (r', outs) \<Longrightarrow> total_money r' = total_money r"
  by (auto dest!: changeTurn_InrD simp: total_money_def addToGameLog_eq)

lemma placeBid_counters:
  "placeBid c p a r = Inr (r', outs) \<Longrightarrow>
   pool r' = pool r + a \<and> totalBids r' = Suc (totalBids r) \<and> roundNo r' = roundNo r"
  by (auto dest!: placeBid_InrD simp: addToGameLog_eq)

section \<open>The room invariant through the dispatcher\<close>

lemma wf_game_step:
  assumes wf: "wf_room r" and run: "game_step c a r = Inr (r', outs)"
  shows "wf_room r'"
proof (cases a)
  case (ActBid p x)
  then show ?thesis using placeBid_wf run wf by simp
next
  case (ActPack p)
  then show ?thesis using packCards_wf run wf by simp
next
  case (ActReset p)
  then show ?thesis using resetPool_wf run wf by simp
next
  case (ActDeclare p w)
  then show ?thesis using declareWinner_wf run wf by simp
next
  case (ActRemove p t)
  then show ?thesis using removePlayer_wf run wf by simp
next
  case (ActChangeTurn p t)
  then show ?thesis using changeTurn_wf run wf by simp
qed

lemma code_game_step:
  "game_step c a r = Inr (r', outs) \<Longrightarrow> code r' = code r"
  by (cases a)
     (auto dest!: placeBid_InrD packCards_InrD resetPool_InrD declareWinner_InrD
                  removePlayer_InrD changeTurn_InrD
           simp: addToGameLog_eq autoSettle_def settle_def Let_def split: option.splits)

section \<open>Properties of the game actions\<close>

text \<open>The outbox of a successful game action: empty when nothing changed, and otherwise
  ending with the \<open>roomUpdate\<close> of the new room to the whole room.\<close>

lemma game_step_last_update:
  "game_step c a r = Inr (r', outs) \<Longrightarrow> (r' = r \<and> outs = []) \<or> (\<exists>pre. outs = pre @ [(ToRoom c, RoomUpdate r')])"
proof (cases a)
  case (ActPack p)
  then show "game_step c a r = Inr (r', outs) \<Longrightarrow> ?thesis"
    by (auto simp: packCards_def Let_def split: option.splits if_splits prod.splits)
next
  case (ActRemove p t)
  then show "game_step c a r = Inr (r', outs) \<Longrightarrow> ?thesis"
    by (auto simp: removePlayer_def Let_def split: option.splits if_splits)
qed (auto simp: placeBid_def resetPool_def declareWinner_def changeTurn_def Let_def
     split: option.splits if_splits)

text \<open>
  C19: every successful game action (bid, pack, reset, declare, remove, change of turn)
  maps a well-formed room to a well-formed room.
\<close>

theorem game_step_wf:
  assumes wf: "wf_room r" and run: "game_step c a r = Inr (r', outs)"
  shows "wf_room r'"
  using wf_game_step [OF wf run] .

theorem game_step_wf_witness:
  "wf_room (mkroom [mkp ''A'' True False 1000, mkp ''B'' False False 1000] 0 0) \<and>
   (\<exists>r' outs. game_step ''4321'' (ActBid ''id_A'' 100) (mkroom [mkp ''A'' True False 1000, mkp ''B'' False False 1000] 0 0) =
      Inr (r', outs) \<and> wf_room r')"
proof -
  let ?r = "mkroom [mkp ''A'' True False 1000, mkp ''B'' False False 1000] 0 0"
  have wf: "wf_room ?r" by (simp add: wf_room_def mkroom_def mkp_def js_simps)
  obtain r' outs where run: "game_step ''4321'' (ActBid ''id_A'' 100) ?r = Inr (r', outs)"
    by (simp add: placeBid_def Let_def mkroom_def mkp_def)
  from game_step_wf [OF wf run] run wf show ?thesis by blast
qed

text \<open>
  C20: after any successful game action other than a removal, the turn is on a player
  who has not packed unless everybody has packed (the specification's turn invariant),
  whatever the turn was before.
\<close>

theorem game_step_turn_ok:
  assumes wf: "wf_room r" and run: "game_step c a r = Inr (r', outs)"
    and notrm: "\<forall>p t. a \<noteq> ActRemove p t"
  shows "turn_ok r'"
proof (cases a)
  case (ActBid p x)
  then show ?thesis using placeBid_turn_ok run wf by simp
next
  case (ActPack p)
  then show ?thesis using packCards_turn_ok run wf by simp
next
  case (ActReset p)
  then show ?thesis using resetPool_turn_ok run wf by simp
next
  case (ActDeclare p w)
  then show ?thesis using declareWinner_turn_ok run wf by simp
next
  case (ActRemove p t)
  then show ?thesis using notrm by simp
next
  case (ActChangeTurn p t)
  then show ?thesis using changeTurn_turn_ok run by simp
qed

theorem game_step_turn_ok_witness:
  "wf_room (mkroom [mkp ''A'' True False 1000, mkp ''B'' False True 1000, mkp ''C'' False False 1000] 1 0) \<and>
   (\<forall>p t. ActChangeTurn ''id_A'' ''id_C'' \<noteq> ActRemove p t) \<and>
   (\<exists>r' outs. game_step ''4321'' (ActChangeTurn ''id_A'' ''id_C'')
        (mkroom [mkp ''A'' True False 1000, mkp ''B'' False True 1000, mkp ''C'' False False 1000] 1 0) =
      Inr (r', outs) \<and> turn_ok r')"
proof -
  let ?r = "mkroom [mkp ''A'' True False 1000, mkp ''B'' False True 1000, mkp ''C'' False False 1000] 1 0"
  have wf: "wf_room ?r" by (simp add: wf_room_def mkroom_def mkp_def js_simps)
  have nr: "\<forall>p t. ActChangeTurn ''id_A'' ''id_C'' \<noteq> ActRemove p t" by simp
  obtain r' outs where run: "game_step ''4321'' (ActChangeTurn ''id_A'' ''id_C'') ?r = Inr (r', outs)"
    by (simp add: changeTurn_def Let_def mkroom_def mkp_def)
  from game_step_turn_ok [OF wf run nr] run wf nr show ?thesis by blast
qed

text \<open>
  The turn invariant does not survive a removal, and a packed player who is left
  holding the turn can still bid, because \<open>placeBid\<close> checks only whose turn it is.
  In the room A (owner), B (turn), C (packed), D, the owner removes B; the turn index
  stays at 1, which is now the packed C, while A and D are in; C's bid of 10 is
  accepted.
\<close>

theorem removal_leaves_turn_on_packed_player:
  "wf_room (mkroom [mkp ''A'' True False 1000, mkp ''B'' False False 1000, mkp ''C'' False True 1000, mkp ''D'' False False 1000] 1 50) \<and>
   turn_ok (mkroom [mkp ''A'' True False 1000, mkp ''B'' False False 1000, mkp ''C'' False True 1000, mkp ''D'' False False 1000] 1 50) \<and>
   (\<exists>r1 o1 r2 o2.
      removePlayer ''4321'' ''id_A'' ''id_B''
        (mkroom [mkp ''A'' True False 1000, mkp ''B'' False False 1000, mkp ''C'' False True 1000, mkp ''D'' False False 1000] 1 50) =
        Inr (r1, o1) \<and>
      wf_room r1 \<and> \<not> turn_ok r1 \<and> packed (players r1 ! currentTurn r1) \<and>
      placeBid ''4321'' ''id_C'' 10 r1 = Inr (r2, o2) \<and> pool r2 = 60 \<and>
      balance (players r2 ! 1) = 990)"
proof -
  let ?r = "mkroom [mkp ''A'' True False 1000, mkp ''B'' False False 1000, mkp ''C'' False True 1000, mkp ''D'' False False 1000] 1 50"
  let ?ps1 = "[mkp ''A'' True False 1000, mkp ''C'' False True 1000, mkp ''D'' False False 1000]"
  let ?r1 = "(mkroom ?ps1 1 50)\<lparr>gameLog := [LogRemoved ''B'' ''A'']\<rparr>"
  have wf: "wf_room ?r" by (simp add: wf_room_def mkroom_def mkp_def js_simps)
  have ok: "turn_ok ?r" by (simp add: turn_ok_def mkroom_def mkp_def)
  have rm: "removePlayer ''4321'' ''id_A'' ''id_B'' ?r =
      Inr (?r1, [(ToSocket ''sock_B'', PlayerRemoved ''A''),
                 (ToRoom ''4321'', PlayerLeft ''B'' (Some ''A'') ?r1), (ToRoom ''4321'', RoomUpdate ?r1)])"
    by (simp add: removePlayer_def mkroom_def mkp_def Let_def js_simps addToGameLog_eq)
  have wf1: "wf_room ?r1" by (simp add: wf_room_def mkroom_def mkp_def js_simps)
  have bad: "\<not> turn_ok ?r1" "packed (players ?r1 ! currentTurn ?r1)"
    by (simp_all add: turn_ok_def mkroom_def mkp_def)
  obtain r2 o2 where bid: "placeBid ''4321'' ''id_C'' 10 ?r1 = Inr (r2, o2)"
    by (simp add: placeBid_def Let_def mkroom_def mkp_def)
  then have "pool r2 = 60" "balance (players r2 ! 1) = 990"
    by (auto dest!: placeBid_InrD simp: mkroom_def mkp_def addToGameLog_eq)
  then show ?thesis using wf ok rm wf1 bad bid by blast
qed

text \<open>
  C22: bids, packs (with their automatic settlement), declared wins and turn changes
  conserve the money in the room, the balances plus the pool.
\<close>

theorem game_step_money:
  assumes run: "game_step c a r = Inr (r', outs)"
    and kind: "\<forall>p. a \<noteq> ActReset p" "\<forall>p t. a \<noteq> ActRemove p t"
  shows "total_money r' = total_money r"
proof (cases a)
  case (ActBid p x)
  then show ?thesis using placeBid_money run by simp
next
  case (ActPack p)
  then show ?thesis using packCards_money run by simp
next
  case (ActReset p)
  then show ?thesis using kind by simp
next
  case (ActDeclare p w)
  then show ?thesis using declareWinner_money run by simp
next
  case (ActRemove p t)
  then show ?thesis using kind by simp
next
  case (ActChangeTurn p t)
  then show ?thesis using changeTurn_money run by simp
qed

theorem game_step_money_witness:
  "(\<forall>p. ActDeclare ''id_A'' ''id_B'' \<noteq> ActReset p) \<and> (\<forall>p t. ActDeclare ''id_A'' ''id_B'' \<noteq> ActRemove p t) \<and>
   (\<exists>r' outs. game_step ''4321'' (ActDeclare ''id_A'' ''id_B'')
        (mkroom [mkp ''A'' True False 900, mkp ''B'' False False 950] 0 150) = Inr (r', outs) \<and>
      total_money r' = 2000)"
proof -
  let ?r = "mkroom [mkp ''A'' True False 900, mkp ''B'' False False 950] 0 150"
  have k: "\<forall>p. ActDeclare ''id_A'' ''id_B'' \<noteq> ActReset p" "\<forall>p t. ActDeclare ''id_A'' ''id_B'' \<noteq> ActRemove p t"
    by simp_all
  obtain r' outs where run: "game_step ''4321'' (ActDeclare ''id_A'' ''id_B'') ?r = Inr (r', outs)"
    by (simp add: declareWinner_def Let_def mkroom_def mkp_def)
  have "total_money ?r = 2000" by (simp add: total_money_def mkroom_def mkp_def)
  with game_step_money [OF run k] run k show ?thesis by auto
qed

text \<open>
  C23: over any run of successful bids on a room, the pool grows by exactly the sum of
  the amounts bid, the bid counter by the number of bids, and the round does not
  change; from a settled room (pool 0) the pool is the sum of the bids since the
  settlement (specification section 8).
\<close>

theorem run_bids_pool:
  "run_bids c bs r = Inr r' \<Longrightarrow>
   pool r' = pool r + sum_list (map snd bs) \<and> totalBids r' = totalBids r + length bs \<and>
   roundNo r' = roundNo r"
proof (induction bs arbitrary: r)
  case Nil
  then show ?case by simp
next
  case (Cons b bs)
  obtain p a where b: "b = (p, a)" by fastforce
  with Cons.prems obtain r1 outs where
    r1: "placeBid c p a r = Inr (r1, outs)" and rest: "run_bids c bs r1 = Inr r'"
    by (auto split: sum.splits)
  from Cons.IH [OF rest] placeBid_counters [OF r1] b show ?case by simp
qed

theorem run_bids_pool_witness:
  "\<exists>r'. run_bids ''4321'' [(''id_A'', 100), (''id_B'', 50)]
          (mkroom [mkp ''A'' True False 1000, mkp ''B'' False False 1000] 0 0) = Inr r' \<and>
        pool r' = 150 \<and> totalBids r' = 2"
proof -
  let ?r = "mkroom [mkp ''A'' True False 1000, mkp ''B'' False False 1000] 0 0"
  have "\<exists>r'. run_bids ''4321'' [(''id_A'', 100), (''id_B'', 50)] ?r = Inr r'"
    by (simp add: placeBid_def Let_def mkroom_def mkp_def moveToNextActivePlayer_def scanFrom_def
        scanActive.simps addToGameLog_eq)
  then obtain r' where run: "run_bids ''4321'' [(''id_A'', 100), (''id_B'', 50)] ?r = Inr r'" by blast
  from run_bids_pool [OF run] run show ?thesis by (auto simp: mkroom_def)
qed

text \<open>
  C24: \<open>addToGameLog\<close> keeps the most recent 50 entries: the new log is a suffix of the
  old log followed by the new entry, ends with the new entry, and has the length of
  that list capped at 50.
\<close>

theorem addToGameLog_keeps_last_50:
  "length (gameLog (addToGameLog r m)) = min 50 (Suc (length (gameLog r))) \<and>
   (\<exists>pre. gameLog r @ [m] = pre @ gameLog (addToGameLog r m)) \<and>
   last (gameLog (addToGameLog r m)) = m"
proof (intro conjI)
  show "length (gameLog (addToGameLog r m)) = min 50 (Suc (length (gameLog r)))"
    by (simp add: addToGameLog_eq slice_last_def)
  let ?l = "gameLog r @ [m]"
  have "gameLog (addToGameLog r m) = drop (length ?l - 50) ?l"
    by (simp add: addToGameLog_eq slice_last_def)
  then show "\<exists>pre. gameLog r @ [m] = pre @ gameLog (addToGameLog r m)"
    by (intro exI [of _ "take (length ?l - 50) ?l"]) simp
  show "last (gameLog (addToGameLog r m)) = m"
    by (simp add: addToGameLog_eq slice_last_def last_drop)
qed

end
