(* ===== verification/Server.thy ===== *)
theory Server
  imports Game
begin

text \<open>
  The server around the room state machine (\<^verbatim>\<open>src/server.js\<close>): the registry of
  rooms (the \<open>rooms\<close> Map, line 21), the connected sockets with their session fields
  (\<open>socket.roomCode\<close>, \<open>socket.playerId\<close>) and their socket.io room subscriptions,
  and the FIFO of 30-second disconnect timers. Each socket event handler is one
  function from the server state to the new state and the messages it sends; a
  message is delivered to the sockets its target reaches at the moment it is emitted.
  \<open>server_step\<close> dispatches a request to its handler, and \<open>reachable\<close> is the set of
  states the server can reach from the empty registry, the values the code draws
  at random (room code, player id, socket id) being fresh where the code relies on it.
\<close>

section \<open>State\<close>

record session =
  sRoomCode :: "room_code option"
  sPlayerId :: "player_id option"
  joined :: "room_code set"

record server =
  rooms :: "(room_code \<times> room) list"
  socks :: "(socket_id \<times> session) list"
  timers :: "(socket_id \<times> room_code \<times> player_id) list"

text \<open>
  \<open>rooms\<close> is the JavaScript Map as an association list in insertion order:
  \<open>AList.update\<close> is \<open>rooms.set\<close> (an existing key keeps its place, a new key goes
  last) and \<open>AList.delete\<close> is \<open>rooms.delete\<close>. The room objects the handlers mutate
  in place are written back with \<open>AList.update\<close>. A pending timer records the socket
  that dropped, the room code and the player id its closure captured.
\<close>

definition server_init :: server where
  "server_init = \<lparr>rooms = [], socks = [], timers = []\<rparr>"

definition new_session :: session where
  "new_session = \<lparr>sRoomCode = None, sPlayerId = None, joined = {}\<rparr>"

type_synonym wire = "(socket_id list \<times> event) list"

text \<open>The sockets a message reaches, in connection order, and the sending of an outbox.\<close>

definition deliver :: "(socket_id \<times> session) list \<Rightarrow> target \<Rightarrow> socket_id list" where
  "deliver ss t = map fst (filter (\<lambda>(sid, se). reaches t sid (joined se)) ss)"

definition send :: "server \<Rightarrow> outbox \<Rightarrow> wire" where
  "send s outs = map (\<lambda>(t, e). (deliver (socks s) t, e)) outs"

definition set_room :: "room_code \<Rightarrow> room \<Rightarrow> server \<Rightarrow> server" where
  "set_room c r s = s\<lparr>rooms := AList.update c r (rooms s)\<rparr>"

definition bind_socket :: "socket_id \<Rightarrow> room_code \<Rightarrow> player_id \<Rightarrow> server \<Rightarrow> server" where
  "bind_socket sid c p s =
     s\<lparr>socks := AList.map_entry sid
         (\<lambda>se. se\<lparr>joined := insert c (joined se), sPlayerId := Some p, sRoomCode := Some c\<rparr>) (socks s)\<rparr>"

definition error_to :: "server \<Rightarrow> socket_id \<Rightarrow> err \<Rightarrow> server \<times> wire" where
  "error_to s sid e = (s, send s [(ToSocket sid, Error e)])"

section \<open>Handlers\<close>

text \<open>\<open>parseInt(startingBalance) || 1000\<close> for the integer the client sends, or none.\<close>

definition parse_balance :: "int option \<Rightarrow> int" where
  "parse_balance b = (case b of None \<Rightarrow> 1000 | Some n \<Rightarrow> if n = 0 then 1000 else n)"

definition createRoom_h ::
  "server \<Rightarrow> socket_id \<Rightarrow> string \<Rightarrow> int option \<Rightarrow> nat \<Rightarrow> player_id \<Rightarrow> server \<times> wire" where
  "createRoom_h s sid creatorName startBal k playerId =
     (if trim_empty creatorName then error_to s sid EnterName
      else
        let roomCode = generateRoomCode k;
            p = \<lparr>pid = playerId, socketId = sid, name = creatorName,
                 balance = parse_balance startBal, isCreator = True, packed = False\<rparr>;
            r = \<lparr>code = roomCode, creator = creatorName, startingBalance = parse_balance startBal,
                 players = [p], pool = 0, currentTurn = 0, roundNo = 1, gameLog = [], totalBids = 0\<rparr>;
            r1 = addToGameLog r (LogCreated creatorName);
            s1 = bind_socket sid roomCode playerId (set_room roomCode r1 s)
        in (s1, send s1 [(ToSocket sid, RoomCreated roomCode p r1)]))"

definition rejoinRoom_h ::
  "server \<Rightarrow> socket_id \<Rightarrow> room_code \<Rightarrow> player_id \<Rightarrow> string \<Rightarrow> server \<times> wire" where
  "rejoinRoom_h s sid roomCode playerId playerName =
     (if roomCode = [] \<or> playerId = [] \<or> playerName = []
      then (s, send s [(ToSocket sid, RoomRejoinFailed InvalidRejoinData)])
      else case map_of (rooms s) roomCode of
        None \<Rightarrow> (s, send s [(ToSocket sid, RoomRejoinFailed RejoinRoomNotFound)])
      | Some r \<Rightarrow>
          (case rejoinRoom roomCode sid playerId playerName r of
             (None, outs) \<Rightarrow> (s, send s outs)
           | (Some r', outs) \<Rightarrow>
               let s1 = bind_socket sid roomCode playerId (set_room roomCode r' s)
               in (s1, send s1 outs)))"

definition joinRoom_h ::
  "server \<Rightarrow> socket_id \<Rightarrow> string \<Rightarrow> room_code \<Rightarrow> player_id \<Rightarrow> server \<times> wire" where
  "joinRoom_h s sid playerName roomCode playerId =
     (if trim_empty playerName then error_to s sid EnterName
      else if roomCode = [] \<or> length roomCode \<noteq> 4 then error_to s sid InvalidRoomCode
      else case map_of (rooms s) roomCode of
        None \<Rightarrow> error_to s sid RoomNotFound
      | Some r \<Rightarrow>
          (case joinRoom roomCode sid playerId playerName r of
             Inl e \<Rightarrow> error_to s sid e
           | Inr (r', outs) \<Rightarrow>
               let s1 = bind_socket sid roomCode playerId (set_room roomCode r' s)
               in (s1, send s1 outs)))"

text \<open>The game actions as the client requests them; the actor is \<open>socket.playerId\<close>.\<close>

datatype sock_action =
    SBid int
  | SPack
  | SReset
  | SDeclare player_id
  | SRemove player_id
  | SChangeTurn player_id

fun room_action_of :: "player_id \<Rightarrow> sock_action \<Rightarrow> room_action" where
  "room_action_of p (SBid a) = ActBid p a"
| "room_action_of p SPack = ActPack p"
| "room_action_of p SReset = ActReset p"
| "room_action_of p (SDeclare w) = ActDeclare p w"
| "room_action_of p (SRemove t) = ActRemove p t"
| "room_action_of p (SChangeTurn t) = ActChangeTurn p t"

text \<open>
  The prologue every game handler repeats: the socket must carry a room code and a
  player id (else \<open>You are not in a room\<close>), the room must be registered (else
  \<open>Room not found\<close>); then the room operation runs on it, its error goes back to the
  socket, and its new room is kept and its messages are sent.
\<close>

definition room_handler ::
  "server \<Rightarrow> socket_id \<Rightarrow> session \<Rightarrow> (room_code \<Rightarrow> player_id \<Rightarrow> room \<Rightarrow> err + room \<times> outbox) \<Rightarrow>
   server \<times> wire" where
  "room_handler s sid se op =
     (case (sRoomCode se, sPlayerId se) of
        (Some roomCode, Some playerId) \<Rightarrow>
          (case map_of (rooms s) roomCode of
             None \<Rightarrow> error_to s sid RoomNotFound
           | Some r \<Rightarrow>
               (case op roomCode playerId r of
                  Inl e \<Rightarrow> error_to s sid e
                | Inr (r', outs) \<Rightarrow> let s1 = set_room roomCode r' s in (s1, send s1 outs)))
      | _ \<Rightarrow> error_to s sid NotInRoom)"

definition placeBid_h :: "server \<Rightarrow> socket_id \<Rightarrow> session \<Rightarrow> int \<Rightarrow> server \<times> wire" where
  "placeBid_h s sid se amount = room_handler s sid se (\<lambda>c p r. placeBid c p amount r)"

definition packCards_h :: "server \<Rightarrow> socket_id \<Rightarrow> session \<Rightarrow> server \<times> wire" where
  "packCards_h s sid se = room_handler s sid se packCards"

definition resetPool_h :: "server \<Rightarrow> socket_id \<Rightarrow> session \<Rightarrow> server \<times> wire" where
  "resetPool_h s sid se = room_handler s sid se resetPool"

definition declareWinner_h :: "server \<Rightarrow> socket_id \<Rightarrow> session \<Rightarrow> player_id \<Rightarrow> server \<times> wire" where
  "declareWinner_h s sid se winnerId = room_handler s sid se (\<lambda>c p r. declareWinner c p winnerId r)"

definition removePlayer_h :: "server \<Rightarrow> socket_id \<Rightarrow> session \<Rightarrow> player_id \<Rightarrow> server \<times> wire" where
  "removePlayer_h s sid se playerIdToRemove =
     room_handler s sid se (\<lambda>c p r. removePlayer c p playerIdToRemove r)"

definition changeTurn_h :: "server \<Rightarrow> socket_id \<Rightarrow> session \<Rightarrow> player_id \<Rightarrow> server \<times> wire" where
  "changeTurn_h s sid se newTurnPlayerId =
     room_handler s sid se (\<lambda>c p r. changeTurn c p newTurnPlayerId r)"

text \<open>socket.io's dispatch of the six game events to their handlers.\<close>

fun action_h :: "server \<Rightarrow> socket_id \<Rightarrow> session \<Rightarrow> sock_action \<Rightarrow> server \<times> wire" where
  "action_h s sid se (SBid amount) = placeBid_h s sid se amount"
| "action_h s sid se SPack = packCards_h s sid se"
| "action_h s sid se SReset = resetPool_h s sid se"
| "action_h s sid se (SDeclare w) = declareWinner_h s sid se w"
| "action_h s sid se (SRemove t) = removePlayer_h s sid se t"
| "action_h s sid se (SChangeTurn t) = changeTurn_h s sid se t"

definition leaveRoom_h :: "server \<Rightarrow> socket_id \<Rightarrow> session \<Rightarrow> server \<times> wire" where
  "leaveRoom_h s sid se =
     (case (sRoomCode se, sPlayerId se) of
        (Some roomCode, Some playerId) \<Rightarrow>
          (case map_of (rooms s) roomCode of
             None \<Rightarrow> (s, [])
           | Some r \<Rightarrow>
               (case leaveRoom roomCode playerId r of
                  (ro, outs) \<Rightarrow>
                    let s1 = (case ro of None \<Rightarrow> s\<lparr>rooms := AList.delete roomCode (rooms s)\<rparr>
                                       | Some r' \<Rightarrow> set_room roomCode r' s);
                        w = send s1 outs;
                        s2 = s1\<lparr>socks := AList.map_entry sid
                               (\<lambda>se. se\<lparr>joined := joined se - {roomCode}, sPlayerId := None,
                                        sRoomCode := None\<rparr>) (socks s1)\<rparr>
                    in (s2, w)))
      | _ \<Rightarrow> (s, []))"

text \<open>
  On \<open>disconnect\<close> the socket is gone (socket.io drops its subscriptions); the handler
  walks the rooms in the Map's order and arms one timer for the first room with a
  player on that socket (the loop \<open>break\<close>s).
\<close>

definition disconnect_h :: "server \<Rightarrow> socket_id \<Rightarrow> server \<times> wire" where
  "disconnect_h s sid =
     (let s1 = s\<lparr>socks := AList.delete sid (socks s)\<rparr>
      in case List.find (\<lambda>(c, r). list_ex (\<lambda>p. socketId p = sid) (players r)) (rooms s) of
           None \<Rightarrow> (s1, [])
         | Some (roomCode, r) \<Rightarrow>
             (case List.find (\<lambda>p. socketId p = sid) (players r) of
                None \<Rightarrow> (s1, [])
              | Some p \<Rightarrow> (s1\<lparr>timers := timers s @ [(sid, roomCode, pid p)]\<rparr>, [])))"

text \<open>The oldest pending timer fires (all timers have the same 30-second delay).\<close>

definition fire_timer :: "server \<Rightarrow> server \<times> wire" where
  "fire_timer s =
     (case timers s of
        [] \<Rightarrow> (s, [])
      | (sid, roomCode, playerId) # ts \<Rightarrow>
          let s0 = s\<lparr>timers := ts\<rparr>
          in case map_of (rooms s) roomCode of
               None \<Rightarrow> (s0, [])
             | Some r \<Rightarrow>
                 (case List.find (\<lambda>p. pid p = playerId) (players r) of
                    None \<Rightarrow> (s0, [])
                  | Some p \<Rightarrow>
                      if socketId p = sid then
                        (case timeoutRemove roomCode playerId r of
                           (None, outs) \<Rightarrow>
                             let s1 = s0\<lparr>rooms := AList.delete roomCode (rooms s0)\<rparr> in (s1, send s1 outs)
                         | (Some r', outs) \<Rightarrow>
                             let s1 = set_room roomCode r' s0 in (s1, send s1 outs))
                      else (s0, [])))"

section \<open>Requests and the step function\<close>

datatype request =
    Connect socket_id
  | CreateRoom socket_id string "int option" nat player_id
  | RejoinRoom socket_id room_code player_id string
  | JoinRoom socket_id string room_code player_id
  | Action socket_id sock_action
  | LeaveRoom socket_id
  | Disconnect socket_id
  | FireTimer

fun server_step :: "server \<Rightarrow> request \<Rightarrow> server \<times> wire" where
  "server_step s (Connect sid) =
     (case map_of (socks s) sid of
        None \<Rightarrow> (s\<lparr>socks := socks s @ [(sid, new_session)]\<rparr>, [])
      | Some _ \<Rightarrow> (s, []))"
| "server_step s FireTimer = fire_timer s"
| "server_step s (CreateRoom sid n b k p) =
     (if map_of (socks s) sid = None then (s, []) else createRoom_h s sid n b k p)"
| "server_step s (RejoinRoom sid c p n) =
     (if map_of (socks s) sid = None then (s, []) else rejoinRoom_h s sid c p n)"
| "server_step s (JoinRoom sid n c p) =
     (if map_of (socks s) sid = None then (s, []) else joinRoom_h s sid n c p)"
| "server_step s (Action sid a) =
     (case map_of (socks s) sid of None \<Rightarrow> (s, []) | Some se \<Rightarrow> action_h s sid se a)"
| "server_step s (LeaveRoom sid) =
     (case map_of (socks s) sid of None \<Rightarrow> (s, []) | Some se \<Rightarrow> leaveRoom_h s sid se)"
| "server_step s (Disconnect sid) =
     (if map_of (socks s) sid = None then (s, []) else disconnect_h s sid)"

section \<open>Reachable states\<close>

text \<open>
  A player id is fresh when no room has a player with it; a socket id is fresh when no
  socket, player or timer uses it. The code draws both at random (\<open>generatePlayerId\<close>,
  socket.io's ids) and relies on their being new; the room-code draw \<open>k\<close> is in the
  range of \<open>Math.floor(Math.random() * 9000)\<close> and is not required to be new.
\<close>

definition fresh_pid :: "server \<Rightarrow> player_id \<Rightarrow> bool" where
  "fresh_pid s p \<longleftrightarrow> list_all (\<lambda>(c, r). list_all (\<lambda>q. pid q \<noteq> p) (players r)) (rooms s)"

definition fresh_sid :: "server \<Rightarrow> socket_id \<Rightarrow> bool" where
  "fresh_sid s sid \<longleftrightarrow>
     map_of (socks s) sid = None \<and>
     list_all (\<lambda>(c, r). list_all (\<lambda>q. socketId q \<noteq> sid) (players r)) (rooms s) \<and>
     list_all (\<lambda>(t, c, p). t \<noteq> sid) (timers s)"

fun req_ok :: "server \<Rightarrow> request \<Rightarrow> bool" where
  "req_ok s (Connect sid) = fresh_sid s sid"
| "req_ok s (CreateRoom sid n b k p) = (k < 9000 \<and> fresh_pid s p)"
| "req_ok s (JoinRoom sid n c p) = fresh_pid s p"
| "req_ok s _ = True"

inductive reachable :: "server \<Rightarrow> bool" where
  init: "reachable server_init"
| step: "reachable s \<Longrightarrow> req_ok s req \<Longrightarrow> server_step s req = (s', w) \<Longrightarrow> reachable s'"

text \<open>What every reachable state satisfies: room codes and socket ids are keys at most
  once, each room is well formed and is stored under its own code.\<close>

definition server_inv :: "server \<Rightarrow> bool" where
  "server_inv s \<longleftrightarrow>
     distinct (map fst (rooms s)) \<and> distinct (map fst (socks s)) \<and>
     list_all (\<lambda>(c, r). wf_room r \<and> code r = c) (rooms s)"

text \<open>A sequence of requests handled one after the other, and whether each one
  satisfies the freshness assumptions in the state it meets.\<close>

fun run_steps :: "server \<Rightarrow> request list \<Rightarrow> server" where
  "run_steps s [] = s"
| "run_steps s (q # qs) = run_steps (fst (server_step s q)) qs"

declare run_steps.simps [simp del]

fun ok_run :: "server \<Rightarrow> request list \<Rightarrow> bool" where
  "ok_run s [] = True"
| "ok_run s (q # qs) = (req_ok s q \<and> ok_run (fst (server_step s q)) qs)"

section \<open>The registry and the sessions\<close>

lemma action_h_game_step:
  "action_h s sid se a = room_handler s sid se (\<lambda>c p r. game_step c (room_action_of p a) r)"
  by (cases a)
     (simp_all add: placeBid_h_def packCards_h_def resetPool_h_def declareWinner_h_def
                    removePlayer_h_def changeTurn_h_def)

lemma list_all_alist_update:
  "list_all P al \<Longrightarrow> P (k, v) \<Longrightarrow> list_all P (AList.update k v al)"
  by (induction al) auto

lemma length_alist_update:
  "k \<in> fst ` set al \<Longrightarrow> length (AList.update k v al) = length al"
  by (induction al) auto

lemma list_all_alist_delete: "list_all P al \<Longrightarrow> list_all P (AList.delete k al)"
  by (simp add: AList.delete_eq list_all_iff)

lemma map_of_rooms_inv:
  "server_inv s \<Longrightarrow> map_of (rooms s) c = Some r \<Longrightarrow> wf_room r \<and> code r = c"
  by (auto simp: server_inv_def list_all_iff dest: map_of_SomeD)

lemma fresh_pid_room:
  "fresh_pid s p \<Longrightarrow> map_of (rooms s) c = Some r \<Longrightarrow> p \<notin> pid ` set (players r)"
  by (auto simp: fresh_pid_def list_all_iff dest!: map_of_SomeD)

lemma server_inv_set_room:
  "server_inv s \<Longrightarrow> wf_room r \<Longrightarrow> code r = c \<Longrightarrow> server_inv (set_room c r s)"
  by (simp add: server_inv_def set_room_def distinct_update list_all_alist_update)

lemma server_inv_delete_room:
  "server_inv s \<Longrightarrow> server_inv (s\<lparr>rooms := AList.delete c (rooms s)\<rparr>)"
  by (simp add: server_inv_def distinct_delete list_all_alist_delete)

lemma server_inv_socks:
  "server_inv s \<Longrightarrow> map fst ss = map fst (socks s) \<Longrightarrow> server_inv (s\<lparr>socks := ss\<rparr>)"
  by (simp add: server_inv_def)

lemma map_fst_map_entry: "map fst (AList.map_entry k f xs) = map fst xs"
  by (induction xs) auto

lemma server_inv_bind_socket [simp]: "server_inv (bind_socket sid c p s) = server_inv s"
  by (simp add: server_inv_def bind_socket_def map_fst_map_entry)

lemma server_inv_timers [simp]:
  "server_inv (s\<lparr>timers := ts\<rparr>) = server_inv s"
  "server_inv (s\<lparr>timers := ts, rooms := rs\<rparr>) = server_inv (s\<lparr>rooms := rs\<rparr>)"
  by (simp_all add: server_inv_def)

lemma fst_send [simp]: "map snd (send s outs) = map snd outs"
  by (induction outs) (auto simp: send_def)

section \<open>Each handler keeps the registry invariant\<close>

lemma code_rejoinRoom: "fst (rejoinRoom c s p n r) = Some r' \<Longrightarrow> code r' = code r"
  by (auto simp: rejoinRoom_def Let_def addToGameLog_eq split: option.splits)

lemma code_joinRoom: "joinRoom c s p n r = Inr (r', outs) \<Longrightarrow> code r' = code r"
  by (auto dest!: joinRoom_InrD simp: addToGameLog_eq)

lemma code_depart: "depart m i r = Some r' \<Longrightarrow> code r' = code r"
  by (auto simp: depart_def Let_def addToGameLog_eq split: if_splits)

lemma code_leaveRoom:
  assumes "fst (leaveRoom c p r) = Some r'"
  shows "code r' = code r"
proof (cases "find_idx (\<lambda>q. pid q = p) (players r)")
  case None
  then show ?thesis using assms by (simp add: leaveRoom_def del: find_idx_None_iff)
next
  case (Some i)
  then show ?thesis using assms leaveRoom_depart [OF Some, of c] by (simp add: code_depart)
qed

lemma code_timeoutRemove:
  assumes "fst (timeoutRemove c p r) = Some r'"
  shows "code r' = code r"
proof (cases "find_idx (\<lambda>q. pid q = p) (players r)")
  case None
  then show ?thesis using assms by (simp add: timeoutRemove_def del: find_idx_None_iff)
next
  case (Some i)
  then show ?thesis using assms timeoutRemove_depart [OF Some, of c] by (simp add: code_depart)
qed


lemma server_inv_update_room:
  assumes "server_inv s" and "map_of (rooms s) c = Some r"
    and "wf_room r \<Longrightarrow> wf_room r'" and "code r' = code r"
  shows "server_inv (set_room c r' s)"
  using assms map_of_rooms_inv [OF assms(1,2)] by (intro server_inv_set_room) simp_all

lemma rejoinRoom_pair:
  "rejoinRoom c s p n r = (Some r', outs) \<Longrightarrow> (wf_room r \<longrightarrow> wf_room r') \<and> code r' = code r"
  using rejoinRoom_wf [of c s p n r r'] code_rejoinRoom [of c s p n r r'] by simp

lemma joinRoom_pair:
  "joinRoom c s p n r = Inr (r', outs) \<Longrightarrow> p \<notin> pid ` set (players r) \<Longrightarrow>
   (wf_room r \<longrightarrow> wf_room r') \<and> code r' = code r"
  using joinRoom_wf [of c s p n r r' outs] code_joinRoom [of c s p n r r' outs] by simp

lemma leaveRoom_pair:
  "leaveRoom c p r = (Some r', outs) \<Longrightarrow> (wf_room r \<longrightarrow> wf_room r') \<and> code r' = code r"
  using leaveRoom_wf [of c p r r'] code_leaveRoom [of c p r r'] by simp

lemma timeoutRemove_pair:
  "timeoutRemove c p r = (Some r', outs) \<Longrightarrow> (wf_room r \<longrightarrow> wf_room r') \<and> code r' = code r"
  using timeoutRemove_wf [of c p r r'] code_timeoutRemove [of c p r r'] by simp

lemma wf_room_created:
  "wf_room \<lparr>code = c, creator = n, startingBalance = b,
     players = [\<lparr>pid = p, socketId = sid, name = n, balance = b, isCreator = True, packed = False\<rparr>],
     pool = 0, currentTurn = 0, roundNo = 1, gameLog = [], totalBids = 0\<rparr>"
  by (simp add: wf_room_def)

lemma connect_inv:
  "server_inv s \<Longrightarrow> server_step s (Connect sid) = (s', w) \<Longrightarrow> server_inv s'"
  by (auto simp: server_inv_def split: option.splits)

lemma createRoom_h_inv:
  assumes inv: "server_inv s" and run: "createRoom_h s sid n b k p = (s', w)"
  shows "server_inv s'"
proof (cases "trim_empty n")
  case True
  then show ?thesis using inv run by (simp add: createRoom_h_def error_to_def)
next
  case False
  let ?r = "\<lparr>code = generateRoomCode k, creator = n, startingBalance = parse_balance b,
     players = [\<lparr>pid = p, socketId = sid, name = n, balance = parse_balance b, isCreator = True,
                 packed = False\<rparr>],
     pool = 0, currentTurn = 0, roundNo = 1, gameLog = [], totalBids = 0\<rparr>"
  have "server_inv (set_room (generateRoomCode k) (addToGameLog ?r (LogCreated n)) s)"
    by (rule server_inv_set_room [OF inv]) (simp add: wf_room_created, simp add: addToGameLog_eq)
  then show ?thesis using run False by (auto simp: createRoom_h_def Let_def)
qed

lemma rejoinRoom_h_inv:
  "server_inv s \<Longrightarrow> rejoinRoom_h s sid c p n = (s', w) \<Longrightarrow> server_inv s'"
  by (auto simp: rejoinRoom_h_def Let_def split: if_splits option.splits prod.splits
           dest!: rejoinRoom_pair intro: server_inv_update_room)

lemma joinRoom_h_inv:
  "server_inv s \<Longrightarrow> fresh_pid s p \<Longrightarrow> joinRoom_h s sid n c p = (s', w) \<Longrightarrow> server_inv s'"
  by (auto simp: joinRoom_h_def error_to_def Let_def split: if_splits option.splits sum.splits prod.splits
           dest!: joinRoom_pair [OF _ fresh_pid_room] intro: server_inv_update_room)

lemma action_h_inv:
  "server_inv s \<Longrightarrow> action_h s sid se a = (s', w) \<Longrightarrow> server_inv s'"
  by (auto simp: action_h_game_step room_handler_def error_to_def Let_def
           split: option.splits sum.splits prod.splits
           intro!: server_inv_update_room intro: wf_game_step code_game_step)

lemma leaveRoom_h_inv:
  "server_inv s \<Longrightarrow> leaveRoom_h s sid se = (s', w) \<Longrightarrow> server_inv s'"
  by (auto simp: leaveRoom_h_def Let_def map_fst_map_entry split: option.splits prod.splits
           dest!: leaveRoom_pair
           intro!: server_inv_socks server_inv_delete_room intro: server_inv_update_room)

lemma disconnect_h_inv:
  "server_inv s \<Longrightarrow> disconnect_h s sid = (s', w) \<Longrightarrow> server_inv s'"
  by (auto simp: disconnect_h_def Let_def server_inv_def distinct_delete split: option.splits prod.splits)

lemma fire_timer_inv:
  "server_inv s \<Longrightarrow> fire_timer s = (s', w) \<Longrightarrow> server_inv s'"
  by (auto simp: fire_timer_def Let_def split: list.splits option.splits prod.splits if_splits
           dest!: timeoutRemove_pair
           intro!: server_inv_delete_room intro: server_inv_update_room)

lemma server_step_inv:
  assumes inv: "server_inv s" and ok: "req_ok s req" and run: "server_step s req = (s', w)"
  shows "server_inv s'"
proof (cases req)
  case (Connect sid)
  then show ?thesis using connect_inv inv run by blast
next
  case (CreateRoom sid n b k p)
  then show ?thesis using createRoom_h_inv inv run by (auto split: if_splits)
next
  case (RejoinRoom sid c p n)
  then show ?thesis using rejoinRoom_h_inv inv run by (auto split: if_splits)
next
  case (JoinRoom sid n c p)
  then show ?thesis using joinRoom_h_inv inv run ok by (auto split: if_splits)
next
  case (Action sid a)
  then show ?thesis using action_h_inv inv run by (auto split: option.splits)
next
  case (LeaveRoom sid)
  then show ?thesis using leaveRoom_h_inv inv run by (auto split: option.splits)
next
  case (Disconnect sid)
  then show ?thesis using disconnect_h_inv inv run by (auto split: if_splits)
next
  case FireTimer
  then show ?thesis using fire_timer_inv inv run by simp
qed

lemma reachable_server_inv_helper: "reachable s \<Longrightarrow> server_inv s"
proof (induction rule: reachable.induct)
  case init
  then show ?case by (simp add: server_inv_def server_init_def)
next
  case (step s req s' w)
  then show ?case using server_step_inv by blast
qed


lemma reachable_run: "reachable s \<Longrightarrow> ok_run s qs \<Longrightarrow> reachable (run_steps s qs)"
proof (induction qs arbitrary: s)
  case Nil
  then show ?case by (simp add: run_steps.simps)
next
  case (Cons q qs)
  obtain s' w where st: "server_step s q = (s', w)" by fastforce
  with Cons.prems have "reachable s'" by (auto intro: reachable.step)
  with Cons.IH Cons.prems st show ?case by (simp add: run_steps.simps)
qed

lemma run_steps_snoc: "run_steps s (qs @ [q]) = fst (server_step (run_steps s qs) q)"
  by (induction qs arbitrary: s) (simp_all add: run_steps.simps)

lemma ok_run_snoc: "ok_run s (qs @ [q]) \<longleftrightarrow> ok_run s qs \<and> req_ok (run_steps s qs) q"
  by (induction qs arbitrary: s) (simp_all add: run_steps.simps)

text \<open>The reachable states are exactly the states that runs of requests meeting the
  freshness assumptions lead to from the empty server.\<close>

lemma reachable_iff_run: "reachable s \<longleftrightarrow> (\<exists>qs. ok_run server_init qs \<and> s = run_steps server_init qs)"
proof
  assume "reachable s"
  then show "\<exists>qs. ok_run server_init qs \<and> s = run_steps server_init qs"
  proof (induction rule: reachable.induct)
    case init
    show ?case by (intro exI [of _ "[]"]) (simp add: run_steps.simps)
  next
    case (step s req s' w)
    then obtain qs where "ok_run server_init qs" "s = run_steps server_init qs" by blast
    then show ?case using step.hyps(2,3)
      by (intro exI [of _ "qs @ [req]"]) (simp add: ok_run_snoc run_steps_snoc)
  qed
next
  assume "\<exists>qs. ok_run server_init qs \<and> s = run_steps server_init qs"
  then show "reachable s" using reachable_run reachable.init by blast
qed

lemma game_step_not_TypeError:
  "wf_room r \<Longrightarrow> game_step c a r \<noteq> Inl TypeError"
  by (cases a)
     (auto simp: wf_room_def placeBid_def packCards_def resetPool_def declareWinner_def
                 removePlayer_def changeTurn_def Let_def split: option.splits if_splits prod.splits)


lemma find_pid_distinct:
  "distinct (map pid ps) \<Longrightarrow> q \<in> set ps \<Longrightarrow> List.find (\<lambda>x. pid x = pid q) ps = Some q"
proof (induction ps)
  case Nil
  then show ?case by simp
next
  case (Cons x xs)
  then show ?case by (cases "x = q") (auto simp: image_iff)
qed

lemma nth_notin_splice1:
  assumes "distinct xs" and "i < length xs"
  shows "xs ! i \<notin> set (splice1 i xs)"
proof -
  have "distinct (take i xs @ xs ! i # drop (Suc i) xs)"
    using assms splice1_split [OF assms(2)] by simp
  then show ?thesis by (simp add: splice1_def)
qed

lemma depart_pids:
  "depart m i r = Some r' \<Longrightarrow> map pid (players r') = map pid (splice1 i (players r))"
  by (auto simp: depart_def Let_def addToGameLog_eq map_update_same split: if_splits)

lemma bound_room:
  assumes inv: "server_inv s"
    and first: "List.find (\<lambda>(c', r'). list_ex (\<lambda>q. socketId q = sid) (players r')) (rooms s) = Some (c, r)"
  shows "map_of (rooms s) c = Some r \<and> wf_room r"
proof -
  have "(c, r) \<in> set (rooms s)" using find_SomeD [OF first] by blast
  moreover have "distinct (map fst (rooms s))" using inv by (simp add: server_inv_def)
  ultimately have "map_of (rooms s) c = Some r" by (simp add: map_of_is_SomeI)
  with map_of_rooms_inv [OF inv] show ?thesis by blast
qed

lemma disconnect_bound:
  assumes tm: "timers s = []" and conn: "map_of (socks s) sid \<noteq> None"
    and first: "List.find (\<lambda>(c', r'). list_ex (\<lambda>q. socketId q = sid) (players r')) (rooms s) = Some (c, r)"
    and pl: "List.find (\<lambda>q. socketId q = sid) (players r) = Some q0"
  shows "server_step s (Disconnect sid) =
           (s\<lparr>socks := AList.delete sid (socks s), timers := [(sid, c, pid q0)]\<rparr>, [])"
  using assms by (auto simp: disconnect_h_def Let_def)

lemma bound_player:
  assumes wf: "wf_room r" and pl: "List.find (\<lambda>q. socketId q = sid) (players r) = Some q0"
  shows "List.find (\<lambda>x. pid x = pid q0) (players r) = Some q0 \<and> socketId q0 = sid \<and>
         (\<exists>i. find_idx (\<lambda>x. pid x = pid q0) (players r) = Some i \<and> players r ! i = q0 \<and> i < length (players r))"
proof -
  have q0: "q0 \<in> set (players r)" and sk: "socketId q0 = sid"
    using find_SomeD [OF pl] by blast+
  have d: "distinct (map pid (players r))" using wf by (simp add: wf_room_def)
  from q0 obtain i where i: "i < length (players r)" "players r ! i = q0" by (auto simp: in_set_conv_nth)
  have "find_idx (\<lambda>x. pid x = pid q0) (players r) = Some i"
    using find_idx_distinct_key [OF d i(1)] i(2) by simp
  with find_pid_distinct [OF d q0] sk i show ?thesis by blast
qed

section \<open>Properties of the server\<close>

lemma set_room_other: "c' \<noteq> c \<Longrightarrow> map_of (rooms (set_room c' r s)) c = map_of (rooms s) c"
  by (simp add: set_room_def update_conv')

text \<open>The broadcaster's contract for a game action: a step that changes room \<open>c\<close> stores
  the new room and sends it, last, to the room's subscribers.\<close>

lemma action_step_game:
  assumes st: "server_step s (Action sid a) = (s', w)"
    and ch: "map_of (rooms s') c \<noteq> map_of (rooms s) c"
  shows "\<exists>se p r r' outs. map_of (socks s) sid = Some se \<and> sRoomCode se = Some c \<and>
           sPlayerId se = Some p \<and> map_of (rooms s) c = Some r \<and>
           game_step c (room_action_of p a) r = Inr (r', outs) \<and> s' = set_room c r' s \<and> w = send s' outs"
proof -
  obtain se where se: "map_of (socks s) sid = Some se"
    using st ch by (cases "map_of (socks s) sid") auto
  obtain c0 p0 r0 where sess: "sRoomCode se = Some c0" "sPlayerId se = Some p0"
      and rm: "map_of (rooms s) c0 = Some r0"
    using st ch se
    by (auto simp: action_h_game_step room_handler_def error_to_def split: option.splits)
  obtain r'' outs where gs: "game_step c0 (room_action_of p0 a) r0 = Inr (r'', outs)"
      and s': "s' = set_room c0 r'' s" and w: "w = send s' outs"
    using st ch se sess rm
    by (auto simp: action_h_game_step room_handler_def error_to_def Let_def split: sum.splits prod.splits)
  have "c0 = c" using ch s' set_room_other by metis
  then show ?thesis using se sess rm gs s' w by blast
qed


lemma action_changes_room:
  assumes st: "server_step s (Action sid a) = (s', w)"
    and ch: "map_of (rooms s') c \<noteq> map_of (rooms s) c"
  shows "\<exists>pre r'. map_of (rooms s') c = Some r' \<and> socks s' = socks s \<and>
                  w = send s' (pre @ [(ToRoom c, RoomUpdate r')])"
proof -
  obtain se p r r'' outs where rm: "map_of (rooms s) c = Some r"
      and gs: "game_step c (room_action_of p a) r = Inr (r'', outs)"
      and s': "s' = set_room c r'' s" and w: "w = send s' outs"
    using action_step_game [OF st ch] by blast
  have r'': "map_of (rooms s') c = Some r''" using s' by (simp add: set_room_def update_conv')
  have "\<not> (r'' = r \<and> outs = [])" using ch r'' rm by auto
  then obtain pre where "outs = pre @ [(ToRoom c, RoomUpdate r'')]"
    using game_step_last_update [OF gs] by blast
  then show ?thesis using r'' s' w by (auto simp: set_room_def)
qed


lemma remove_step_game:
  assumes st: "server_step s (Action sid (SRemove t)) = (s', w)"
    and ch: "map_of (rooms s') c \<noteq> map_of (rooms s) c" and inv: "server_inv s"
  shows "\<exists>p r r' outs i. map_of (rooms s) c = Some r \<and> wf_room r \<and> removePlayer c p t r = Inr (r', outs) \<and>
           i < length (players r) \<and> t = pid (players r ! i) \<and> players r' = splice1 i (players r) \<and>
           s' = set_room c r' s \<and> w = send s' outs"
proof -
  obtain se p r r' outs where rm: "map_of (rooms s) c = Some r"
      and gs: "removePlayer c p t r = Inr (r', outs)"
      and s': "s' = set_room c r' s" and w: "w = send s' outs"
    using action_step_game [OF st ch] by auto
  have wf: "wf_room r" using map_of_rooms_inv [OF inv rm] by blast
  obtain i where i: "find_idx (\<lambda>q. pid q = t) (players r) = Some i"
    using removePlayer_InrD [OF gs] by blast
  have il: "i < length (players r)" and ti: "t = pid (players r ! i)"
    using find_idx_SomeD [OF i] by simp_all
  have "players r' = splice1 i (players r)"
    using removePlayer_turn [OF wf il] gs ti by blast
  then show ?thesis using rm wf gs il ti s' w by blast
qed


lemma action_h_state:
  "sRoomCode se = sRoomCode se' \<Longrightarrow> sPlayerId se = sPlayerId se' \<Longrightarrow>
   fst (action_h s sid se a) = fst (action_h s sid' se' a)"
  by (simp add: action_h_game_step room_handler_def error_to_def Let_def
           split: option.split sum.split prod.split)

text \<open>
  C25: every state the server reaches from the empty registry satisfies the registry
  invariant: room codes and socket ids are unique keys, and every registered room is
  well formed (\<open>wf_room\<close>) and stored under its own code. Proved by rule induction
  over \<open>reachable\<close>, one lemma per handler.
\<close>

theorem reachable_server_inv:
  "reachable s \<Longrightarrow> server_inv s"
  by (rule reachable_server_inv_helper)

theorem reachable_server_inv_witness:
  "reachable (run_steps server_init [Connect ''sA'', CreateRoom ''sA'' ''A'' (Some 500) 321 ''pA'',
      Connect ''sB'', JoinRoom ''sB'' ''B'' ''1321'' ''pB'', Action ''sA'' (SBid 100)]) \<and>
   server_inv (run_steps server_init [Connect ''sA'', CreateRoom ''sA'' ''A'' (Some 500) 321 ''pA'',
      Connect ''sB'', JoinRoom ''sB'' ''B'' ''1321'' ''pB'', Action ''sA'' (SBid 100)])"
proof -
  have "ok_run server_init [Connect ''sA'', CreateRoom ''sA'' ''A'' (Some 500) 321 ''pA'',
      Connect ''sB'', JoinRoom ''sB'' ''B'' ''1321'' ''pB'', Action ''sA'' (SBid 100)]"
    by code_simp
  then have r: "reachable (run_steps server_init [Connect ''sA'', CreateRoom ''sA'' ''A'' (Some 500) 321 ''pA'',
      Connect ''sB'', JoinRoom ''sB'' ''B'' ''1321'' ''pB'', Action ''sA'' (SBid 100)])"
    by (rule reachable_run [OF reachable.init])
  with reachable_server_inv [OF r] show ?thesis by blast
qed

text \<open>
  C26: in a reachable state no game action on a registered room fails with the
  \<open>TypeError\<close> that \<open>room.players[room.currentTurn].id\<close> would throw: the turn
  index of every registered room is in range.
\<close>

theorem reachable_no_TypeError:
  "reachable s \<Longrightarrow> map_of (rooms s) c = Some r \<Longrightarrow> game_step c a r \<noteq> Inl TypeError"
  using reachable_server_inv_helper map_of_rooms_inv game_step_not_TypeError by blast

theorem reachable_no_TypeError_witness:
  "reachable (run_steps server_init [Connect ''sA'', CreateRoom ''sA'' ''A'' None 321 ''pA'']) \<and>
   map_of (rooms (run_steps server_init [Connect ''sA'', CreateRoom ''sA'' ''A'' None 321 ''pA''])) ''1321'' =
     Some (the (map_of (rooms (run_steps server_init [Connect ''sA'', CreateRoom ''sA'' ''A'' None 321 ''pA''])) ''1321'')) \<and>
   game_step ''1321'' (ActBid ''pA'' 5)
     (the (map_of (rooms (run_steps server_init [Connect ''sA'', CreateRoom ''sA'' ''A'' None 321 ''pA''])) ''1321'')) \<noteq> Inl TypeError"
proof -
  let ?s = "run_steps server_init [Connect ''sA'', CreateRoom ''sA'' ''A'' None 321 ''pA'']"
  have "ok_run server_init [Connect ''sA'', CreateRoom ''sA'' ''A'' None 321 ''pA'']" by code_simp
  then have r: "reachable ?s" by (rule reachable_run [OF reachable.init])
  have m: "map_of (rooms ?s) ''1321'' = Some (the (map_of (rooms ?s) ''1321''))" by code_simp
  from reachable_no_TypeError [OF r m] r m show ?thesis by blast
qed


lemma depart_removes_pid:
  assumes wf: "wf_room r" and il: "i < length (players r)" and dp: "depart m i r = Some r'"
  shows "pid (players r ! i) \<notin> pid ` set (players r')"
proof -
  have "map pid (players r') = splice1 i (map pid (players r))"
    using depart_pids [of m i r r'] dp by (simp add: map_splice1)
  moreover have "map pid (players r) ! i \<notin> set (splice1 i (map pid (players r)))"
    using wf il by (intro nth_notin_splice1) (simp_all add: wf_room_def)
  ultimately show ?thesis using il by (metis list.set_map nth_map)
qed

lemma rejoin_absent_fails:
  assumes ne: "c \<noteq> []" "p \<noteq> []" "n \<noteq> []" "map_of (socks s) sid \<noteq> None"
    and gone: "\<forall>r. map_of (rooms s) c = Some r \<longrightarrow> p \<notin> pid ` set (players r)"
  shows "\<exists>f w. server_step s (RejoinRoom sid c p n) = (s, w) \<and> map snd w = [RoomRejoinFailed f]"
proof (cases "map_of (rooms s) c")
  case None
  then show ?thesis using ne by (auto simp: rejoinRoom_h_def)
next
  case (Some r)
  then have "find_idx (\<lambda>x. pid x = p) (players r) = None"
    using gone find_idx_pid_None by blast
  then show ?thesis using ne Some by (auto simp: rejoinRoom_h_def rejoinRoom_def simp del: find_idx_None_iff)
qed

text \<open>
  C27: a player whose connection drops and who does not reconnect is removed when the
  grace timer fires, and afterwards the player id no longer resolves: a rejoin with it
  is refused, whether the room still exists or was deleted (specification section 8).
  The socket is the one the \<open>disconnect\<close> handler finds first: the first registered
  room with a player on that socket, and the first such player.
\<close>

theorem disconnect_timeout_removes:
  assumes inv: "server_inv s" and tm: "timers s = []" and conn: "map_of (socks s) sid \<noteq> None"
    and first: "List.find (\<lambda>(c', r'). list_ex (\<lambda>q. socketId q = sid) (players r')) (rooms s) = Some (c, r)"
    and pl: "List.find (\<lambda>q. socketId q = sid) (players r) = Some q0"
    and st1: "server_step s (Disconnect sid) = (s1, w1)" and st2: "server_step s1 FireTimer = (s2, w2)"
  shows "timers s2 = [] \<and> (\<forall>r2. map_of (rooms s2) c = Some r2 \<longrightarrow> pid q0 \<notin> pid ` set (players r2)) \<and>
     (\<forall>sid' n. c \<noteq> [] \<and> pid q0 \<noteq> [] \<and> n \<noteq> [] \<and> map_of (socks s2) sid' \<noteq> None \<longrightarrow>
        (\<exists>f w. server_step s2 (RejoinRoom sid' c (pid q0) n) = (s2, w) \<and> map snd w = [RoomRejoinFailed f]))"
proof -
  from bound_room [OF inv first] have m: "map_of (rooms s) c = Some r" and wf: "wf_room r" by simp_all
  from bound_player [OF wf pl] obtain i where fp: "List.find (\<lambda>x. pid x = pid q0) (players r) = Some q0"
    and sk: "socketId q0 = sid" and fi: "find_idx (\<lambda>x. pid x = pid q0) (players r) = Some i"
    and q: "players r ! i = q0" and il: "i < length (players r)"
    by blast
  have s1: "s1 = s\<lparr>socks := AList.delete sid (socks s), timers := [(sid, c, pid q0)]\<rparr>"
    using disconnect_bound [OF tm conn first pl] st1 by simp
  obtain ro outs where tr: "timeoutRemove c (pid q0) r = (ro, outs)" by fastforce
  have ro: "ro = depart (LogLeftTimeout (name q0)) i r"
    using timeoutRemove_depart [OF fi, of c] tr q by simp
  have s2: "s2 = (case ro of None \<Rightarrow> s1\<lparr>timers := [], rooms := AList.delete c (rooms s1)\<rparr>
                  | Some r' \<Rightarrow> set_room c r' (s1\<lparr>timers := []\<rparr>))"
    using st2 s1 m fp sk tr by (cases ro) (auto simp: fire_timer_def Let_def)
  have gone: "\<forall>r2. map_of (rooms s2) c = Some r2 \<longrightarrow> pid q0 \<notin> pid ` set (players r2)"
  proof (cases ro)
    case (Some r')
    then have "pid q0 \<notin> pid ` set (players r')"
      using depart_removes_pid [OF wf il, of "LogLeftTimeout (name q0)" r'] ro q by simp
    then show ?thesis using s2 Some by (simp add: set_room_def update_conv')
  qed (simp add: s2 delete_conv')
  moreover have "timers s2 = []" using s2 s1 by (cases ro) (simp_all add: set_room_def)
  ultimately show ?thesis using rejoin_absent_fails [of c "pid q0"] by blast
qed


theorem disconnect_timeout_removes_witness:
  "timers (fst (server_step (fst (server_step (run_steps server_init [Connect ''sA'', CreateRoom ''sA'' ''A'' None 321 ''pA'', Connect ''sB'', JoinRoom ''sB'' ''B'' ''1321'' ''pB'']) (Disconnect ''sB''))) FireTimer)) = [] \<and>
   (\<exists>f w. server_step (fst (server_step (fst (server_step (run_steps server_init [Connect ''sA'', CreateRoom ''sA'' ''A'' None 321 ''pA'', Connect ''sB'', JoinRoom ''sB'' ''B'' ''1321'' ''pB'']) (Disconnect ''sB''))) FireTimer)) (RejoinRoom ''sA'' ''1321'' ''pB'' ''B'') = (fst (server_step (fst (server_step (run_steps server_init [Connect ''sA'', CreateRoom ''sA'' ''A'' None 321 ''pA'', Connect ''sB'', JoinRoom ''sB'' ''B'' ''1321'' ''pB'']) (Disconnect ''sB''))) FireTimer), w) \<and>
      map snd w = [RoomRejoinFailed f])"
proof -
  let ?s = "run_steps server_init [Connect ''sA'', CreateRoom ''sA'' ''A'' None 321 ''pA'', Connect ''sB'', JoinRoom ''sB'' ''B'' ''1321'' ''pB'']"
  let ?r = "the (map_of (rooms ?s) ''1321'')"
  let ?s1 = "fst (server_step ?s (Disconnect ''sB''))"
  let ?s2 = "fst (server_step ?s1 FireTimer)"
  have ok: "ok_run server_init [Connect ''sA'', CreateRoom ''sA'' ''A'' None 321 ''pA'', Connect ''sB'',
      JoinRoom ''sB'' ''B'' ''1321'' ''pB'']" by code_simp
  have inv: "server_inv ?s" by (rule reachable_server_inv_helper [OF reachable_run [OF reachable.init ok]])
  have tm: "timers ?s = []" and conn: "map_of (socks ?s) ''sB'' \<noteq> None"
    and first: "List.find (\<lambda>(c', r'). list_ex (\<lambda>q. socketId q = ''sB'') (players r')) (rooms ?s) = Some (''1321'', ?r)"
    and pl: "List.find (\<lambda>q. socketId q = ''sB'') (players ?r) = Some (players ?r ! 1)"
    and pb: "pid (players ?r ! 1) = ''pB''"
    by code_simp+
  have st1: "server_step ?s (Disconnect ''sB'') = (?s1, snd (server_step ?s (Disconnect ''sB'')))"
    by (rule prod.collapse [symmetric])
  have st2: "server_step ?s1 FireTimer = (?s2, snd (server_step ?s1 FireTimer))"
    by (rule prod.collapse [symmetric])
  have pre: "''1321'' \<noteq> [] \<and> pid (players ?r ! 1) \<noteq> [] \<and> ''B'' \<noteq> [] \<and> map_of (socks ?s2) ''sA'' \<noteq> None"
    by code_simp
  note th = disconnect_timeout_removes [OF inv tm conn first pl st1 st2]
  from th pre have "\<exists>f w. server_step ?s2 (RejoinRoom ''sA'' ''1321'' (pid (players ?r ! 1)) ''B'') = (?s2, w) \<and>
      map snd w = [RoomRejoinFailed f]" by blast
  with th show ?thesis unfolding pb by blast
qed


text \<open>
  C28: a player whose connection drops and who rejoins from a new socket before the
  grace timer fires keeps their place: when the timer fires it finds the player bound
  to the new socket and does nothing, so the room afterwards has the same players in
  the same order with the same balances and packed flags, and the same turn
  (specification section 8 and section 4.3).
\<close>

theorem reconnect_before_timeout_keeps_player:
  assumes inv: "server_inv s" and tm: "timers s = []" and conn: "map_of (socks s) sid \<noteq> None"
    and first: "List.find (\<lambda>(c', r'). list_ex (\<lambda>q. socketId q = sid) (players r')) (rooms s) = Some (c, r)"
    and pl: "List.find (\<lambda>q. socketId q = sid) (players r) = Some q0"
    and fresh: "map_of (socks s) sid2 = None" and ne: "c \<noteq> [] \<and> pid q0 \<noteq> [] \<and> n \<noteq> []"
    and st1: "server_step s (Disconnect sid) = (s1, w1)"
    and st2: "server_step s1 (Connect sid2) = (s2, w2)"
    and st3: "server_step s2 (RejoinRoom sid2 c (pid q0) n) = (s3, w3)"
    and st4: "server_step s3 FireTimer = (s4, w4)"
  shows "timers s4 = [] \<and> rooms s4 = rooms s3 \<and>
     (\<exists>r4. map_of (rooms s4) c = Some r4 \<and>
        map (\<lambda>q. (pid q, balance q, packed q)) (players r4) = map (\<lambda>q. (pid q, balance q, packed q)) (players r) \<and>
        currentTurn r4 = currentTurn r)"
proof -
  from bound_room [OF inv first] have m: "map_of (rooms s) c = Some r" and wf: "wf_room r" by simp_all
  from bound_player [OF wf pl] obtain i where
    sk: "socketId q0 = sid" and fi: "find_idx (\<lambda>x. pid x = pid q0) (players r) = Some i"
    and q: "players r ! i = q0" and il: "i < length (players r)"
    by blast
  have neq: "sid2 \<noteq> sid" using conn fresh by auto
  have s1: "s1 = s\<lparr>socks := AList.delete sid (socks s), timers := [(sid, c, pid q0)]\<rparr>"
    using disconnect_bound [OF tm conn first pl] st1 by simp
  have s2: "s2 = s1\<lparr>socks := socks s1 @ [(sid2, new_session)]\<rparr>"
    using st2 s1 fresh neq by (auto simp: delete_conv')
  let ?q' = "q0\<lparr>socketId := sid2\<rparr>"
  let ?r3 = "addToGameLog (r\<lparr>players := (players r)[i := ?q']\<rparr>) (LogReconnected n)"
  have rj: "rejoinRoom c sid2 (pid q0) n r =
      (Some ?r3, [(ToSocket sid2, RoomRejoined ?r3), (ToRoomExcept c sid2, RoomUpdate ?r3)])"
    using fi q by (simp add: rejoinRoom_def Let_def)
  have s3: "s3 = bind_socket sid2 c (pid q0) (set_room c ?r3 s2)"
    using st3 s2 s1 m ne rj by (auto simp: rejoinRoom_h_def Let_def)
  have d3: "distinct (map pid (players ?r3))"
    using wf q by (simp add: wf_room_def addToGameLog_eq map_update_same)
  have "?q' \<in> set (players ?r3)" using il by (simp add: addToGameLog_eq set_update_memI)
  then have f3: "List.find (\<lambda>x. pid x = pid q0) (players ?r3) = Some ?q'"
    using find_pid_distinct [OF d3] by fastforce
  have m3: "map_of (rooms s3) c = Some ?r3" and t3: "timers s3 = [(sid, c, pid q0)]"
    using s3 s2 s1 by (simp_all add: bind_socket_def set_room_def update_conv')
  have s4: "s4 = s3\<lparr>timers := []\<rparr>"
    using st4 m3 t3 f3 neq by (simp add: fire_timer_def)
  have "map (\<lambda>q. (pid q, balance q, packed q)) (players ?r3) = map (\<lambda>q. (pid q, balance q, packed q)) (players r)"
    using q by (simp add: addToGameLog_eq map_update_same)
  moreover have "currentTurn ?r3 = currentTurn r" by (simp add: addToGameLog_eq)
  ultimately show ?thesis using s4 m3 by simp
qed


theorem reconnect_before_timeout_keeps_player_witness:
  "timers (fst (server_step (fst (server_step (fst (server_step (fst (server_step (run_steps server_init [Connect ''sA'', CreateRoom ''sA'' ''A'' None 321 ''pA'', Connect ''sB'', JoinRoom ''sB'' ''B'' ''1321'' ''pB'']) (Disconnect ''sB''))) (Connect ''sB2''))) (RejoinRoom ''sB2'' ''1321'' ''pB'' ''B''))) FireTimer)) = [] \<and>
   rooms (fst (server_step (fst (server_step (fst (server_step (fst (server_step (run_steps server_init [Connect ''sA'', CreateRoom ''sA'' ''A'' None 321 ''pA'', Connect ''sB'', JoinRoom ''sB'' ''B'' ''1321'' ''pB'']) (Disconnect ''sB''))) (Connect ''sB2''))) (RejoinRoom ''sB2'' ''1321'' ''pB'' ''B''))) FireTimer)) = rooms (fst (server_step (fst (server_step (fst (server_step (run_steps server_init [Connect ''sA'', CreateRoom ''sA'' ''A'' None 321 ''pA'', Connect ''sB'', JoinRoom ''sB'' ''B'' ''1321'' ''pB'']) (Disconnect ''sB''))) (Connect ''sB2''))) (RejoinRoom ''sB2'' ''1321'' ''pB'' ''B'')))"
proof -
  let ?s = "run_steps server_init [Connect ''sA'', CreateRoom ''sA'' ''A'' None 321 ''pA'', Connect ''sB'', JoinRoom ''sB'' ''B'' ''1321'' ''pB'']"
  let ?r = "the (map_of (rooms ?s) ''1321'')"
  let ?s1 = "fst (server_step ?s (Disconnect ''sB''))"
  let ?s2 = "fst (server_step ?s1 (Connect ''sB2''))"
  let ?s3 = "fst (server_step ?s2 (RejoinRoom ''sB2'' ''1321'' (pid (players ?r ! 1)) ''B''))"
  let ?s4 = "fst (server_step ?s3 FireTimer)"
  have ok: "ok_run server_init [Connect ''sA'', CreateRoom ''sA'' ''A'' None 321 ''pA'', Connect ''sB'',
      JoinRoom ''sB'' ''B'' ''1321'' ''pB'']" by code_simp
  have inv: "server_inv ?s" by (rule reachable_server_inv_helper [OF reachable_run [OF reachable.init ok]])
  have tm: "timers ?s = []" and conn: "map_of (socks ?s) ''sB'' \<noteq> None"
    and first: "List.find (\<lambda>(c', r'). list_ex (\<lambda>q. socketId q = ''sB'') (players r')) (rooms ?s) = Some (''1321'', ?r)"
    and pl: "List.find (\<lambda>q. socketId q = ''sB'') (players ?r) = Some (players ?r ! 1)"
    and fresh: "map_of (socks ?s) ''sB2'' = None"
    and ne: "''1321'' \<noteq> [] \<and> pid (players ?r ! 1) \<noteq> [] \<and> ''B'' \<noteq> []"
    and pb: "pid (players ?r ! 1) = ''pB''"
    by code_simp+
  note th = reconnect_before_timeout_keeps_player [OF inv tm conn first pl fresh ne
    prod.collapse [symmetric] prod.collapse [symmetric] prod.collapse [symmetric] prod.collapse [symmetric]]
  then have "timers ?s4 = [] \<and> rooms ?s4 = rooms ?s3" by blast
  then show ?thesis unfolding pb .
qed


text \<open>
  C29: \<open>createRoom\<close> does not check the drawn code against the registry. When the
  code is already in use the existing room is overwritten in place: afterwards the
  code designates the new room, whose only player is the creator, and the registry
  has no more rooms than before, so the old room and all its players are lost. The
  specification (section 4.1) requires a code not currently in use.
\<close>

theorem createRoom_collision_overwrites:
  assumes old: "map_of (rooms s) (generateRoomCode k) = Some r_old" and nm: "\<not> trim_empty n"
    and conn: "map_of (socks s) sid \<noteq> None"
    and st: "server_step s (CreateRoom sid n b k p) = (s', w)"
  shows "\<exists>r_new. map_of (rooms s') (generateRoomCode k) = Some r_new \<and> map pid (players r_new) = [p] \<and>
           length (rooms s') = length (rooms s)"
proof -
  have "generateRoomCode k \<in> dom (map_of (rooms s))" using old by blast
  then have dom: "generateRoomCode k \<in> fst ` set (rooms s)" by (simp add: dom_map_of_conv_image_fst)
  have "length (AList.update (generateRoomCode k) v (rooms s)) = length (rooms s)" for v :: room
    using dom by (rule length_alist_update)
  then show ?thesis
    using st nm conn by (auto simp: createRoom_h_def Let_def set_room_def bind_socket_def update_conv' addToGameLog_eq)
qed

theorem createRoom_collision_overwrites_witness:
  "map_of (rooms (run_steps server_init [Connect ''sA'', CreateRoom ''sA'' ''A'' None 321 ''pA'', Connect ''sB'',
       JoinRoom ''sB'' ''B'' ''1321'' ''pB'', Connect ''sC''])) (generateRoomCode 321) \<noteq> None \<and>
   (\<exists>r_new. map_of (rooms (fst (server_step (run_steps server_init [Connect ''sA'', CreateRoom ''sA'' ''A'' None 321 ''pA'',
       Connect ''sB'', JoinRoom ''sB'' ''B'' ''1321'' ''pB'', Connect ''sC''])
       (CreateRoom ''sC'' ''C'' None 321 ''pC'')))) ''1321'' = Some r_new \<and> map pid (players r_new) = [''pC''])"
proof -
  let ?s = "run_steps server_init [Connect ''sA'', CreateRoom ''sA'' ''A'' None 321 ''pA'', Connect ''sB'',
       JoinRoom ''sB'' ''B'' ''1321'' ''pB'', Connect ''sC'']"
  have old: "map_of (rooms ?s) (generateRoomCode 321) = Some (the (map_of (rooms ?s) (generateRoomCode 321)))"
    and conn: "map_of (socks ?s) ''sC'' \<noteq> None" by code_simp+
  have nm: "\<not> trim_empty ''C''" and gc: "generateRoomCode 321 = ''1321''"
    by (simp_all add: js_simps generateRoomCode_def digit_char_def)
  from createRoom_collision_overwrites [where b = None and p = "''pC''", OF old nm conn prod.collapse [symmetric]] old gc
  show ?thesis by auto
qed

text \<open>
  C30: rooms are independent. A game action or a leave request from a socket whose
  session is bound to another room leaves room \<open>c\<close> exactly as it was
  (specification section 5: operations on different rooms are independent).
\<close>

theorem requests_keep_other_rooms:
  assumes se: "map_of (socks s) sid = Some se" and other: "sRoomCode se \<noteq> Some c"
  shows "map_of (rooms (fst (server_step s (Action sid a)))) c = map_of (rooms s) c \<and>
         map_of (rooms (fst (server_step s (LeaveRoom sid)))) c = map_of (rooms s) c"
proof
  show "map_of (rooms (fst (server_step s (Action sid a)))) c = map_of (rooms s) c"
    using se other
    by (auto simp: action_h_game_step room_handler_def error_to_def Let_def set_room_def update_conv'
             split: option.split sum.split prod.split)
  show "map_of (rooms (fst (server_step s (LeaveRoom sid)))) c = map_of (rooms s) c"
    using se other
    by (auto simp: leaveRoom_h_def Let_def set_room_def update_conv' delete_conv'
             split: option.split prod.split)
qed

theorem requests_keep_other_rooms_witness:
  "map_of (socks (run_steps server_init [Connect ''sA'', CreateRoom ''sA'' ''A'' None 321 ''pA'', Connect ''sB'',
       CreateRoom ''sB'' ''B'' None 654 ''pB''])) ''sA'' =
     Some \<lparr>sRoomCode = Some ''1321'', sPlayerId = Some ''pA'', joined = {''1321''}\<rparr> \<and>
   map_of (rooms (fst (server_step (run_steps server_init [Connect ''sA'', CreateRoom ''sA'' ''A'' None 321 ''pA'',
       Connect ''sB'', CreateRoom ''sB'' ''B'' None 654 ''pB'']) (LeaveRoom ''sA'')))) ''1654'' =
   map_of (rooms (run_steps server_init [Connect ''sA'', CreateRoom ''sA'' ''A'' None 321 ''pA'', Connect ''sB'',
       CreateRoom ''sB'' ''B'' None 654 ''pB''])) ''1654''"
proof -
  let ?s = "run_steps server_init [Connect ''sA'', CreateRoom ''sA'' ''A'' None 321 ''pA'', Connect ''sB'',
       CreateRoom ''sB'' ''B'' None 654 ''pB'']"
  have se: "map_of (socks ?s) ''sA'' = Some \<lparr>sRoomCode = Some ''1321'', sPlayerId = Some ''pA'', joined = {''1321''}\<rparr>"
    by code_simp
  have other: "sRoomCode \<lparr>sRoomCode = Some ''1321'', sPlayerId = Some ''pA'', joined = {''1321''}\<rparr> \<noteq> Some ''1654''"
    by simp
  from requests_keep_other_rooms [OF se other] se show ?thesis by blast
qed


text \<open>
  C31: a removed player's socket stays subscribed. Whenever a \<open>removePlayer\<close> request
  changes room \<open>c\<close> (in a state satisfying the registry invariant), the removed id is
  no longer a player of \<open>c\<close>, yet every socket subscribed to \<open>c\<close>, the removed
  player's own socket included, keeps its session unchanged (room code and player id)
  and is still among the recipients of a broadcast to \<open>c\<close>: the handler never calls
  \<open>leave\<close> on the removed socket. The specification (section 4.2) has the removed
  connection notified once and only the remaining participants receive the broadcasts.
\<close>

theorem removed_player_still_subscribed:
  assumes st: "server_step s (Action sid (SRemove t)) = (s', w)"
    and ch: "map_of (rooms s') c \<noteq> map_of (rooms s) c" and inv: "server_inv s"
    and sub: "map_of (socks s) sidB = Some seB" "c \<in> joined seB"
  shows "\<exists>r'. map_of (rooms s') c = Some r' \<and> t \<notin> pid ` set (players r') \<and>
           map_of (socks s') sidB = Some seB \<and> sidB \<in> set (deliver (socks s') (ToRoom c))"
proof -
  obtain p r r' outs i where wf: "wf_room r" and il: "i < length (players r)"
      and ti: "t = pid (players r ! i)" and pr: "players r' = splice1 i (players r)"
      and s': "s' = set_room c r' s"
    using remove_step_game [OF st ch inv] by blast
  have "map pid (players r) ! i \<notin> set (splice1 i (map pid (players r)))"
    using wf il by (intro nth_notin_splice1) (simp_all add: wf_room_def)
  then have gone: "t \<notin> pid ` set (players r')"
    using pr ti il by (simp add: map_splice1 [symmetric])
  have "sidB \<in> set (deliver (socks s) (ToRoom c))"
    using sub map_of_SomeD [OF sub(1)] by (force simp: deliver_def)
  then show ?thesis using gone s' sub by (simp add: set_room_def update_conv')
qed


theorem removed_player_still_subscribed_witness:
  "\<exists>r'. map_of (rooms (fst (server_step (run_steps server_init [Connect ''sA'', CreateRoom ''sA'' ''A'' None 321 ''pA'', Connect ''sB'', JoinRoom ''sB'' ''B'' ''1321'' ''pB'', Connect ''sC'', JoinRoom ''sC'' ''C'' ''1321'' ''pC'']) (Action ''sA'' (SRemove ''pB''))))) ''1321'' = Some r' \<and>
     ''pB'' \<notin> pid ` set (players r') \<and>
     map_of (socks (fst (server_step (run_steps server_init [Connect ''sA'', CreateRoom ''sA'' ''A'' None 321 ''pA'', Connect ''sB'', JoinRoom ''sB'' ''B'' ''1321'' ''pB'', Connect ''sC'', JoinRoom ''sC'' ''C'' ''1321'' ''pC'']) (Action ''sA'' (SRemove ''pB''))))) ''sB'' =
       Some \<lparr>sRoomCode = Some ''1321'', sPlayerId = Some ''pB'', joined = {''1321''}\<rparr> \<and>
     ''sB'' \<in> set (deliver (socks (fst (server_step (run_steps server_init [Connect ''sA'', CreateRoom ''sA'' ''A'' None 321 ''pA'', Connect ''sB'', JoinRoom ''sB'' ''B'' ''1321'' ''pB'', Connect ''sC'', JoinRoom ''sC'' ''C'' ''1321'' ''pC'']) (Action ''sA'' (SRemove ''pB''))))) (ToRoom ''1321''))"
proof -
  let ?q = "[Connect ''sA'', CreateRoom ''sA'' ''A'' None 321 ''pA'', Connect ''sB'', JoinRoom ''sB'' ''B'' ''1321'' ''pB'', Connect ''sC'', JoinRoom ''sC'' ''C'' ''1321'' ''pC'']"
  let ?s = "run_steps server_init ?q"
  have ok: "ok_run server_init ?q" by code_simp
  have inv: "server_inv ?s" by (rule reachable_server_inv_helper [OF reachable_run [OF reachable.init ok]])
  have ch: "map_of (rooms (fst (server_step ?s (Action ''sA'' (SRemove ''pB''))))) ''1321'' \<noteq> map_of (rooms ?s) ''1321''"
    and sub: "map_of (socks ?s) ''sB'' = Some \<lparr>sRoomCode = Some ''1321'', sPlayerId = Some ''pB'', joined = {''1321''}\<rparr>"
    by code_simp+
  show ?thesis
    using removed_player_still_subscribed [OF prod.collapse [symmetric] ch inv sub] by simp
qed

text \<open>
  C32: a rejoin does not retire the old socket. When player \<open>p\<close> rejoins room \<open>c\<close>
  from socket \<open>sid2\<close> while an older socket \<open>sid1\<close> still carries a session for
  \<open>p\<close> in \<open>c\<close>, the room afterwards binds \<open>p\<close> to \<open>sid2\<close>, but \<open>sid1\<close> keeps
  its session and every game action sent from it changes the server state exactly as
  the same action sent from \<open>sid2\<close>: the stale socket can still bid, pack and act
  for \<open>p\<close>. The specification (section 5) treats only the latest bound connection as
  live.
\<close>

theorem stale_socket_can_bid:
  assumes rj: "server_step s (RejoinRoom sid2 c p n) = (s', w)"
    and con: "map_of (socks s) sid2 = Some se2" and ne: "c \<noteq> []" "p \<noteq> []" "n \<noteq> []"
    and rm: "map_of (rooms s) c = Some r" and inr: "p \<in> pid ` set (players r)"
    and old: "map_of (socks s) sid1 = Some se1" "sRoomCode se1 = Some c" "sPlayerId se1 = Some p"
    and neq: "sid1 \<noteq> sid2"
  shows "map_of (socks s') sid1 = Some se1 \<and>
         (\<exists>r' q. map_of (rooms s') c = Some r' \<and> List.find (\<lambda>q. pid q = p) (players r') = Some q \<and>
            socketId q = sid2) \<and>
         (\<forall>a. fst (server_step s' (Action sid1 a)) = fst (server_step s' (Action sid2 a)))"
proof -
  obtain i where i: "find_idx (\<lambda>q. pid q = p) (players r) = Some i" and il: "i < length (players r)"
      and pi: "pid (players r ! i) = p"
    using find_idx_pid_Some [OF inr] by blast
  define r1 where "r1 = addToGameLog (r\<lparr>players := (players r)[i := (players r ! i)\<lparr>socketId := sid2\<rparr>]\<rparr>)
                     (LogReconnected n)"
  have "rejoinRoom c sid2 p n r = (Some r1, [(ToSocket sid2, RoomRejoined r1), (ToRoomExcept c sid2, RoomUpdate r1)])"
    using i by (simp add: rejoinRoom_def r1_def Let_def)
  then have s': "s' = bind_socket sid2 c p (set_room c r1 s)"
    using rj con ne rm by (auto simp: rejoinRoom_h_def Let_def)
  have m1: "map_of (rooms s') c = Some r1" using s' by (simp add: bind_socket_def set_room_def update_conv')
  have "find_idx (\<lambda>q. pid q = p) (players r1) = Some i"
    using i pi by (simp add: r1_def addToGameLog_eq find_idx_update_same)
  then have f1: "List.find (\<lambda>q. pid q = p) (players r1) = Some ((players r ! i)\<lparr>socketId := sid2\<rparr>)"
    using il by (simp add: find_conv_find_idx r1_def addToGameLog_eq)
  have s1: "map_of (socks s') sid1 = Some se1"
    using s' old neq by (simp add: bind_socket_def set_room_def map_of_map_entry)
  obtain se2' where s2: "map_of (socks s') sid2 = Some se2'" "sRoomCode se2' = Some c" "sPlayerId se2' = Some p"
    using s' con by (simp add: bind_socket_def set_room_def map_of_map_entry)
  have "fst (server_step s' (Action sid1 a)) = fst (server_step s' (Action sid2 a))" for a
    using s1 s2 old action_h_state [of se1 se2'] by simp
  then show ?thesis using s1 m1 f1 by auto
qed


theorem stale_socket_can_bid_witness:
  "map_of (socks (fst (server_step (run_steps server_init [Connect ''sA'', CreateRoom ''sA'' ''A'' None 321 ''pA'', Connect ''sB'', JoinRoom ''sB'' ''B'' ''1321'' ''pB'', Connect ''sB2'']) (RejoinRoom ''sB2'' ''1321'' ''pB'' ''B'')))) ''sB'' =
     Some \<lparr>sRoomCode = Some ''1321'', sPlayerId = Some ''pB'', joined = {''1321''}\<rparr> \<and>
   fst (server_step (fst (server_step (run_steps server_init [Connect ''sA'', CreateRoom ''sA'' ''A'' None 321 ''pA'', Connect ''sB'', JoinRoom ''sB'' ''B'' ''1321'' ''pB'', Connect ''sB2'']) (RejoinRoom ''sB2'' ''1321'' ''pB'' ''B''))) (Action ''sB'' (SBid 10))) =
   fst (server_step (fst (server_step (run_steps server_init [Connect ''sA'', CreateRoom ''sA'' ''A'' None 321 ''pA'', Connect ''sB'', JoinRoom ''sB'' ''B'' ''1321'' ''pB'', Connect ''sB2'']) (RejoinRoom ''sB2'' ''1321'' ''pB'' ''B''))) (Action ''sB2'' (SBid 10)))"
proof -
  let ?s = "run_steps server_init [Connect ''sA'', CreateRoom ''sA'' ''A'' None 321 ''pA'', Connect ''sB'', JoinRoom ''sB'' ''B'' ''1321'' ''pB'', Connect ''sB2'']"
  have con: "map_of (socks ?s) ''sB2'' = Some new_session"
    and rm: "map_of (rooms ?s) ''1321'' = Some (the (map_of (rooms ?s) ''1321''))"
    and inr: "''pB'' \<in> pid ` set (players (the (map_of (rooms ?s) ''1321'')))"
    and old: "map_of (socks ?s) ''sB'' = Some \<lparr>sRoomCode = Some ''1321'', sPlayerId = Some ''pB'', joined = {''1321''}\<rparr>"
    by code_simp+
  have ne: "''1321'' \<noteq> []" "''pB'' \<noteq> []" "''B'' \<noteq> []" "''sB'' \<noteq> ''sB2''"
    and se: "sRoomCode \<lparr>sRoomCode = Some ''1321'', sPlayerId = Some ''pB'', joined = {''1321''}\<rparr> = Some ''1321''"
      "sPlayerId \<lparr>sRoomCode = Some ''1321'', sPlayerId = Some ''pB'', joined = {''1321''}\<rparr> = Some ''pB''"
    by simp_all
  show ?thesis
    using stale_socket_can_bid [OF prod.collapse [symmetric] con ne(1-3) rm inr old se ne(4)] by blast
qed

text \<open>
  C33: the \<open>disconnect\<close> handler arms one grace timer, for the first room (in the
  Map's order) with a player on the dropped socket, and the first such player, and
  then forgets the socket. No timer for the socket in any other room is added, and a
  second \<open>disconnect\<close> of the same socket does nothing; so a player of a later room
  bound to that socket is never removed by a timeout.
\<close>

theorem disconnect_only_first_room:
  assumes conn: "map_of (socks s) sid \<noteq> None"
    and first: "List.find (\<lambda>(c', r'). list_ex (\<lambda>q. socketId q = sid) (players r')) (rooms s) = Some (c, r)"
    and pl: "List.find (\<lambda>q. socketId q = sid) (players r) = Some q"
    and st: "server_step s (Disconnect sid) = (s', w)"
  shows "s' = s\<lparr>socks := AList.delete sid (socks s), timers := timers s @ [(sid, c, pid q)]\<rparr> \<and> w = [] \<and>
         (\<forall>c2 x. c2 \<noteq> c \<longrightarrow> ((sid, c2, x) \<in> set (timers s') \<longleftrightarrow> (sid, c2, x) \<in> set (timers s))) \<and>
         server_step s' (Disconnect sid) = (s', [])"
proof -
  have s': "s' = s\<lparr>socks := AList.delete sid (socks s), timers := timers s @ [(sid, c, pid q)]\<rparr>" and w: "w = []"
    using st conn first pl by (auto simp: disconnect_h_def Let_def)
  have "map_of (socks s') sid = None" using s' by (simp add: delete_conv')
  then show ?thesis using s' w by auto
qed


theorem disconnect_only_first_room_witness:
  "timers (fst (server_step (run_steps server_init [Connect ''sA'', CreateRoom ''sA'' ''A'' None 321 ''pA'', CreateRoom ''sA'' ''A2'' None 654 ''pA2'', Connect ''sB'', JoinRoom ''sB'' ''B'' ''1654'' ''pB'']) (Disconnect ''sA''))) = [(''sA'', ''1321'', ''pA'')] \<and>
   (''sA'', ''1654'', ''pA2'') \<notin> set (timers (fst (server_step (run_steps server_init [Connect ''sA'', CreateRoom ''sA'' ''A'' None 321 ''pA'', CreateRoom ''sA'' ''A2'' None 654 ''pA2'', Connect ''sB'', JoinRoom ''sB'' ''B'' ''1654'' ''pB'']) (Disconnect ''sA''))))"
proof -
  let ?s = "run_steps server_init [Connect ''sA'', CreateRoom ''sA'' ''A'' None 321 ''pA'', CreateRoom ''sA'' ''A2'' None 654 ''pA2'', Connect ''sB'', JoinRoom ''sB'' ''B'' ''1654'' ''pB'']"
  let ?r = "the (map_of (rooms ?s) ''1321'')"
  have conn: "map_of (socks ?s) ''sA'' \<noteq> None"
    and first: "List.find (\<lambda>(c', r'). list_ex (\<lambda>q. socketId q = ''sA'') (players r')) (rooms ?s) = Some (''1321'', ?r)"
    and pl: "List.find (\<lambda>q. socketId q = ''sA'') (players ?r) = Some (players ?r ! 0)"
    and tm: "timers ?s = []" and pa: "pid (players ?r ! 0) = ''pA''"
    by code_simp+
  note th = disconnect_only_first_room [OF conn first pl prod.collapse [symmetric]]
  then have "(''sA'', ''1654'', ''pA2'') \<notin> set (timers (fst (server_step ?s (Disconnect ''sA''))))"
    using tm by auto
  with th tm pa show ?thesis by simp
qed

text \<open>
  A check of the model against the scenario of specification section 8, through the
  server's handlers: A creates the room with starting balance 1000, B and C join, A bids
  100, B packs, C bids 50, A packs; C is the last player in and wins the pool of 150
  automatically: the balances are 900, 1000, 1100, the pool is 0, the round is 2,
  nobody is packed and the turn is C's (index 2).
\<close>

theorem spec_scenario_section8:
  "map (\<lambda>(c, r). (map balance (players r), pool r, roundNo r, currentTurn r, map packed (players r)))
     (rooms (run_steps server_init [Connect ''sA'', CreateRoom ''sA'' ''A'' (Some 1000) 321 ''pA'', Connect ''sB'', JoinRoom ''sB'' ''B'' ''1321'' ''pB'', Connect ''sC'', JoinRoom ''sC'' ''C'' ''1321'' ''pC'', Action ''sA'' (SBid 100), Action ''sB'' SPack, Action ''sC'' (SBid 50), Action ''sA'' SPack])) =
   [([900, 1000, 1100], 0, 2, 2, [False, False, False])]"
  by code_simp

text \<open>
  When the last player leaves, the room is deleted and its code no longer
  resolves: a later join with that code is refused with \<open>Room not found\<close>
  (specification section 8).
\<close>

theorem last_leave_deletes_room:
  "map_of (rooms (run_steps server_init [Connect ''sA'', CreateRoom ''sA'' ''A'' None 321 ''pA'', Connect ''sB'', LeaveRoom ''sA''])) ''1321'' = None \<and>
   map snd (snd (server_step (run_steps server_init [Connect ''sA'', CreateRoom ''sA'' ''A'' None 321 ''pA'', Connect ''sB'', LeaveRoom ''sA'']) (JoinRoom ''sB'' ''B'' ''1321'' ''pB''))) = [Error RoomNotFound]"
  by code_simp

end
