(* ===== verification/Client.thy ===== *)
theory Client
  imports Server
begin

text \<open>
  The browser client (\<^verbatim>\<open>src/unnamed/part_000\<close>, class \<open>TeenPattiPool\<close> of
  \<^verbatim>\<open>script.js\<close>): its state (the room and player it believes in, the connection
  flag, the page it is on, the state saved in \<open>localStorage\<close>), the methods that
  validate the user's input and emit requests, and the handlers of the server's
  messages. The DOM updates, animations and timers that only redirect are not
  modelled; a handler that dereferences \<open>null\<close> or \<open>undefined\<close> ends with the
  client-side \<open>TypeError\<close>, which aborts that handler.
\<close>

section \<open>State\<close>

record client =
  currentRoom :: "room option"
  currentPlayer :: "player option"
  isConnected :: bool
  reconnectAttempts :: nat
  onLobby :: bool
  storage :: "(room option \<times> player option) option"

text \<open>
  \<open>onLobby\<close> is \<open>window.location.pathname.includes('lobby.html')\<close>; \<open>storage\<close> is
  the \<open>teenPattiPoolState\<close> entry of \<open>localStorage\<close> (JSON round trip as identity).
\<close>

datatype c2s =
    ReqCreateRoom string int
  | ReqJoinRoom string room_code
  | ReqRejoin room_code player_id string
  | ReqAction sock_action
  | ReqLeave

datatype notice =
    NEnterName | NNotConnected | NInvalidCode | NInvalidBid | NInsufficient | NNotYourTurn
  | NOnlyCreator | NOnlyHost | NPoolEmpty | NConnectionLost

datatype client_out = Emit c2s | Notice notice | Quiet

datatype client_err = ClientTypeError

section \<open>Persistence\<close>

definition saveState :: "client \<Rightarrow> client" where
  "saveState c = c\<lparr>storage := Some (currentRoom c, currentPlayer c)\<rparr>"

definition loadState :: "client \<Rightarrow> client" where
  "loadState c =
     (case storage c of None \<Rightarrow> c | Some (r, p) \<Rightarrow> c\<lparr>currentRoom := r, currentPlayer := p\<rparr>)"

definition clearState :: "client \<Rightarrow> client" where
  "clearState c = c\<lparr>storage := None, currentRoom := None, currentPlayer := None\<rparr>"

text \<open>A page load (\<open>constructor\<close> and \<open>init\<close>): nothing set, then the saved state
  read back; \<open>lobby\<close> is whether the page is \<open>lobby.html\<close>.\<close>

definition client_init :: "bool \<Rightarrow> (room option \<times> player option) option \<Rightarrow> client" where
  "client_init lobby st = loadState \<lparr>currentRoom = None, currentPlayer = None, isConnected = False, reconnectAttempts = 0,
     onLobby = lobby, storage = st\<rparr>"

section \<open>Requests\<close>

text \<open>\<open>amount\<close> and \<open>startingBalance\<close> are the results of \<open>parseInt\<close> (\<open>None\<close> is NaN).\<close>

definition client_createRoom :: "client \<Rightarrow> string \<Rightarrow> int option \<Rightarrow> client_out" where
  "client_createRoom c creatorName startBal =
     (if trim_empty creatorName then Notice NEnterName
      else if \<not> isConnected c then Notice NNotConnected
      else Emit (ReqCreateRoom (js_trim creatorName) (parse_balance startBal)))"

definition client_joinRoom :: "client \<Rightarrow> string \<Rightarrow> room_code \<Rightarrow> client_out" where
  "client_joinRoom c playerName roomCode =
     (if trim_empty playerName then Notice NEnterName
      else if roomCode = [] \<or> length roomCode \<noteq> 4 then Notice NInvalidCode
      else if \<not> isConnected c then Notice NNotConnected
      else Emit (ReqJoinRoom (js_trim playerName) roomCode))"

definition client_leaveRoom :: "client \<Rightarrow> client \<times> client_out" where
  "client_leaveRoom c =
     (c\<lparr>currentRoom := None, currentPlayer := None\<rparr>, if isConnected c then Emit ReqLeave else Quiet)"

definition client_placeBid :: "client \<Rightarrow> int option \<Rightarrow> client_err + client_out" where
  "client_placeBid c amount =
     (case (currentRoom c, currentPlayer c) of
        (Some r, Some p) \<Rightarrow>
          if \<not> isConnected c then Inr (Notice NNotConnected)
          else (case amount of
            None \<Rightarrow> Inr (Notice NInvalidBid)
          | Some a \<Rightarrow>
              if a \<le> 0 then Inr (Notice NInvalidBid)
              else if balance p < a then Inr (Notice NInsufficient)
              else if \<not> currentTurn r < length (players r) then Inl ClientTypeError
              else if pid (players r ! currentTurn r) \<noteq> pid p then Inr (Notice NNotYourTurn)
              else Inr (Emit (ReqAction (SBid a))))
      | _ \<Rightarrow> Inr Quiet)"

definition host_ok :: "client \<Rightarrow> bool" where
  "host_ok c \<longleftrightarrow> currentRoom c \<noteq> None \<and> (case currentPlayer c of Some p \<Rightarrow> isCreator p | None \<Rightarrow> False)"

definition client_resetPool :: "client \<Rightarrow> client_out" where
  "client_resetPool c =
     (if \<not> host_ok c then Notice NOnlyCreator
      else if \<not> isConnected c then Notice NNotConnected
      else Emit (ReqAction SReset))"

definition client_removePlayer :: "client \<Rightarrow> player_id \<Rightarrow> client_out" where
  "client_removePlayer c playerId =
     (if \<not> host_ok c then Notice NOnlyHost
      else if \<not> isConnected c then Notice NNotConnected
      else Emit (ReqAction (SRemove playerId)))"

definition client_declareWinner :: "client \<Rightarrow> player_id \<Rightarrow> client_out" where
  "client_declareWinner c winnerId =
     (if \<not> host_ok c then Notice NOnlyHost
      else if \<not> isConnected c then Notice NNotConnected
      else if (case currentRoom c of Some r \<Rightarrow> pool r \<le> 0 | None \<Rightarrow> True) then Notice NPoolEmpty
      else Emit (ReqAction (SDeclare winnerId)))"

text \<open>The page's \<open>leaveRoom()\<close> button handler (declared twice in the script, the same
  body): after \<open>confirm\<close> it marks the leave explicit, clears the saved state and calls
  the method, which navigates away; the \<open>beforeunload\<close> listener then emits
  \<open>leaveRoom\<close> again for an explicit leave on a connected socket.\<close>

definition ui_leaveRoom :: "bool \<Rightarrow> client \<Rightarrow> client \<times> c2s list" where
  "ui_leaveRoom confirmed c =
     (if \<not> confirmed then (c, [])
      else let (c1, out) = client_leaveRoom (clearState c);
               unload = (if isConnected c1 then [ReqLeave] else [])
           in (c1, (case out of Emit m \<Rightarrow> [m] | _ \<Rightarrow> []) @ unload))"

section \<open>Handlers of the server's messages\<close>

text \<open>
  A handler returns the client state together with the exception it ended with, if
  any: the assignments made before a \<open>TypeError\<close> stay, and the socket keeps
  dispatching later messages. \<open>find_by_id\<close> is
  \<open>room.players.find(p => p.id === this.currentPlayer.id)\<close>, whose callback runs,
  and reads \<open>null.id\<close>, only when the list is not empty.
\<close>

definition find_by_id :: "player option \<Rightarrow> player list \<Rightarrow> client_err + player option" where
  "find_by_id cp ps =
     (case cp of
        None \<Rightarrow> if ps = [] then Inr None else Inl ClientTypeError
      | Some p \<Rightarrow> Inr (List.find (\<lambda>q. pid q = pid p) ps))"

text \<open>\<open>updateBiddingArea\<close> reads \<open>players[currentTurn].id\<close> once room and player are set.\<close>

definition updateBiddingArea :: "client \<Rightarrow> client_err option" where
  "updateBiddingArea c =
     (case (currentRoom c, currentPlayer c) of
        (Some r, Some p) \<Rightarrow> if currentTurn r < length (players r) then None else Some ClientTypeError
      | _ \<Rightarrow> None)"

text \<open>\<open>updateLobbyUI\<close>: the player is refreshed from the room by id, then the player
  list (which reads \<open>this.currentPlayer?.id\<close>), the turn indicator and the bidding area.\<close>

definition updateLobbyUI :: "client \<Rightarrow> client \<times> client_err option" where
  "updateLobbyUI c =
     (case currentRoom c of
        None \<Rightarrow> (c, None)
      | Some r \<Rightarrow>
          (case find_by_id (currentPlayer c) (players r) of
             Inl e \<Rightarrow> (c, Some e)
           | Inr q \<Rightarrow>
               let c1 = (case q of Some q' \<Rightarrow> c\<lparr>currentPlayer := Some q'\<rparr> | None \<Rightarrow> c)
               in (c1, updateBiddingArea c1)))"

definition on_connect :: "client \<Rightarrow> client \<times> client_out" where
  "on_connect c =
     (let c1 = c\<lparr>isConnected := True, reconnectAttempts := 0\<rparr>
      in case (currentRoom c, currentPlayer c) of
           (Some r, Some p) \<Rightarrow> (c1, Emit (ReqRejoin (code r) (pid p) (name p)))
         | _ \<Rightarrow> (c1, Quiet))"

definition on_disconnect :: "client \<Rightarrow> client" where
  "on_disconnect c = c\<lparr>isConnected := False\<rparr>"

text \<open>\<open>reconnect_error\<close>: one more failed attempt; from the fifth on the page says the
  connection is lost (\<open>maxReconnectAttempts\<close> is 5).\<close>

definition on_reconnect_error :: "client \<Rightarrow> client \<times> notice option" where
  "on_reconnect_error c =
     (let n = Suc (reconnectAttempts c)
      in (c\<lparr>reconnectAttempts := n\<rparr>, if 5 \<le> n then Some NConnectionLost else None))"

definition on_lobby_update :: "client \<Rightarrow> client \<times> client_err option" where
  "on_lobby_update c = (if onLobby c then updateLobbyUI c else (c, None))"

fun on_event :: "client \<Rightarrow> event \<Rightarrow> client \<times> client_err option" where
  "on_event c (RoomCreated roomCode p r) =
     (saveState (c\<lparr>currentRoom := Some r, currentPlayer := Some p\<rparr>), None)"
| "on_event c (RoomJoined p r) =
     (saveState (c\<lparr>currentRoom := Some r, currentPlayer := Some p\<rparr>), None)"
| "on_event c (RoomRejoined r) =
     (let c1 = c\<lparr>currentRoom := Some r\<rparr>
      in case find_by_id (currentPlayer c) (players r) of
           Inl e \<Rightarrow> (c1, Some e)
         | Inr q \<Rightarrow> on_lobby_update (saveState (c1\<lparr>currentPlayer := q\<rparr>)))"
| "on_event c (RoomRejoinFailed f) = (clearState c, None)"
| "on_event c (RoomUpdate r) = on_lobby_update (c\<lparr>currentRoom := Some r\<rparr>)"
| "on_event c (BidPlaced n a r) =
     (c, if onLobby c \<and> currentPlayer c = None then Some ClientTypeError else None)"
| "on_event c (PlayerRemoved h) = (clearState c, None)"
| "on_event c (PoolReset a r) = (c, None)"
| "on_event c (WinnerDeclared w n a d r) = (c, None)"
| "on_event c (PlayerLeft n b r) = (c, None)"
| "on_event c (PlayerPacked n r) = (c, None)"
| "on_event c (TurnChanged n b r) = (c, None)"
| "on_event c (Error e) = (c, None)"

text \<open>The messages a socket receives, dispatched in order; the exceptions thrown.\<close>

fun client_run :: "client \<Rightarrow> event list \<Rightarrow> client \<times> client_err list" where
  "client_run c [] = (c, [])"
| "client_run c (e # es) =
     (let (c1, x) = on_event c e; (c2, xs) = client_run c1 es
      in (c2, case x of None \<Rightarrow> xs | Some err \<Rightarrow> err # xs))"

definition delivered :: "socket_id \<Rightarrow> wire \<Rightarrow> event list" where
  "delivered sid w = map snd (filter (\<lambda>(rcpts, e). sid \<in> set rcpts) w)"

text \<open>The server and one browser, on socket \<open>sid\<close>, run together: the server handles
  the requests in order and the browser handles what each step delivers to it.\<close>

fun net_run :: "server \<Rightarrow> client \<Rightarrow> socket_id \<Rightarrow> request list \<Rightarrow> server \<times> client \<times> client_err list" where
  "net_run s c sid [] = (s, c, [])"
| "net_run s c sid (q # qs) =
     (let (s1, w) = server_step s q; (c1, xs) = client_run c (delivered sid w);
          (s2, c2, ys) = net_run s1 c1 sid qs
      in (s2, c2, xs @ ys))"

text \<open>The request a client's message becomes at the server, from socket \<open>sid\<close>, with
  the server's random draws \<open>k\<close> (room code) and \<open>p\<close> (player id).\<close>

fun to_request :: "socket_id \<Rightarrow> nat \<Rightarrow> player_id \<Rightarrow> c2s \<Rightarrow> request" where
  "to_request sid k p (ReqCreateRoom n b) = CreateRoom sid n (Some b) k p"
| "to_request sid k p (ReqJoinRoom n rc) = JoinRoom sid n rc p"
| "to_request sid k p (ReqRejoin rc q n) = RejoinRoom sid rc q n"
| "to_request sid k p (ReqAction a) = Action sid a"
| "to_request sid k p ReqLeave = LeaveRoom sid"

section \<open>Properties\<close>

lemma sid_in_deliver_socket: "sid \<in> set (deliver ss (ToSocket sid)) \<longleftrightarrow> sid \<in> fst ` set ss"
  by (force simp: deliver_def)

lemma sid_notin_deliver_except: "sid \<notin> set (deliver ss (ToRoomExcept c sid))"
  by (auto simp: deliver_def)

lemma parse_balance_nonzero: "parse_balance b \<noteq> 0"
  by (simp add: parse_balance_def split: option.split)

lemma map_of_map_entry_same: "map_of (AList.map_entry k f xs) k = map_option f (map_of xs k)"
  by (induction xs) auto

text \<open>The server ignores a second \<open>leaveRoom\<close> from the same socket: the first clears the
  session's room and player (or finds none), so the double emission of the page's
  leave button does nothing more.\<close>

lemma ui_leaveRoom_sends_twice:
  "isConnected c \<Longrightarrow> ui_leaveRoom True c = (clearState c, [ReqLeave, ReqLeave])"
  by (simp add: ui_leaveRoom_def client_leaveRoom_def clearState_def)

lemma leaveRoom_twice:
  "server_step (fst (server_step s (LeaveRoom sid))) (LeaveRoom sid) = (fst (server_step s (LeaveRoom sid)), [])"
proof (cases "map_of (socks s) sid")
  case (Some se)
  then show ?thesis
    by (auto simp: leaveRoom_h_def Let_def map_of_map_entry_same set_room_def
        split: option.split prod.split)
qed simp

lemma saveState_page_load: "client_init lobby (storage (saveState c)) =
  \<lparr>currentRoom = currentRoom c, currentPlayer = currentPlayer c, isConnected = False, reconnectAttempts = 0,
   onLobby = lobby, storage = Some (currentRoom c, currentPlayer c)\<rparr>"
  by (simp add: client_init_def loadState_def saveState_def)


lemma delivered_snoc_room:
  assumes "map_of (socks s) sid' = Some se'" and "c \<in> joined se'"
  shows "delivered sid' (send s (pre @ [(ToRoom c, e)])) = delivered sid' (send s pre) @ [e]"
proof -
  have "sid' \<in> set (deliver (socks s) (ToRoom c))"
    using assms map_of_SomeD [OF assms(1)] by (force simp: deliver_def)
  then show ?thesis by (simp add: delivered_def send_def)
qed

lemma updateLobbyUI_room [simp]: "currentRoom (fst (updateLobbyUI c)) = currentRoom c"
  by (simp add: updateLobbyUI_def Let_def split: option.split sum.split)

lemma fst_client_run_Cons: "fst (client_run c (e # es)) = fst (client_run (fst (on_event c e)) es)"
  by (cases "on_event c e", cases "client_run (fst (on_event c e)) es") simp

lemma client_run_snoc: "fst (client_run c (es @ [e])) = fst (on_event (fst (client_run c es)) e)"
proof (induction es arbitrary: c)
  case Nil
  then show ?case by (cases "on_event c e") simp
next
  case (Cons x es)
  then show ?case by (simp only: append_Cons fst_client_run_Cons)
qed

lemma client_run_last_update: "currentRoom (fst (client_run c (es @ [RoomUpdate r]))) = Some r"
  by (simp add: client_run_snoc on_lobby_update_def)

text \<open>
  C21: every browser subscribed to a room ends each game action with the server's room.
  A bid, pack, reset, declaration, removal or change of turn that changes room \<open>c\<close>
  sends the new room last, as \<open>roomUpdate\<close>, to every socket subscribed to \<open>c\<close>;
  whatever the browser on such a socket held before and whatever its listeners throw on
  the way, its \<open>currentRoom\<close> is then the room the server stores.
\<close>

theorem subscribed_views_follow_room:
  assumes st: "server_step s (Action sid a) = (s', w)"
    and ch: "map_of (rooms s') c \<noteq> map_of (rooms s) c"
    and sub: "map_of (socks s) sid' = Some se'" "c \<in> joined se'"
  shows "currentRoom (fst (client_run cl (delivered sid' w))) = map_of (rooms s') c"
proof -
  obtain pre r' where r': "map_of (rooms s') c = Some r'" and sk: "socks s' = socks s"
    and w: "w = send s' (pre @ [(ToRoom c, RoomUpdate r')])"
    using action_changes_room [OF st ch] by blast
  have "delivered sid' w = delivered sid' (send s' pre) @ [RoomUpdate r']"
    unfolding w by (rule delivered_snoc_room) (use sub sk in simp_all)
  then show ?thesis using r' client_run_last_update by simp
qed

theorem subscribed_views_follow_room_witness:
  "currentRoom (fst (client_run (client_init False None)
     (delivered ''sB'' (snd (server_step (run_steps server_init [Connect ''sA'', CreateRoom ''sA'' ''A'' None 321 ''pA'', Connect ''sB'', JoinRoom ''sB'' ''B'' ''1321'' ''pB''])
        (Action ''sA'' (SBid 100))))))) =
   map_of (rooms (fst (server_step (run_steps server_init [Connect ''sA'', CreateRoom ''sA'' ''A'' None 321 ''pA'', Connect ''sB'', JoinRoom ''sB'' ''B'' ''1321'' ''pB''])
        (Action ''sA'' (SBid 100))))) ''1321''"
proof -
  let ?s = "run_steps server_init [Connect ''sA'', CreateRoom ''sA'' ''A'' None 321 ''pA'', Connect ''sB'', JoinRoom ''sB'' ''B'' ''1321'' ''pB'']"
  let ?se = "the (map_of (socks ?s) ''sB'')"
  have ch: "map_of (rooms (fst (server_step ?s (Action ''sA'' (SBid 100))))) ''1321'' \<noteq> map_of (rooms ?s) ''1321''"
    by code_simp
  have s1: "map_of (socks ?s) ''sB'' = Some ?se" and s2: "''1321'' \<in> joined ?se"
    by code_simp+
  show ?thesis by (rule subscribed_views_follow_room [OF prod.collapse [symmetric] ch s1 s2])
qed

text \<open>
  C36: the client's bid check agrees with the server's. When the client's view is the
  server's room (a well-formed room holding the client's own player record) and the
  socket is connected, \<open>placeBid\<close> in the browser emits the bid exactly when the
  server's \<open>placeBid\<close> accepts it; the two check in different orders, so a rejected bid
  may carry a different message, but neither side accepts what the other refuses.
\<close>

theorem client_bid_agrees_with_server:
  assumes wf: "wf_room r" and cr: "currentRoom c = Some r" and cp: "currentPlayer c = Some p"
    and mem: "p \<in> set (players r)" and con: "isConnected c"
  shows "client_placeBid c (Some a) = Inr (Emit (ReqAction (SBid a))) \<longleftrightarrow>
         (\<exists>r' w. Actions.placeBid (code r) (pid p) a r = Inr (r', w))"
proof -
  obtain i where i: "i < length (players r)" "players r ! i = p"
    using mem by (auto simp: in_set_conv_nth)
  have fi: "find_idx (\<lambda>q. pid q = pid p) (players r) = Some i"
    using wf_find_idx_pid [OF wf i(1)] i(2) by simp
  have ct: "currentTurn r < length (players r)" using wf by (simp add: wf_room_def)
  show ?thesis
    using i ct by (auto simp: client_placeBid_def Actions.placeBid_def fi cr cp con Let_def)
qed

theorem client_bid_agrees_with_server_witness:
  "\<exists>r' w. Actions.placeBid ''1321'' ''pA'' 100 (the (map_of (rooms (run_steps server_init [Connect ''sA'', CreateRoom ''sA'' ''A'' None 321 ''pA'', Connect ''sB'', JoinRoom ''sB'' ''B'' ''1321'' ''pB''])) ''1321'')) = Inr (r', w)"
proof -
  let ?r = "the (map_of (rooms (run_steps server_init [Connect ''sA'', CreateRoom ''sA'' ''A'' None 321 ''pA'', Connect ''sB'', JoinRoom ''sB'' ''B'' ''1321'' ''pB''])) ''1321'')"
  let ?c = "fst (snd (net_run server_init (fst (on_connect (client_init True None))) ''sA'' [Connect ''sA'', CreateRoom ''sA'' ''A'' None 321 ''pA'', Connect ''sB'', JoinRoom ''sB'' ''B'' ''1321'' ''pB'']))"
  have h: "wf_room ?r \<and> currentRoom ?c = Some ?r \<and> currentPlayer ?c = Some (players ?r ! 0) \<and>
      players ?r ! 0 \<in> set (players ?r) \<and> isConnected ?c \<and> code ?r = ''1321'' \<and>
      pid (players ?r ! 0) = ''pA'' \<and> client_placeBid ?c (Some 100) = Inr (Emit (ReqAction (SBid 100)))"
    by code_simp
  then show ?thesis
    using client_bid_agrees_with_server [of ?r ?c "players ?r ! 0" 100] by simp
qed

text \<open>
  C37: on the lobby page a \<open>roomUpdate\<close> refreshes the client's own player from the
  room by id, so the balance and turn the lobby shows, and the balance the next bid is
  checked against, are the server's; no exception is thrown for a well-formed room.
\<close>

theorem lobby_roomUpdate_refreshes_player:
  assumes "onLobby c" "currentPlayer c = Some p" "wf_room r" "q \<in> set (players r)" "pid q = pid p"
  shows "on_event c (RoomUpdate r) = (c\<lparr>currentRoom := Some r, currentPlayer := Some q\<rparr>, None)"
proof -
  have "List.find (\<lambda>x. pid x = pid p) (players r) = Some q"
    using find_pid_distinct [of "players r" q] assms by (simp add: wf_room_def)
  then show ?thesis
    using assms by (auto simp: on_lobby_update_def updateLobbyUI_def find_by_id_def
        updateBiddingArea_def wf_room_def)
qed

theorem lobby_roomUpdate_refreshes_player_witness:
  "on_event (fst (snd (net_run server_init (fst (on_connect (client_init True None))) ''sB'' [Connect ''sA'', CreateRoom ''sA'' ''A'' None 321 ''pA'', Connect ''sB'', JoinRoom ''sB'' ''B'' ''1321'' ''pB''])))
     (RoomUpdate (the (map_of (rooms (run_steps server_init ([Connect ''sA'', CreateRoom ''sA'' ''A'' None 321 ''pA'', Connect ''sB'', JoinRoom ''sB'' ''B'' ''1321'' ''pB''] @ [Action ''sA'' (SBid 100)]))) ''1321''))) =
   ((fst (snd (net_run server_init (fst (on_connect (client_init True None))) ''sB'' [Connect ''sA'', CreateRoom ''sA'' ''A'' None 321 ''pA'', Connect ''sB'', JoinRoom ''sB'' ''B'' ''1321'' ''pB''])))
      \<lparr>currentRoom := Some (the (map_of (rooms (run_steps server_init ([Connect ''sA'', CreateRoom ''sA'' ''A'' None 321 ''pA'', Connect ''sB'', JoinRoom ''sB'' ''B'' ''1321'' ''pB''] @ [Action ''sA'' (SBid 100)]))) ''1321'')),
       currentPlayer := Some (players (the (map_of (rooms (run_steps server_init ([Connect ''sA'', CreateRoom ''sA'' ''A'' None 321 ''pA'', Connect ''sB'', JoinRoom ''sB'' ''B'' ''1321'' ''pB''] @ [Action ''sA'' (SBid 100)]))) ''1321'')) ! 1)\<rparr>, None)"
proof -
  let ?r = "the (map_of (rooms (run_steps server_init ([Connect ''sA'', CreateRoom ''sA'' ''A'' None 321 ''pA'', Connect ''sB'', JoinRoom ''sB'' ''B'' ''1321'' ''pB''] @ [Action ''sA'' (SBid 100)]))) ''1321'')"
  let ?c = "fst (snd (net_run server_init (fst (on_connect (client_init True None))) ''sB'' [Connect ''sA'', CreateRoom ''sA'' ''A'' None 321 ''pA'', Connect ''sB'', JoinRoom ''sB'' ''B'' ''1321'' ''pB'']))"
  let ?p = "players (the (map_of (rooms (run_steps server_init [Connect ''sA'', CreateRoom ''sA'' ''A'' None 321 ''pA'', Connect ''sB'', JoinRoom ''sB'' ''B'' ''1321'' ''pB''])) ''1321'')) ! 1"
  have h: "onLobby ?c \<and> currentPlayer ?c = Some ?p \<and> wf_room ?r \<and>
      players ?r ! 1 \<in> set (players ?r) \<and> pid (players ?r ! 1) = pid ?p"
    by code_simp
  then show ?thesis
    using lobby_roomUpdate_refreshes_player [of ?c ?p ?r "players ?r ! 1"] by simp
qed

lemma length_two_members:
  "x \<in> set xs \<Longrightarrow> y \<in> set xs \<Longrightarrow> x \<noteq> y \<Longrightarrow> 2 \<le> length xs"
  by (metis One_nat_def card_2_iff card_length card_mono finite_set insert_subset le_trans
        empty_subsetI)

lemma remove_step_outs:
  assumes st: "server_step s (Action sid (SRemove t)) = (s', w)"
    and ch: "map_of (rooms s') c \<noteq> map_of (rooms s) c" and inv: "server_inv s"
    and tq: "map_of (rooms s) c = Some r" "q \<in> set (players r)" "pid q = t"
  shows "\<exists>h r'. map_of (rooms s') c = Some r' \<and> players r' \<noteq> [] \<and> socks s' = socks s \<and>
           w = send s' ((if socketId q \<noteq> [] then [(ToSocket (socketId q), PlayerRemoved h)] else []) @
                        [(ToRoom c, PlayerLeft (name q) (Some h) r'), (ToRoom c, RoomUpdate r')])"
proof -
  obtain p r0 r' outs i where rm: "map_of (rooms s) c = Some r0" and wf: "wf_room r0"
      and gs: "removePlayer c p t r0 = Inr (r', outs)" and il: "i < length (players r0)"
      and ti: "t = pid (players r0 ! i)" and pr: "players r' = splice1 i (players r0)"
      and s': "s' = set_room c r' s" and w: "w = send s' outs"
    using remove_step_game [OF st ch inv] by blast
  have r0: "r0 = r" using rm tq(1) by simp
  have d: "distinct (map pid (players r))" using wf r0 by (simp add: wf_room_def)
  have fi: "find_idx (\<lambda>x. pid x = t) (players r) = Some i"
    using wf_find_idx_pid [OF wf il] ti r0 by simp
  have qi: "players r ! i = q"
    using find_pid_distinct [OF d tq(2)] fi tq(3) by (simp add: find_conv_find_idx)
  obtain host target where hf: "List.find (\<lambda>x. pid x = p) (players r) = Some host" and hc: "isCreator host"
      and tf: "List.find (\<lambda>x. pid x = t) (players r) = Some target" and tc: "\<not> isCreator target"
      and o: "outs = (if socketId q \<noteq> [] then [(ToSocket (socketId q), PlayerRemoved (name host))] else []) @
            [(ToRoom c, PlayerLeft (name q) (Some (name host)) r'), (ToRoom c, RoomUpdate r')]"
    using removePlayer_InrD [OF gs] fi qi r0 by auto
  have "target = q" using tf find_pid_distinct [OF d tq(2)] tq(3) by simp
  then have "2 \<le> length (players r)"
    using length_two_members [of host "players r" q] find_SomeD [OF hf] hc tc tq(2) by blast
  moreover have "length (players r') = length (players r) - 1" using pr il r0 by simp
  ultimately have "players r' \<noteq> []" by auto
  moreover have "map_of (rooms s') c = Some r'" using s' by (simp add: set_room_def update_conv')
  ultimately show ?thesis using o s' w by (auto simp: set_room_def)
qed

text \<open>
  C38: a removed player's browser throws. Whenever a \<open>removePlayer\<close> request changes
  room \<open>c\<close> and the removed player's socket is connected and subscribed to \<open>c\<close>, that
  socket receives exactly \<open>playerRemoved\<close>, \<open>playerLeft\<close> and \<open>roomUpdate\<close>: the
  first handler clears the saved room and player, and then, because the socket is
  still subscribed (C31), the \<open>roomUpdate\<close> handler on the lobby page sets the room
  back and \<open>updateLobbyUI\<close> reads \<open>this.currentPlayer.id\<close> of \<open>null\<close> (the room
  still holds its owner): one \<open>TypeError\<close>, after which the page shows the room it
  was removed from with no player.
\<close>

theorem removed_client_throws:
  assumes st: "server_step s (Action sid (SRemove t)) = (s', w)"
    and ch: "map_of (rooms s') c \<noteq> map_of (rooms s) c" and inv: "server_inv s"
    and tq: "map_of (rooms s) c = Some r" "q \<in> set (players r)" "pid q = t" "socketId q = sidB" "sidB \<noteq> []"
    and sub: "map_of (socks s) sidB = Some seB" "c \<in> joined seB"
    and lob: "onLobby cl"
  shows "\<exists>h r'. delivered sidB w = [PlayerRemoved h, PlayerLeft (name q) (Some h) r', RoomUpdate r'] \<and>
           snd (client_run cl (delivered sidB w)) = [ClientTypeError] \<and>
           currentRoom (fst (client_run cl (delivered sidB w))) = Some r' \<and>
           currentPlayer (fst (client_run cl (delivered sidB w))) = None"
proof -
  obtain h r' where ne: "players r' \<noteq> []" and sk: "socks s' = socks s"
      and w: "w = send s' [(ToSocket sidB, PlayerRemoved h),
                           (ToRoom c, PlayerLeft (name q) (Some h) r'), (ToRoom c, RoomUpdate r')]"
    using remove_step_outs [OF st ch inv tq(1-3)] tq(4,5) by auto
  have "sidB \<in> set (deliver (socks s') (ToRoom c))" and "sidB \<in> set (deliver (socks s') (ToSocket sidB))"
    using sub map_of_SomeD [OF sub(1)] sk by (force simp: deliver_def)+
  then have d: "delivered sidB w = [PlayerRemoved h, PlayerLeft (name q) (Some h) r', RoomUpdate r']"
    using w by (simp add: delivered_def send_def)
  have cr: "snd (client_run cl [PlayerRemoved h, PlayerLeft (name q) (Some h) r', RoomUpdate r']) = [ClientTypeError] \<and>
      currentRoom (fst (client_run cl [PlayerRemoved h, PlayerLeft (name q) (Some h) r', RoomUpdate r'])) = Some r' \<and>
      currentPlayer (fst (client_run cl [PlayerRemoved h, PlayerLeft (name q) (Some h) r', RoomUpdate r'])) = None"
    using lob ne by (simp add: clearState_def on_lobby_update_def updateLobbyUI_def find_by_id_def)
  show ?thesis unfolding d using cr by blast
qed


theorem removed_client_throws_witness:
  "snd (client_run (fst (snd (net_run server_init (fst (on_connect (client_init True None))) ''sB''
       [Connect ''sA'', CreateRoom ''sA'' ''A'' None 321 ''pA'', Connect ''sB'', JoinRoom ''sB'' ''B'' ''1321'' ''pB''])))
     (delivered ''sB'' (snd (server_step (run_steps server_init [Connect ''sA'', CreateRoom ''sA'' ''A'' None 321 ''pA'',
        Connect ''sB'', JoinRoom ''sB'' ''B'' ''1321'' ''pB'']) (Action ''sA'' (SRemove ''pB''))))))
   = [ClientTypeError]"
proof -
  let ?q = "[Connect ''sA'', CreateRoom ''sA'' ''A'' None 321 ''pA'', Connect ''sB'', JoinRoom ''sB'' ''B'' ''1321'' ''pB'']"
  let ?s = "run_steps server_init ?q"
  let ?r = "the (map_of (rooms ?s) ''1321'')"
  let ?cl = "fst (snd (net_run server_init (fst (on_connect (client_init True None))) ''sB'' ?q))"
  have ok: "ok_run server_init ?q" by code_simp
  have inv: "server_inv ?s" by (rule reachable_server_inv_helper [OF reachable_run [OF reachable.init ok]])
  have ch: "map_of (rooms (fst (server_step ?s (Action ''sA'' (SRemove ''pB''))))) ''1321'' \<noteq> map_of (rooms ?s) ''1321''"
    and rm: "map_of (rooms ?s) ''1321'' = Some ?r" and q: "players ?r ! 1 \<in> set (players ?r)"
    and pq: "pid (players ?r ! 1) = ''pB''" and sq: "socketId (players ?r ! 1) = ''sB''"
    and sub: "map_of (socks ?s) ''sB'' = Some \<lparr>sRoomCode = Some ''1321'', sPlayerId = Some ''pB'', joined = {''1321''}\<rparr>"
    and lob: "onLobby ?cl"
    by code_simp+
  have ne: "''sB'' \<noteq> []" and j: "''1321'' \<in> joined \<lparr>sRoomCode = Some ''1321'', sPlayerId = Some ''pB'', joined = {''1321''}\<rparr>"
    by simp_all
  show ?thesis
    using removed_client_throws [OF prod.collapse [symmetric] ch inv rm q pq sq ne sub j lob] by auto
qed

text \<open>
  C39: what the client sends to create a room is what the server stores. The name is
  sent trimmed and the balance as \<open>parseInt(startingBalance) || 1000\<close>; the server's
  checks on both pass again, so the room it creates has the trimmed name as creator,
  the client's balance as starting balance, and the requesting player alone.
\<close>

theorem client_createRoom_roundtrip:
  assumes "client_createRoom c n b = Emit (ReqCreateRoom n' b')"
  shows "\<exists>r. map_of (rooms (fst (createRoom_h s sid n' (Some b') k p))) (generateRoomCode k) = Some r \<and>
             creator r = js_trim n \<and> startingBalance r = parse_balance b \<and> map pid (players r) = [p]"
  using assms parse_balance_nonzero [of b]
  by (auto simp: client_createRoom_def createRoom_h_def Let_def bind_socket_def set_room_def
      parse_balance_def [of "Some _"] update_conv' addToGameLog_def split: if_splits)

theorem client_createRoom_roundtrip_witness:
  "\<exists>r. map_of (rooms (fst (createRoom_h server_init ''sA'' ''A'' (Some 1000) 321 ''pA''))) (generateRoomCode 321) = Some r \<and>
       creator r = ''A'' \<and> startingBalance r = 1000 \<and> map pid (players r) = [''pA'']"
proof -
  have h: "client_createRoom (fst (on_connect (client_init False None))) '' A '' None =
      Emit (ReqCreateRoom ''A'' 1000) \<and> js_trim '' A '' = ''A'' \<and> parse_balance None = 1000"
    by code_simp
  then show ?thesis
    using client_createRoom_roundtrip [OF conjunct1 [OF h], of server_init "''sA''" 321 "''pA''"]
    by simp
qed

text \<open>The server's side of a rejoin: from a connected socket, for a player of a
  well-formed room, \<open>rejoinRoom\<close> rebinds the player to the socket and the socket
  receives exactly \<open>roomRejoined\<close> with the updated, still well-formed room.\<close>

lemma rejoin_step_delivers:
  assumes rm: "map_of (rooms s) c = Some r" and wf: "wf_room r" and inr: "p \<in> pid ` set (players r)"
    and ne: "c \<noteq> []" "p \<noteq> []" "n \<noteq> []" and con: "sid \<in> fst ` set (socks s)"
  shows "\<exists>r' q. delivered sid (snd (server_step s (RejoinRoom sid c p n))) = [RoomRejoined r'] \<and>
     map_of (rooms (fst (server_step s (RejoinRoom sid c p n)))) c = Some r' \<and> wf_room r' \<and>
     q \<in> set (players r') \<and> pid q = p \<and> socketId q = sid"
proof -
  obtain i where fi: "find_idx (\<lambda>q. pid q = p) (players r) = Some i"
    and i: "i < length (players r)" "pid (players r ! i) = p"
    using find_idx_pid_Some [OF inr] by blast
  define q where "q = (players r ! i)\<lparr>socketId := sid\<rparr>"
  define r1 where "r1 = addToGameLog (r\<lparr>players := (players r)[i := q]\<rparr>) (LogReconnected n)"
  define s1 where "s1 = bind_socket sid c p (set_room c r1 s)"
  have rj: "rejoinRoom c sid p n r =
      (Some r1, [(ToSocket sid, RoomRejoined r1), (ToRoomExcept c sid, RoomUpdate r1)])"
    by (simp add: rejoinRoom_def fi q_def r1_def Let_def)
  obtain se where sk: "map_of (socks s) sid = Some se"
    using con by (cases "map_of (socks s) sid") (simp_all add: map_of_eq_None_iff)
  have step: "server_step s (RejoinRoom sid c p n) =
      (s1, send s1 [(ToSocket sid, RoomRejoined r1), (ToRoomExcept c sid, RoomUpdate r1)])"
    using ne sk by (simp add: rejoinRoom_h_def rm rj s1_def Let_def)
  have "fst ` set (socks s1) = fst ` set (socks s)"
    by (simp add: s1_def bind_socket_def set_room_def flip: set_map add: map_fst_map_entry)
  then have "delivered sid (snd (server_step s (RejoinRoom sid c p n))) = [RoomRejoined r1]"
    using con unfolding step by (simp add: delivered_def send_def sid_in_deliver_socket sid_notin_deliver_except)
  moreover have "map_of (rooms (fst (server_step s (RejoinRoom sid c p n)))) c = Some r1"
    unfolding step by (simp add: s1_def bind_socket_def set_room_def update_conv')
  moreover have "wf_room r1" using rejoinRoom_pair [OF rj] wf by simp
  moreover have "q \<in> set (players r1)"
    using i by (simp add: r1_def addToGameLog_def Let_def set_update_memI)
  ultimately show ?thesis using i by (auto simp: q_def)
qed

text \<open>The client's side: a client holding a player handles a \<open>roomRejoined\<close> for a
  well-formed room containing that player without an exception and takes the room's
  record of its player.\<close>

lemma client_rejoined:
  assumes cp: "currentPlayer c = Some p0" and wf: "wf_room r" and q: "q \<in> set (players r)"
    and pq: "pid q = pid p0"
  shows "client_run c [RoomRejoined r] = (saveState (c\<lparr>currentRoom := Some r, currentPlayer := Some q\<rparr>), [])"
proof -
  have fq: "List.find (\<lambda>y. pid y = pid p0) (players r) = Some q"
    using find_pid_distinct [of "players r" q] wf q pq by (simp add: wf_room_def)
  have ct: "currentTurn r < length (players r)" using wf by (simp add: wf_room_def)
  show ?thesis
    using fq ct pq by (cases "onLobby c") (simp_all add: cp find_by_id_def on_lobby_update_def
        updateLobbyUI_def updateBiddingArea_def saveState_def Let_def)
qed

text \<open>
  C40: a reconnecting browser is taken back. On \<open>connect\<close> a client that has a room and
  a player sends \<open>rejoinRoom\<close> with the room's code and its player's id and name; if the
  room is still there with that player, the server rebinds the player to the new socket
  and the socket receives exactly \<open>roomRejoined\<close>, which the client handles without an
  exception, ending with the server's record of its player.
\<close>

theorem client_rejoin_accepted:
  assumes cr: "currentRoom c = Some r0" and cp: "currentPlayer c = Some p0"
    and rm: "map_of (rooms s) (code r0) = Some r" and wf: "wf_room r"
    and inr: "pid p0 \<in> pid ` set (players r)"
    and ne: "code r0 \<noteq> []" "pid p0 \<noteq> []" "name p0 \<noteq> []"
    and con: "sid \<in> fst ` set (socks s)"
  shows "\<exists>m r' q. on_connect c = (c\<lparr>isConnected := True, reconnectAttempts := 0\<rparr>, Emit m) \<and>
     delivered sid (snd (server_step s (to_request sid k x m))) = [RoomRejoined r'] \<and>
     map_of (rooms (fst (server_step s (to_request sid k x m)))) (code r0) = Some r' \<and>
     q \<in> set (players r') \<and> pid q = pid p0 \<and> socketId q = sid \<and>
     snd (client_run (c\<lparr>isConnected := True, reconnectAttempts := 0\<rparr>) [RoomRejoined r']) = [] \<and>
     currentPlayer (fst (client_run (c\<lparr>isConnected := True, reconnectAttempts := 0\<rparr>) [RoomRejoined r'])) = Some q"
proof -
  let ?m = "ReqRejoin (code r0) (pid p0) (name p0)"
  have oc: "on_connect c = (c\<lparr>isConnected := True, reconnectAttempts := 0\<rparr>, Emit ?m)"
    by (simp add: on_connect_def cr cp)
  obtain r' q where srv: "delivered sid (snd (server_step s (to_request sid k x ?m))) = [RoomRejoined r']"
      "map_of (rooms (fst (server_step s (to_request sid k x ?m)))) (code r0) = Some r'"
      "wf_room r'" "q \<in> set (players r')" "pid q = pid p0" "socketId q = sid"
    using rejoin_step_delivers [OF rm wf inr ne con] by auto
  have "client_run (c\<lparr>isConnected := True, reconnectAttempts := 0\<rparr>) [RoomRejoined r'] =
      (saveState (c\<lparr>isConnected := True, reconnectAttempts := 0, currentRoom := Some r', currentPlayer := Some q\<rparr>), [])"
    using client_rejoined [of _ p0 r' q] srv(3-5) cp by simp
  then show ?thesis
    using oc srv by (intro exI [of _ ?m] exI [of _ r'] exI [of _ q]) (simp add: saveState_def del: client_run.simps)
qed

theorem client_rejoin_accepted_witness:
  "\<exists>m r' q. on_connect (on_disconnect (fst (snd (net_run server_init (fst (on_connect (client_init True None))) ''sB'' [Connect ''sA'', CreateRoom ''sA'' ''A'' None 321 ''pA'', Connect ''sB'', JoinRoom ''sB'' ''B'' ''1321'' ''pB''])))) =
       ((on_disconnect (fst (snd (net_run server_init (fst (on_connect (client_init True None))) ''sB'' [Connect ''sA'', CreateRoom ''sA'' ''A'' None 321 ''pA'', Connect ''sB'', JoinRoom ''sB'' ''B'' ''1321'' ''pB'']))))\<lparr>isConnected := True, reconnectAttempts := 0\<rparr>, Emit m) \<and>
     delivered ''sB2'' (snd (server_step (run_steps server_init ([Connect ''sA'', CreateRoom ''sA'' ''A'' None 321 ''pA'', Connect ''sB'', JoinRoom ''sB'' ''B'' ''1321'' ''pB''] @ [Disconnect ''sB'', Connect ''sB2''])) (to_request ''sB2'' 0 [] m))) = [RoomRejoined r'] \<and>
     map_of (rooms (fst (server_step (run_steps server_init ([Connect ''sA'', CreateRoom ''sA'' ''A'' None 321 ''pA'', Connect ''sB'', JoinRoom ''sB'' ''B'' ''1321'' ''pB''] @ [Disconnect ''sB'', Connect ''sB2''])) (to_request ''sB2'' 0 [] m)))) ''1321'' = Some r' \<and>
     q \<in> set (players r') \<and> pid q = ''pB'' \<and> socketId q = ''sB2'' \<and>
     snd (client_run ((on_disconnect (fst (snd (net_run server_init (fst (on_connect (client_init True None))) ''sB'' [Connect ''sA'', CreateRoom ''sA'' ''A'' None 321 ''pA'', Connect ''sB'', JoinRoom ''sB'' ''B'' ''1321'' ''pB'']))))\<lparr>isConnected := True, reconnectAttempts := 0\<rparr>) [RoomRejoined r']) = [] \<and>
     currentPlayer (fst (client_run ((on_disconnect (fst (snd (net_run server_init (fst (on_connect (client_init True None))) ''sB'' [Connect ''sA'', CreateRoom ''sA'' ''A'' None 321 ''pA'', Connect ''sB'', JoinRoom ''sB'' ''B'' ''1321'' ''pB'']))))\<lparr>isConnected := True, reconnectAttempts := 0\<rparr>) [RoomRejoined r'])) = Some q"
proof -
  let ?c = "on_disconnect (fst (snd (net_run server_init (fst (on_connect (client_init True None))) ''sB'' [Connect ''sA'', CreateRoom ''sA'' ''A'' None 321 ''pA'', Connect ''sB'', JoinRoom ''sB'' ''B'' ''1321'' ''pB''])))"
  let ?s = "run_steps server_init ([Connect ''sA'', CreateRoom ''sA'' ''A'' None 321 ''pA'', Connect ''sB'', JoinRoom ''sB'' ''B'' ''1321'' ''pB''] @ [Disconnect ''sB'', Connect ''sB2''])"
  let ?r0 = "the (currentRoom ?c)" and ?p0 = "the (currentPlayer ?c)"
  let ?R = "the (map_of (rooms ?s) ''1321'')"
  have h: "currentRoom ?c = Some ?r0 \<and> currentPlayer ?c = Some ?p0 \<and>
      map_of (rooms ?s) (code ?r0) = Some ?R \<and> wf_room ?R \<and> pid ?p0 \<in> pid ` set (players ?R) \<and>
      code ?r0 \<noteq> [] \<and> pid ?p0 \<noteq> [] \<and> name ?p0 \<noteq> [] \<and> ''sB2'' \<in> fst ` set (socks ?s)"
    by code_simp
  have eqs: "code ?r0 = ''1321''" "pid ?p0 = ''pB''" by code_simp+
  have "\<exists>m r' q. on_connect ?c = (?c\<lparr>isConnected := True, reconnectAttempts := 0\<rparr>, Emit m) \<and>
     delivered ''sB2'' (snd (server_step ?s (to_request ''sB2'' 0 [] m))) = [RoomRejoined r'] \<and>
     map_of (rooms (fst (server_step ?s (to_request ''sB2'' 0 [] m)))) (code ?r0) = Some r' \<and>
     q \<in> set (players r') \<and> pid q = pid ?p0 \<and> socketId q = ''sB2'' \<and>
     snd (client_run (?c\<lparr>isConnected := True, reconnectAttempts := 0\<rparr>) [RoomRejoined r']) = [] \<and>
     currentPlayer (fst (client_run (?c\<lparr>isConnected := True, reconnectAttempts := 0\<rparr>) [RoomRejoined r'])) = Some q"
    using h by (elim conjE) (rule client_rejoin_accepted [of ?c ?r0 ?p0 ?s ?R "''sB2''" 0 "[]"])
  then show ?thesis by (simp only: eqs)
qed

end
