(* ===== verification/Codes.thy ===== *)
theory Codes
  imports Server "HOL-Library.List_Lexorder" "HOL-Library.Char_ord"
begin

text \<open>
  Room codes. The server draws a code as \<open>Math.floor(1000 + Math.random() * 9000)\<close>
  rendered in decimal (\<open>generateRoomCode\<close>, \<^verbatim>\<open>src/server.js\<close> line 25); the
  lobby page's code field keeps only digits and at most four of them (the \<open>input\<close>
  listener of \<^verbatim>\<open>src/unnamed/part_000\<close>, lines 1192--1195), and the client and the
  server accept a code of length four. The type \<open>room_code4\<close> of four-digit strings
  names what a code is; every key of a reachable registry has that type.
\<close>

section \<open>Digits and the four-digit code type\<close>

text \<open>The class \<open>\d\<close> of regular expressions: the ASCII decimal digits.\<close>

definition js_digit :: "char \<Rightarrow> bool" where
  "js_digit c \<longleftrightarrow> c \<in> set ''0123456789''"

typedef room_code4 = "{s :: string. length s = 4 \<and> list_all js_digit s}"
  morphisms code4_str Abs_code4
  by (intro exI [of _ "''1000''"]) (simp add: js_digit_def)

setup_lifting type_definition_room_code4

lift_definition gen_code4 :: "nat \<Rightarrow> room_code4" is "\<lambda>k. generateRoomCode (k mod 9000)"
proof -
  fix k :: nat
  have "\<And>d. d < 10 \<Longrightarrow> js_digit (digit_char d)"
    using nth_mem [of _ "''0123456789''"] by (simp add: js_digit_def digit_char_def)
  then show "length (generateRoomCode (k mod 9000)) = 4 \<and> list_all js_digit (generateRoomCode (k mod 9000))"
    by (simp add: generateRoomCode_def Let_def)
qed

instantiation room_code4 :: equal
begin
lift_definition equal_room_code4 :: "room_code4 \<Rightarrow> room_code4 \<Rightarrow> bool" is "(=)" .
instance by standard (transfer, rule refl)
end

text \<open>Codes ordered as strings, which on four digits is their numeric order.\<close>

instantiation room_code4 :: linorder
begin
lift_definition less_eq_room_code4 :: "room_code4 \<Rightarrow> room_code4 \<Rightarrow> bool" is "(\<le>)" .
lift_definition less_room_code4 :: "room_code4 \<Rightarrow> room_code4 \<Rightarrow> bool" is "(<)" .
instance by standard (transfer, auto)+
end

text \<open>The code field's \<open>input\<close> listener:
  \<open>e.target.value.replace(/\D/g, '').slice(0, 4)\<close>.\<close>

definition roomCode_input :: "string \<Rightarrow> string" where
  "roomCode_input s = take 4 (filter js_digit s)"

section \<open>Keys of the registry\<close>

abbreviation rkeys :: "server \<Rightarrow> room_code set" where
  "rkeys s \<equiv> fst ` set (rooms s)"

lemma insert_key_map_of: "map_of al k = Some v \<Longrightarrow> insert k (fst ` set al) = fst ` set al"
  by (metis map_of_SomeD fst_conv image_eqI insert_absorb)

lemma rkeys_set_room [simp]: "rkeys (set_room c r s) = insert c (rkeys s)"
  by (simp add: set_room_def AList.dom_update)

lemma rooms_bind_socket [simp]: "rooms (bind_socket sid c p s) = rooms s"
  by (simp add: bind_socket_def)

lemma keys_delete [simp]: "fst ` set (AList.delete k al) = fst ` set al - {k}"
  by (simp add: dom_map_of_conv_image_fst [symmetric] AList.delete_conv')

lemma fst_error_to [simp]: "fst (error_to s sid e) = s"
  by (simp add: error_to_def)

lemma createRoom_h_keys: "rkeys (fst (createRoom_h s sid n b k p)) \<subseteq> insert (generateRoomCode k) (rkeys s)"
  by (simp add: createRoom_h_def Let_def subset_insertI)

lemma rejoinRoom_h_keys: "rkeys (fst (rejoinRoom_h s sid c p n)) = rkeys s"
  by (simp add: rejoinRoom_h_def Let_def insert_key_map_of split: option.split prod.split)

lemma joinRoom_h_keys: "rkeys (fst (joinRoom_h s sid n c p)) = rkeys s"
  by (simp add: joinRoom_h_def Let_def insert_key_map_of split: option.split sum.split prod.split)

lemma room_handler_keys: "rkeys (fst (room_handler s sid se op)) = rkeys s"
  by (simp add: room_handler_def Let_def insert_key_map_of split: option.split sum.split prod.split)

lemma leaveRoom_h_keys: "rkeys (fst (leaveRoom_h s sid se)) \<subseteq> rkeys s"
  by (simp add: leaveRoom_h_def Let_def insert_key_map_of Diff_subset split: option.split prod.split)

lemma disconnect_h_keys: "rkeys (fst (disconnect_h s sid)) = rkeys s"
  by (simp add: disconnect_h_def Let_def split: option.split prod.split)

lemma fire_timer_keys: "rkeys (fst (fire_timer s)) \<subseteq> rkeys s"
  by (simp add: fire_timer_def Let_def insert_key_map_of Diff_subset split: list.split option.split prod.split)

text \<open>A request adds at most the code it draws to the registry's keys.\<close>

definition drawn_code :: "request \<Rightarrow> room_code set" where
  "drawn_code q = (case q of CreateRoom sid n b k p \<Rightarrow> {generateRoomCode k} | _ \<Rightarrow> {})"

lemma server_step_keys: "rkeys (fst (server_step s q)) \<subseteq> rkeys s \<union> drawn_code q"
proof (cases q)
  case (CreateRoom sid n b k p)
  then show ?thesis using createRoom_h_keys [of s sid n b k p] by (auto simp: drawn_code_def)
next
  case (Action sid a)
  then show ?thesis by (simp add: action_h_game_step room_handler_keys split: option.split)
next
  case (LeaveRoom sid)
  then show ?thesis
    by (cases "map_of (socks s) sid") (simp_all add: drawn_code_def leaveRoom_h_keys)
qed (simp_all add: rejoinRoom_h_keys joinRoom_h_keys disconnect_h_keys fire_timer_keys
     drawn_code_def split: option.split)

lemma reachable_keys_drawn:
  "reachable s \<Longrightarrow> x \<in> rkeys s \<Longrightarrow> \<exists>j<9000. x = generateRoomCode j"
proof (induction arbitrary: x rule: reachable.induct)
  case init
  then show ?case by (simp add: server_init_def)
next
  case (step s req s' w)
  have "x \<in> rkeys s \<union> drawn_code req"
    using server_step_keys [of s req] step.hyps(3) step.prems by auto
  then show ?case using step.IH step.hyps(2) by (cases req) (auto simp: drawn_code_def)
qed

lemma gen_code4_str: "j < 9000 \<Longrightarrow> code4_str (gen_code4 j) = generateRoomCode j"
  by (simp add: gen_code4.rep_eq)

lemma roomCode_input_code4 [simp]: "roomCode_input (code4_str k) = code4_str k"
  using code4_str [of k] by (simp add: roomCode_input_def list_all_iff filter_id_conv)

text \<open>
  C35: every key of a reachable registry is a room code of type \<open>room_code4\<close>, one the
  server drew with \<open>generateRoomCode\<close>: four decimal digits. The lobby page's code
  field leaves such a code unchanged, so a player who types the code the owner shows
  sends it as it is.
\<close>

theorem reachable_room_codes_typed:
  assumes "reachable s" and "c \<in> fst ` set (rooms s)"
  shows "\<exists>j<9000. c = code4_str (gen_code4 j) \<and> roomCode_input c = c"
proof -
  obtain j where "j < 9000" "c = generateRoomCode j" using reachable_keys_drawn [OF assms] by blast
  then show ?thesis using gen_code4_str [of j] roomCode_input_code4 [of "gen_code4 j"] by auto
qed

theorem reachable_room_codes_typed_witness:
  "\<exists>j<9000. ''1321'' = code4_str (gen_code4 j) \<and> roomCode_input ''1321'' = ''1321''"
proof -
  let ?s = "run_steps server_init [Connect ''sA'', CreateRoom ''sA'' ''A'' None 321 ''pA'']"
  have r: "reachable ?s"
    by (rule reachable_run [OF reachable.init]) code_simp
  have m: "''1321'' \<in> rkeys ?s" by code_simp
  show ?thesis using reachable_room_codes_typed [OF r m] .
qed

end
