(* ===== verification/View.thy ===== *)
theory View
  imports Client Codes
begin

text \<open>
  The browser's page layer (\<^verbatim>\<open>src/unnamed/part_000\<close>): the numbers it reads from
  input fields (\<open>parseInt\<close>) and writes into them (\<open>String(n)\<close>), the global
  handlers the HTML buttons call, the lobby's rendering as the values it writes into
  the page (player circle and legacy list, turn indicator, bidding area, host controls,
  balance, game log), the winner-selection modal, and the page start-up with its
  polling loop. Each view function returns what the code writes; element look-ups
  that find nothing only skip a write and are not modelled.
\<close>

section \<open>Numbers as text\<close>

text \<open>\<open>parseInt(s)\<close> without a radix: leading white space skipped, an optional sign,
  then the longest run of decimal digits; no digit is \<open>NaN\<close> (\<open>None\<close>). The
  hexadecimal prefix \<open>0x\<close> is not modelled: the page's fields never hold it.\<close>

definition digit_val :: "char \<Rightarrow> nat" where
  "digit_val c = of_char c - 48"

definition digits_val :: "string \<Rightarrow> nat" where
  "digits_val ds = foldl (\<lambda>n d. 10 * n + digit_val d) 0 ds"

definition js_parseInt :: "string \<Rightarrow> int option" where
  "js_parseInt s =
     (let t = dropWhile js_space s;
          (sg, u) = (case t of
                       c # u \<Rightarrow> if c = CHR ''-'' then (-1, u) else if c = CHR ''+'' then (1, u) else (1, t)
                     | [] \<Rightarrow> (1, []));
          ds = takeWhile js_digit u
      in if ds = [] then None else Some (sg * int (digits_val ds)))"




section \<open>The page's global handlers\<close>

text \<open>\<open>createRoom()\<close>: the balance field's value, or the number 1000 when it is empty,
  passed to the method, which applies \<open>parseInt\<close> (of 1000 when the field is empty).\<close>

definition ui_createRoom :: "client \<Rightarrow> string \<Rightarrow> string \<Rightarrow> client_out" where
  "ui_createRoom c creatorName balanceField =
     client_createRoom c creatorName (if balanceField = [] then Some 1000 else js_parseInt balanceField)"



text \<open>\<open>removePlayer(playerId)\<close>: after the \<open>confirm\<close> dialog, the method.\<close>

definition ui_removePlayer :: "bool \<Rightarrow> client \<Rightarrow> player_id \<Rightarrow> client_out" where
  "ui_removePlayer confirmed c playerId = (if confirmed then client_removePlayer c playerId else Quiet)"

text \<open>The \<open>keypress\<close> listeners: Enter in a field submits its form.\<close>

datatype field = CreatorNameField | PlayerNameField | BidAmountField | RoomCodeField

datatype submit = SubmitCreate | SubmitJoin | SubmitBid

fun enter_key :: "field \<Rightarrow> submit" where
  "enter_key CreatorNameField = SubmitCreate"
| "enter_key PlayerNameField = SubmitJoin"
| "enter_key BidAmountField = SubmitBid"
| "enter_key RoomCodeField = SubmitJoin"

section \<open>The lobby's rendering\<close>

text \<open>One entry of the player circle or of the legacy list: the label, the balance,
  and the flags the markup depends on (turn ring, own player, crown or HOST badge,
  remove button).\<close>

record player_view =
  pv_id :: player_id
  pv_label :: string
  pv_balance :: int
  pv_turn :: bool
  pv_you :: bool
  pv_creator :: bool
  pv_remove :: bool

text \<open>The circle (\<open>playersCircle\<close>): the label is \<open>player.name.substring(0, 4)\<close>; the
  own player and the remove button read \<open>this.currentPlayer?.id\<close>, so a missing
  player marks nobody.\<close>

definition players_circle :: "client \<Rightarrow> player_view list" where
  "players_circle c =
     (case currentRoom c of
        None \<Rightarrow> []
      | Some r \<Rightarrow>
          map (\<lambda>(i, p). \<lparr>pv_id = pid p, pv_label = take 4 (name p), pv_balance = balance p,
                         pv_turn = (currentTurn r = i),
                         pv_you = (case currentPlayer c of Some q \<Rightarrow> pid p = pid q | None \<Rightarrow> False),
                         pv_creator = isCreator p,
                         pv_remove = (case currentPlayer c of
                                        Some q \<Rightarrow> isCreator q \<and> pid p \<noteq> pid q | None \<Rightarrow> False)\<rparr>)
              (enumerate 0 (players r)))"

text \<open>The legacy list (\<open>playersList\<close>): full names; it reads \<open>this.currentPlayer.id\<close>
  for every player, and a player is removable by a host when it is neither the host's
  own entry nor a creator.\<close>

definition players_legacy :: "client \<Rightarrow> client_err + player_view list" where
  "players_legacy c =
     (case currentRoom c of
        None \<Rightarrow> Inr []
      | Some r \<Rightarrow>
          if players r = [] then Inr []
          else (case currentPlayer c of
                  None \<Rightarrow> Inl ClientTypeError
                | Some q \<Rightarrow>
                    Inr (map (\<lambda>(i, p). \<lparr>pv_id = pid p, pv_label = name p, pv_balance = balance p,
                                     pv_turn = (i = currentTurn r), pv_you = (pid p = pid q),
                                     pv_creator = isCreator p,
                                     pv_remove = (isCreator q \<and> pid p \<noteq> pid q \<and> \<not> isCreator p)\<rparr>)
                          (enumerate 0 (players r)))))"

text \<open>\<open>updateHostControls\<close> and \<open>updatePlayerBalance\<close>.\<close>

definition host_controls :: "client \<Rightarrow> bool" where
  "host_controls c = (case currentPlayer c of Some q \<Rightarrow> isCreator q | None \<Rightarrow> False)"

definition balance_display :: "client \<Rightarrow> int option" where
  "balance_display c = map_option balance (currentPlayer c)"

text \<open>\<open>updateTurnIndicator\<close>: the turn holder's name, \<open>-\<close> when the index is out of
  range; untouched without a room.\<close>

definition turn_indicator :: "client \<Rightarrow> string option" where
  "turn_indicator c =
     map_option (\<lambda>r. if currentTurn r < length (players r) then name (players r ! currentTurn r) else ''-'')
       (currentRoom c)"

text \<open>\<open>updateBiddingArea\<close>: whether the bidding area is shown (it is the player's turn)
  and whether the bid button is disabled (not the player's turn, or no balance left).\<close>

definition bidding_view :: "client \<Rightarrow> client_err + (bool \<times> bool) option" where
  "bidding_view c =
     (case (currentRoom c, currentPlayer c) of
        (Some r, Some q) \<Rightarrow>
          if currentTurn r < length (players r)
          then let yours = (pid (players r ! currentTurn r) = pid q) in Inr (Some (yours, \<not> yours \<or> balance q \<le> 0))
          else Inl ClientTypeError
      | _ \<Rightarrow> Inr None)"

text \<open>\<open>updateGameLog\<close>: the last ten entries.\<close>

definition game_log_view :: "client \<Rightarrow> log_msg list option" where
  "game_log_view c = map_option (\<lambda>r. slice_last 10 (gameLog r)) (currentRoom c)"

section \<open>Declaring a winner from the page\<close>

text \<open>\<open>showWinnerSelectionModal\<close>: the host's checks, then one option per player (id,
  name, balance) and the pool; \<open>selectWinner\<close> builds its \<open>confirm\<close> text from
  \<open>this.currentRoom.pool\<close> and on confirmation calls \<open>declareWinner\<close>.\<close>

definition winner_options :: "client \<Rightarrow> notice + (player_id \<times> string \<times> int) list \<times> int" where
  "winner_options c =
     (if \<not> host_ok c then Inl NOnlyHost
      else case currentRoom c of
             None \<Rightarrow> Inl NOnlyHost
           | Some r \<Rightarrow> if pool r \<le> 0 then Inl NPoolEmpty
                       else Inr (map (\<lambda>p. (pid p, name p, balance p)) (players r), pool r))"

definition selectWinner :: "bool \<Rightarrow> client \<Rightarrow> player_id \<Rightarrow> client_err + client_out" where
  "selectWinner confirmed c winnerId =
     (case currentRoom c of
        None \<Rightarrow> Inl ClientTypeError
      | Some r \<Rightarrow> Inr (if confirmed then client_declareWinner c winnerId else Quiet))"

section \<open>Page start-up\<close>

text \<open>
  \<open>init\<close> on \<open>lobby.html\<close> takes the code from the URL's \<open>room\<close> parameter or the saved
  room and goes home without one; \<open>initLobby\<close> reads the URL parameter alone, goes home
  without it, reloads the saved state when room or player is missing, and then polls
  every 100 ms, at most 50 times, until room and player are set: it renders the lobby,
  or after the fiftieth attempt gives up and goes home. The poll is given the client
  states at its ticks.
\<close>

datatype poll_result = Ready nat client "client_err option" | TimedOut | Polling nat

fun lobby_poll :: "nat \<Rightarrow> client list \<Rightarrow> poll_result" where
  "lobby_poll n [] = Polling n"
| "lobby_poll n (c # cs) =
     (let n' = Suc n
      in if currentRoom c \<noteq> None \<and> currentPlayer c \<noteq> None
         then (case updateLobbyUI c of (c', e) \<Rightarrow> Ready n' c' e)
         else if 50 \<le> n' then TimedOut else lobby_poll n' cs)"

datatype page_start = HomePage | GoHome | LobbyStart client poll_result

definition initLobby :: "string option \<Rightarrow> client \<Rightarrow> client list \<Rightarrow> page_start" where
  "initLobby urlRoom c ticks =
     (if urlRoom = None \<or> urlRoom = Some [] then GoHome
      else let c1 = (if currentRoom c = None \<or> currentPlayer c = None then loadState c else c)
           in LobbyStart c1 (lobby_poll 0 ticks))"

definition init_page :: "string option \<Rightarrow> client \<Rightarrow> client list \<Rightarrow> page_start" where
  "init_page urlRoom c ticks =
     (if \<not> onLobby c then HomePage
      else let roomCode = (case urlRoom of
                             Some x \<Rightarrow> if x \<noteq> [] then Some x else map_option code (currentRoom c)
                           | None \<Rightarrow> map_option code (currentRoom c))
           in if roomCode = None \<or> roomCode = Some [] then GoHome else initLobby urlRoom c ticks)"

section \<open>Numbers: \<open>parseInt\<close> reads back what \<open>String\<close> writes\<close>







text \<open>What a bid field may hold as a number input: a decimal or exponent form is cut
  at the first non-digit.\<close>

lemma js_parseInt_examples:
  "js_parseInt ''12.5'' = Some 12 \<and> js_parseInt ''1e3'' = Some 1 \<and> js_parseInt '' -7x'' = Some (-7) \<and>
   js_parseInt ''abc'' = None \<and> js_parseInt [] = None"
  by code_simp


section \<open>Properties of the rendering\<close>

lemma wf_one_creator:
  assumes "wf_room r" "p \<in> set (players r)" "q \<in> set (players r)" "isCreator p" "isCreator q"
  shows "p = q"
proof -
  obtain x where "filter isCreator (players r) = [x]"
    using assms(1) by (auto simp: wf_room_def length_Suc_conv)
  moreover have "p \<in> set (filter isCreator (players r))" "q \<in> set (filter isCreator (players r))"
    using assms by auto
  ultimately show ?thesis by simp
qed

text \<open>On a well-formed room whose player record the client holds, the two layouts of
  \<open>updatePlayersList\<close> agree on the turn ring, the own-player mark and the remove
  buttons: the legacy list's extra test \<open>!player.isCreator\<close> only removes the host's own
  entry, which the circle's test already excludes, since a room has one creator.\<close>

lemma players_layouts_agree:
  assumes wf: "wf_room r" and cr: "currentRoom c = Some r" and cp: "currentPlayer c = Some q"
    and q: "q \<in> set (players r)"
  shows "\<exists>vs. players_legacy c = Inr vs \<and>
    map (\<lambda>v. (pv_id v, pv_turn v, pv_you v, pv_remove v)) vs =
    map (\<lambda>v. (pv_id v, pv_turn v, pv_you v, pv_remove v)) (players_circle c)"
proof -
  have ne: "players r \<noteq> []" using q by auto
  have "\<forall>p\<in>set (players r). isCreator q \<and> pid p \<noteq> pid q \<longrightarrow> \<not> isCreator p"
    using wf_one_creator [OF wf _ q] by blast
  then have "\<forall>x\<in>set (enumerate 0 (players r)).
      (isCreator q \<and> pid (snd x) \<noteq> pid q \<and> \<not> isCreator (snd x)) = (isCreator q \<and> pid (snd x) \<noteq> pid q)"
    by (auto simp: in_set_enumerate_eq)
  then show ?thesis
    by (auto simp: players_legacy_def players_circle_def cr cp ne split: prod.split)
qed

text \<open>The bidding area and the bid button agree with the method behind them: when the
  page shows the button enabled, every amount from 1 up to the player's balance is sent
  to the server; when it shows it disabled because it is not the player's turn, the
  method refuses every amount.\<close>

lemma bidding_view_enabled:
  assumes "bidding_view c = Inr (Some (True, False))" and "isConnected c"
    and "currentPlayer c = Some q" and "0 < a" and "a \<le> balance q"
  shows "client_placeBid c (Some a) = Inr (Emit (ReqAction (SBid a)))"
  using assms by (auto simp: bidding_view_def client_placeBid_def Let_def
      split: option.splits prod.splits if_splits)

lemma bidding_view_not_turn:
  assumes "bidding_view c = Inr (Some (False, d))"
  shows "client_placeBid c (Some a) \<noteq> Inr (Emit (ReqAction (SBid a)))"
  using assms by (auto simp: bidding_view_def client_placeBid_def Let_def
      split: option.splits prod.splits if_splits)

section \<open>Winner selection and the server\<close>

text \<open>Every option of the winner modal, confirmed on a connected page whose view is the
  server's well-formed room, is sent as \<open>declareWinner\<close> and accepted by the server.\<close>

lemma selectWinner_accepted:
  assumes wo: "winner_options c = Inr (opts, amt)" and opt: "(wid, nm, b) \<in> set opts"
    and con: "isConnected c" and cr: "currentRoom c = Some r" and cp: "currentPlayer c = Some q"
    and q: "q \<in> set (players r)" and wf: "wf_room r"
  shows "selectWinner True c wid = Inr (Emit (ReqAction (SDeclare wid)))
       \<and> (\<exists>r' w. Actions.declareWinner (code r) (pid q) wid r = Inr (r', w))"
proof -
  have h: "isCreator q" and pl: "0 < pool r" and opts: "opts = map (\<lambda>p. (pid p, name p, balance p)) (players r)"
    using wo by (auto simp: winner_options_def host_ok_def cr cp split: if_splits)
  obtain p where p: "p \<in> set (players r)" "pid p = wid" using opt opts by auto
  have fq: "List.find (\<lambda>x. pid x = pid q) (players r) = Some q"
    using find_pid_distinct [of "players r" q] wf q by (simp add: wf_room_def)
  obtain i where "find_idx (\<lambda>x. pid x = wid) (players r) = Some i"
    using find_idx_Some_exists [of "players r" "\<lambda>x. pid x = wid"] p by blast
  then show ?thesis
    using h pl con by (simp add: selectWinner_def client_declareWinner_def host_ok_def cr cp
        Actions.declareWinner_def fq Let_def)
qed

section \<open>Properties of the start-up\<close>

text \<open>The poll ends: within its first 50 ticks it renders the lobby or gives up, and
  it never counts past 50 attempts.\<close>

lemma lobby_poll_bounded:
  "n < 50 \<Longrightarrow> (lobby_poll n cs = Ready k c e \<longrightarrow> n < k \<and> k \<le> 50) \<and>
               (lobby_poll n cs = Polling m \<longrightarrow> length cs < 50 - n)"
proof (induction n cs rule: lobby_poll.induct)
  case (1 n)
  then show ?case by simp
next
  case (2 n c cs)
  then show ?case by (auto simp: Let_def split: prod.split)
qed

lemma lobby_poll_ends:
  "n < 50 \<Longrightarrow> 50 - n \<le> length cs \<Longrightarrow> lobby_poll n cs = TimedOut \<or> (\<exists>k c e. lobby_poll n cs = Ready k c e)"
  using lobby_poll_bounded [of n cs] by (cases "lobby_poll n cs") auto

text \<open>\<open>init\<close> falls back on the saved room's code when the URL has none, but
  \<open>initLobby\<close> reads the URL again without that fallback: a lobby page opened without
  \<open>?room=\<close> goes home even with a saved room and player.\<close>

lemma init_page_no_url:
  "onLobby c \<Longrightarrow> init_page None c ticks = GoHome"
  by (simp add: init_page_def initLobby_def)

section \<open>Reconnection attempts\<close>

lemma on_reconnect_error_fifth:
  "on_reconnect_error c = (c', x) \<Longrightarrow> reconnectAttempts c' = Suc (reconnectAttempts c) \<and>
     (x = Some NConnectionLost \<longleftrightarrow> 4 \<le> reconnectAttempts c)"
  by (auto simp: on_reconnect_error_def Let_def split: if_splits)

end
