(* ===== verification/Http.thy ===== *)
theory Http
  imports Prelude
begin

text \<open>
  The HTTP side of \<^verbatim>\<open>src/server.js\<close> (lines 17--18, 761--767): the static-file
  middleware \<open>express.static(__dirname)\<close> mounted first, then the route for \<open>/\<close>,
  and the port. The directory is given by the relative paths of its files. The
  middleware is modelled with serve-static's defaults: a path with a \<open>..\<close> segment is
  refused (403), a segment starting with a dot is ignored and falls through, a path
  ending in \<open>/\<close> serves that directory's \<open>index.html\<close>, any other path serves the
  file of that name, and a miss falls through to the next handler. URL decoding, query
  strings and the redirect of a directory requested without its slash are not modelled.
\<close>

datatype http_res = Serve string | Forbidden403 | NotFound404

fun split_on :: "char \<Rightarrow> string \<Rightarrow> string list" where
  "split_on c [] = [[]]"
| "split_on c (x # xs) =
     (if x = c then [] # split_on c xs
      else (case split_on c xs of w # ws \<Rightarrow> (x # w) # ws | [] \<Rightarrow> [[x]]))"

fun join_on :: "char \<Rightarrow> string list \<Rightarrow> string" where
  "join_on c [] = []"
| "join_on c [w] = w"
| "join_on c (w # ws) = w @ c # join_on c ws"

definition dot_segment :: "string \<Rightarrow> bool" where
  "dot_segment s \<longleftrightarrow> s \<noteq> [] \<and> hd s = CHR ''.''"

text \<open>\<open>express.static(path.join(__dirname))\<close> for a request path starting with \<open>/\<close>;
  \<open>None\<close> is \<open>next()\<close>.\<close>

definition static_mw :: "string list \<Rightarrow> string \<Rightarrow> http_res option" where
  "static_mw files p =
     (let segs = tl (split_on CHR ''/'' p)
      in if ''..'' \<in> set segs then Some Forbidden403
         else if list_ex dot_segment segs then None
         else if last segs = [] then
           (let idx = join_on CHR ''/'' (butlast segs @ [''index.html''])
            in if idx \<in> set files then Some (Serve idx) else None)
         else let f = join_on CHR ''/'' segs in if f \<in> set files then Some (Serve f) else None)"

text \<open>The app: the middleware, then \<open>app.get('/')\<close> sending \<open>index.html\<close> (a missing
  file is a 404), then express's final 404.\<close>

definition http_get :: "string list \<Rightarrow> string \<Rightarrow> http_res" where
  "http_get files p =
     (case static_mw files p of
        Some r \<Rightarrow> r
      | None \<Rightarrow> if p = ''/'' \<and> ''index.html'' \<in> set files then Serve ''index.html'' else NotFound404)"

text \<open>\<open>process.env.PORT || 3000\<close>.\<close>

definition listen_port :: "string option \<Rightarrow> string" where
  "listen_port env = (case env of Some p \<Rightarrow> if p = [] then ''3000'' else p | None \<Rightarrow> ''3000'')"

section \<open>Properties\<close>

lemma split_on_ne: "split_on c s \<noteq> []"
  by (induction s) (auto split: list.split)

lemma join_split_on: "join_on c (split_on c s) = s"
proof (induction s)
  case Nil
  then show ?case by simp
next
  case (Cons x xs)
  obtain w ws where sp: "split_on c xs = w # ws"
    using split_on_ne [of c xs] by (cases "split_on c xs") auto
  then show ?case using Cons.IH by (cases ws) auto
qed

text \<open>Only files of the directory are ever sent.\<close>

lemma http_get_serves_files: "http_get files p = Serve f \<Longrightarrow> f \<in> set files"
  by (auto simp: http_get_def static_mw_def Let_def split: option.splits if_splits)

text \<open>Every file of the directory whose path has no dot segment is served under its
  own path, the server's source among them.\<close>

lemma http_get_file:
  assumes "f \<in> set files" and "\<not> list_ex dot_segment (split_on CHR ''/'' f)"
    and "''..'' \<notin> set (split_on CHR ''/'' f)" and "last (split_on CHR ''/'' f) \<noteq> []"
  shows "http_get files (CHR ''/'' # f) = Serve f"
  using assms by (simp add: http_get_def static_mw_def Let_def join_split_on)

lemma http_get_root:
  "http_get files ''/'' = (if ''index.html'' \<in> set files then Serve ''index.html'' else NotFound404)"
  by (simp add: http_get_def static_mw_def dot_segment_def)

lemma http_examples:
  "http_get [''index.html'', ''server.js'', ''.env''] ''/server.js'' = Serve ''server.js'' \<and>
   http_get [''index.html'', ''server.js'', ''.env''] ''/.env'' = NotFound404 \<and>
   http_get [''index.html'', ''server.js''] ''/../etc/passwd'' = Forbidden403 \<and>
   listen_port None = ''3000'' \<and> listen_port (Some []) = ''3000''"
  by code_simp

end
