(* ===== verification/Spec2Isabelle.thy ===== *)
theory Spec2Isabelle
  imports View Http
begin

text \<open>
  \<^bold>\<open>A verification development of TeenPattiPool: its game server and browser client.\<close>

  \<^bold>\<open>The program.\<close> \<^verbatim>\<open>src/server.js\<close> is a Node.js/socket.io server that keeps
  a registry of rooms (the \<open>rooms\<close> Map, line 21). A room holds an ordered list of
  players with balances, a pool, a turn index, a round counter and a log of at most 50
  entries. Each socket event handler (\<open>createRoom\<close>, \<open>rejoinRoom\<close>, \<open>joinRoom\<close>,
  \<open>placeBid\<close>, \<open>packCards\<close>, \<open>resetPool\<close>, \<open>declareWinner\<close>, \<open>removePlayer\<close>,
  \<open>changeTurn\<close>, \<open>leaveRoom\<close>, \<open>disconnect\<close>) runs to completion on Node's single
  thread, and so does each 30-second disconnect timer: the server is a state machine
  whose steps are whole handler runs. A handler reads the socket's session
  (\<open>socket.roomCode\<close>, \<open>socket.playerId\<close>), looks the room up, checks its guards
  (each failure is an \<open>error\<close> message to the socket and an early return), mutates the
  room and emits room snapshots to the sockets subscribed to the room.
  \<^verbatim>\<open>src/unnamed/part_000\<close> is the README and the browser client (class
  \<open>TeenPattiPool\<close>, lines 222--1118, and the page's global handlers): it keeps its
  own copy of the room and of its player, saves them in \<open>localStorage\<close>, validates
  the user's input before emitting a request, and updates that copy from the
  server's messages.

  \<^bold>\<open>Theories.\<close>
  \<^item> \<open>Prelude\<close>: the JavaScript built-ins the server calls (\<open>findIndex\<close> as
    \<open>find_idx\<close>/\<open>findIndex\<close>, \<open>splice(i, 1)\<close> as \<open>splice1\<close>, \<open>slice(-n)\<close> as
    \<open>slice_last\<close>, \<open>toLowerCase\<close>, \<open>trim()\<close> as \<open>js_trim\<close> and its emptiness) and the list
    lemmas the components share; the collection \<open>js_simps\<close> evaluates them.
  \<^item> \<open>Room\<close>: the player and room objects as records, the log messages as a
    datatype, \<open>addToGameLog\<close>, \<open>generateRoomCode\<close>, \<open>generatePlayerId\<close> (random
    draws and clock as parameters), the room invariant \<open>wf_room\<close>, the turn invariant
    \<open>turn_ok\<close> and the money measure \<open>total_money\<close>.
  \<^item> \<open>Turn\<close>: \<open>moveToNextActivePlayer\<close> and \<open>ensureActiveTurn\<close> (lines 708--759)
    with their \<open>while\<close> loop \<open>scanActive\<close> (a \<^theory_text>\<open>function\<close> terminating by the
    measure \<open>n - attempts\<close>) and fallback loop, and the reference \<open>next_active\<close>.
    Claims C1--C5: refinement of \<open>next_active\<close>, nearest unpacked player, the
    all-packed case, \<open>ensureActiveTurn\<close>, termination of the loop.
  \<^item> \<open>Events\<close>: error classes, emitted events with their room snapshots, addressing.
  \<^item> \<open>Actions\<close>: the room state machine, one definition per handler body after the
    room lookup (checks in the code's order, errors as \<open>Inl\<close>, the outbox), the
    dispatcher \<open>game_step\<close>, and the specification's settlement \<open>settle\<close>.
  \<^item> \<open>Invariants\<close>: every operation keeps \<open>wf_room\<close>; building blocks for
    \<open>turn_ok\<close> and money.
  \<^item> \<open>Behaviour\<close>: C6--C18, each operation's behaviour on every branch: bids, the
    automatic settlement of \<open>packCards\<close> and its agreement with \<open>declareWinner\<close>,
    reset, the guards' order, the turn after a removal or a leave, owner transfer, the
    timeout removal as a leave, case-insensitive names on join.
  \<^item> \<open>Game\<close>: C19, C20, C22--C24, the operations together: \<open>wf_room\<close> and
    \<open>turn_ok\<close> kept, money conservation, the pool as the sum of the bids
    (\<open>run_bids\<close>), the log bound; the outbox of every successful action ends with the
    \<open>roomUpdate\<close> of the new room (\<open>game_step_last_update\<close>); and the scenario of a
    removal that leaves the turn on a packed player who can then bid.
  \<^item> \<open>Server\<close>: the registry (\<open>rooms\<close> as an association list in the Map's
    insertion order), the sessions and socket.io subscriptions of connected sockets, the
    FIFO of disconnect timers, one definition per socket handler (\<open>createRoom_h\<close>,
    \<open>rejoinRoom_h\<close>, \<open>joinRoom_h\<close>, the game handlers over the shared prologue
    \<open>room_handler\<close>, \<open>leaveRoom_h\<close>, \<open>disconnect_h\<close>, the timer callback
    \<open>fire_timer\<close>), delivery of each message to the sockets subscribed when it is
    emitted, the dispatcher \<open>server_step\<close> and the reachable states (\<^theory_text>\<open>inductive\<close>),
    which are exactly the ends of runs of requests meeting the freshness assumptions
    (\<open>reachable_iff_run\<close>).
    C25--C33: the registry invariant by rule induction, no out-of-range turn, the
    grace timer with and without reconnection, code collisions, independence of rooms;
    and, for every state and request of the kind, that a removal leaves the removed
    socket subscribed with its session (C31), that a rejoin leaves the old socket able
    to act for the player (C32), and that a disconnect arms a timer for the first room
    only (C33). The general lemmas \<open>action_step_game\<close> and \<open>remove_step_game\<close>
    take a game step that changes a room apart into the room operation it ran. The
    scenarios of specification section 8 run through the handlers as checks of the
    model (\<open>spec_scenario_section8\<close>, \<open>last_leave_deletes_room\<close>).
  \<^item> \<open>Codes\<close>: the type \<open>room_code4\<close> of four-digit codes (a \<^theory_text>\<open>typedef\<close>
    with \<^theory_text>\<open>lift_definition\<close>s and \<open>equal\<close>/\<open>linorder\<close> instances),
    \<open>generateRoomCode\<close> lifted to it, the lobby page's code-field filter, and how each
    handler changes the registry's keys. C35: every key of a reachable registry has
    type \<open>room_code4\<close> and passes the code field unchanged.
  \<^item> \<open>Client\<close>: the browser's state as a record (\<open>currentRoom\<close>,
    \<open>currentPlayer\<close>, \<open>isConnected\<close>, the page, the saved state), \<open>saveState\<close>,
    \<open>loadState\<close>, \<open>clearState\<close>, the request methods with their client-side
    checks (\<open>client_createRoom\<close>, \<open>client_joinRoom\<close>, \<open>client_placeBid\<close>, ...),
    the page's leave button \<open>ui_leaveRoom\<close>, and the socket listeners
    (\<open>on_connect\<close>, \<open>on_event\<close>, \<open>updateLobbyUI\<close>). A listener returns the state
    it leaves together with the \<open>TypeError\<close> it threw, if any, since the
    assignments made before the throw stay and the socket keeps dispatching. The
    composition \<open>net_run\<close> runs the server on a sequence of requests and one
    browser on what each step delivers to its socket (\<open>delivered\<close>).
    C21: after every game action that changes a room, each browser subscribed to it
    holds the room the server stores (the broadcaster's contract
    \<open>action_changes_room\<close> of \<open>Server\<close> composed with the listeners).
    C36--C40: the client's bid check agrees with the server's, the lobby refreshes
    its player from each update, the browser of every removed player who is connected
    and on the lobby page throws a \<open>TypeError\<close> on the removal's broadcast (C38,
    from \<open>remove_step_outs\<close>, the exact messages a removal sends), what the client
    sends to create a room is what the server stores, and a reconnecting browser is
    taken back.
  \<^item> \<open>View\<close>: the page layer of the client: \<open>parseInt\<close> and \<open>String(n)\<close>
    (\<open>js_parseInt\<close>, \<open>js_string_of_int\<close>) with their round trip, the global
    handlers of the buttons and fields, the lobby's rendering as the values written
    into the page (\<open>players_circle\<close>, \<open>players_legacy\<close>, \<open>turn_indicator\<close>,
    \<open>bidding_view\<close>, \<open>host_controls\<close>, \<open>balance_display\<close>, \<open>game_log_view\<close>),
    the winner modal, and the start-up (\<open>init_page\<close>, \<open>initLobby\<close>, the polling
    loop \<open>lobby_poll\<close>, at most 50 ticks). C34: a quick bid is placed as its
    amount, for every integer (the round trip of \<open>String\<close> and \<open>parseInt\<close>). Its
    other lemmas: the two player layouts agree on a well-formed room, the bid button agrees
    with \<open>placeBid\<close>, every confirmed winner option is accepted by the server, the
    poll ends within 50 ticks, and a lobby opened without \<open>?room=\<close> goes home.
  \<^item> \<open>Http\<close>: the HTTP side of the server: \<open>express.static(__dirname)\<close> with
    serve-static's defaults (\<open>static_mw\<close>), the route for \<open>/\<close> behind it
    (\<open>http_get\<close>) and \<open>listen_port\<close>. Its lemmas: only files of the directory are
    sent, every file without a dot segment is sent under its own path (the server's
    source included), and \<open>/\<close> is answered by the middleware's directory index.
  \<^item> \<open>Examples\<close>: concrete players and rooms for the witnesses.

  \<^bold>\<open>Fresh values.\<close> The code draws room codes, player ids and socket ids at random.
  They are parameters of the requests; \<open>reachable\<close> assumes player ids and socket
  ids fresh (as \<open>Date.now()\<close> with a random suffix and socket.io make them in
  practice) and room-code draws in \<open>0..8999\<close>, not fresh, since the code does not
  check them (C29).

  \<^bold>\<open>Timers.\<close> Every timer has the same 30-second delay, so they fire in the order
  they were armed; \<open>FireTimer\<close> fires the oldest at any point between handler runs.
  No fuel is needed: every handler and the scheduler's loop terminate.

  \<^bold>\<open>Numbers.\<close> JavaScript numbers are unbounded \<open>int\<close> (balances, pool, amounts)
  and \<open>nat\<close> (indices, counters). This is exact while every value stays below
  \<open>2^53\<close>, where doubles represent all integers. Bids are bounded by balances, and
  settlement only moves money, so every value stays within the sum of the starting
  balances. But the creator types the starting balance, and \<open>parseInt\<close> accepts any
  length of digits. A starting balance beyond \<open>2^53\<close> makes the code's sums inexact
  where the model's are exact. The money lemmas (C22, C23) hold for the code only
  below that bound; the specification sets no bound (a finding). Amounts
  and starting balances are taken to be integers, as the browser client sends them
  (\<open>parseInt\<close>); \<open>parseInt(startingBalance) || 1000\<close> is \<open>parse_balance\<close>. The
  page's \<open>parseInt\<close> of a field's text is \<open>js_parseInt\<close> (decimal, optional sign,
  longest digit prefix, so \<open>12.5\<close> and \<open>1e3\<close> read as 12 and 1).

  \<^bold>\<open>Not modelled.\<close> The module loading and the construction of the express,
  HTTP and socket.io objects (lines 1--15), the CORS headers (\<open>cors()\<close> and
  socket.io's \<open>origin: "*"\<close>, which admit every origin), URL decoding, and the
  console output are configuration; log messages carry no timestamps
  (\<open>toLocaleTimeString\<close>); a request whose fields have the wrong JavaScript type (a
  string amount, a non-string name) is outside the model. Of the browser client, the
  markup itself (CSS classes, pixel positions of the circle, \<open>repositionPlayers\<close>),
  animations, modal visibility, the toasts of \<open>showMessage\<close> (kept only as the
  \<open>notice\<close> a check ends with) and the redirects are not modelled: the rendering is
  modelled as the values written into the page. The README is prose. The lobby page is assumed to have the
  \<open>playersCircle\<close> element, so the fallback list that reads
  \<open>this.currentPlayer.id\<close> without \<open>?.\<close> is not taken. A page load
  (\<open>client_init\<close>) reads back what \<open>saveState\<close> wrote; the socket's reconnection
  attempts are the \<open>Connect\<close> requests of the server model.
\<close>

end
